(* ===== verification/Prelude.thy ===== *)
theory Prelude
  imports Main "HOL-Library.Word" "HOL-Library.State_Monad"
begin

text \<open>
  The prelude of the BridgeIM development: what the components take from C++ and its standard
  library (the 32-bit \<open>int\<close>, decimal output of an integer, \<open>std::atoi\<close>, \<open>std::stoi\<close>,
  \<open>std::string::find\<close> on one character, \<open>c_str\<close>), the runs of the state monad the stateful
  components are written in, and the collections of rules their proofs share.

  A \<open>std::string\<close> is a list of bytes, that is a \<open>string\<close>. An \<open>int\<close> of the program is an
  \<open>int\<close> of HOL that lies in \<open>int32_range\<close>; where the source narrows a wider value the model
  writes \<open>to_int32\<close>.
\<close>

named_theorems cxx_defs \<open>definitions of library routines the proofs may unfold\<close>
named_theorems run_defs \<open>definitions of the stateful operations of the model\<close>

subsection \<open>The 32-bit int\<close>

definition to_int32 :: "int \<Rightarrow> int" where
  "to_int32 i = sint (word_of_int i :: 32 word)"

definition int32_range :: "int \<Rightarrow> bool" where
  "int32_range i \<longleftrightarrow> - 2147483648 \<le> i \<and> i \<le> 2147483647"

lemma to_int32_range [simp, intro]: "int32_range (to_int32 i)"
  using sint_range_size [of "word_of_int i :: 32 word"]
  by (simp add: to_int32_def int32_range_def word_size)

lemma to_int32_id [simp]: "int32_range i \<Longrightarrow> to_int32 i = i"
  by (simp add: to_int32_def int32_range_def sint_sbintrunc' signed_take_bit_int_eq_self_iff)

lemma to_int32_idem [simp]: "to_int32 (to_int32 i) = to_int32 i"
  by simp

subsection \<open>Decimal text\<close>

definition is_digit :: "char \<Rightarrow> bool" where
  "is_digit c \<longleftrightarrow> 48 \<le> (of_char c :: nat) \<and> (of_char c :: nat) \<le> 57"

definition digit_val :: "char \<Rightarrow> nat" where
  "digit_val c = of_char c - 48"

definition digit_char :: "nat \<Rightarrow> char" where
  "digit_char n = char_of (48 + n)"

fun show_nat :: "nat \<Rightarrow> string" where
  "show_nat n = (if n < 10 then [digit_char n] else show_nat (n div 10) @ [digit_char (n mod 10)])"

declare show_nat.simps [simp del]

text \<open>\<open>std::ostream << int\<close> and \<open>std::to_string(int)\<close>.\<close>

definition show_int :: "int \<Rightarrow> string" where
  "show_int i = (if i < 0 then CHR ''-'' # show_nat (nat (- i)) else show_nat (nat i))"

text \<open>\<open>%02d\<close>: width two, filled with zeros on the left.\<close>

definition pad2 :: "int \<Rightarrow> string" where
  "pad2 i = replicate (2 - length (show_int i)) (CHR ''0'') @ show_int i"

text \<open>\<open>struct tm\<close>.\<close>

record tm =
  tm_year :: int
  tm_mon :: int
  tm_mday :: int
  tm_hour :: int
  tm_min :: int
  tm_sec :: int

definition digits_val :: "string \<Rightarrow> nat" where
  "digits_val ds = foldl (\<lambda>a c. 10 * a + digit_val c) 0 ds"

lemma digit_char_digit [simp]: "n < 10 \<Longrightarrow> is_digit (digit_char n)"
  by (simp add: is_digit_def digit_char_def of_char_of)

lemma digit_val_char [simp]: "n < 10 \<Longrightarrow> digit_val (digit_char n) = n"
  by (simp add: digit_val_def digit_char_def of_char_of)

lemma digits_val_snoc [simp]: "digits_val (ds @ [c]) = 10 * digits_val ds + digit_val c"
  by (simp add: digits_val_def)

lemma digits_val_Nil [simp]: "digits_val [] = 0"
  by (simp add: digits_val_def)

lemma show_nat_digits [simp]: "\<forall>c \<in> set (show_nat n). is_digit c"
proof (induction n rule: show_nat.induct)
  case (1 n)
  then show ?case by (subst show_nat.simps) auto
qed

lemma show_nat_nonempty [simp]: "show_nat n \<noteq> []"
  by (subst show_nat.simps) simp

lemma digits_val_show_nat [simp]: "digits_val (show_nat n) = n"
proof (induction n rule: show_nat.induct)
  case (1 n)
  show ?case
  proof (cases "n < 10")
    case True
    then show ?thesis
      by (subst show_nat.simps) (simp add: digits_val_def)
  next
    case False
    with 1 show ?thesis
      by (subst show_nat.simps) simp
  qed
qed

lemma show_nat_inj [simp]: "show_nat m = show_nat n \<longleftrightarrow> m = n"
  by (metis digits_val_show_nat)

lemma not_digit_simps [simp]:
  "\<not> is_digit (CHR ''-'')" "\<not> is_digit (CHR ''+'')" "\<not> is_digit (CHR 0x0A)"
  "\<not> is_digit (CHR '','')" "\<not> is_digit (CHR '':'')" "\<not> is_digit (CHR 0x27)"
  "\<not> is_digit (CHR '')'')" "\<not> is_digit (CHR '' '')" "\<not> is_digit (CHR '';'')"
  "\<not> is_digit (CHR 0x00)" "\<not> is_digit (CHR 0x5C)"
  by (simp_all add: is_digit_def)

lemma show_nat_chars:
  assumes "\<not> is_digit c"
  shows "c \<notin> set (show_nat n)"
  using assms show_nat_digits [of n] by blast

lemma show_int_chars:
  assumes "\<not> is_digit c" "c \<noteq> CHR ''-''"
  shows "c \<notin> set (show_int i)"
  using assms by (auto simp: show_int_def show_nat_chars)

lemma show_int_nonempty [simp]: "show_int i \<noteq> []"
  by (simp add: show_int_def)

text \<open>How a process ends: by \<open>exit\<close> or \<open>return\<close>, or by an exception nobody catches.\<close>

datatype exit_status = ExitCode int | UncaughtException

subsection \<open>std::atoi and std::stoi\<close>

definition is_space :: "char \<Rightarrow> bool" where
  "is_space c \<longleftrightarrow> c \<in> {CHR '' '', CHR 0x09, CHR 0x0A, CHR 0x0B, CHR 0x0C, CHR 0x0D}"

text \<open>
  The common scanner of \<open>strtol\<close> in base ten: skip white space, take an optional sign, take
  the longest run of digits. The result is the sign, the digits and what follows them.
\<close>

definition scan_sign :: "string \<Rightarrow> bool \<times> string" where
  "scan_sign s = (case s of
     [] \<Rightarrow> (False, [])
   | c # t \<Rightarrow> if c = CHR ''-'' then (True, t) else if c = CHR ''+'' then (False, t) else (False, s))"

definition scan_int :: "string \<Rightarrow> bool \<times> string \<times> string" where
  "scan_int s = (let (neg, t) = scan_sign (dropWhile is_space s)
     in (neg, takeWhile is_digit t, dropWhile is_digit t))"

definition signed_val :: "bool \<Rightarrow> string \<Rightarrow> int" where
  "signed_val neg ds = (if neg then - int (digits_val ds) else int (digits_val ds))"

text \<open>
  \<open>std::atoi\<close> gives 0 when there are no digits. Its result is undefined out of range;
  glibc computes \<open>(int) strtol(...)\<close>, which saturates at 64 bits and then narrows.
\<close>

definition clamp64 :: "int \<Rightarrow> int" where
  "clamp64 i = max (- (2 ^ 63)) (min (2 ^ 63 - 1) i)"

definition atoi :: "string \<Rightarrow> int" where
  "atoi s = (let (neg, ds, rest) = scan_int s in to_int32 (clamp64 (signed_val neg ds)))"

text \<open>
  \<open>std::stoi(text, &pos)\<close>: \<open>None\<close> is the exception (\<open>std::invalid_argument\<close> without digits,
  \<open>std::out_of_range\<close> outside \<open>int\<close>); otherwise the value and the characters consumed.
\<close>

definition stoi :: "string \<Rightarrow> (int \<times> nat) option" where
  "stoi s = (let (neg, ds, rest) = scan_int s; v = signed_val neg ds
     in if ds = [] \<or> \<not> int32_range v then None else Some (v, length s - length rest))"

lemma clamp64_id: "int32_range i \<Longrightarrow> clamp64 i = i"
  by (simp add: clamp64_def int32_range_def)

lemma takeWhile_digits_show_nat [simp]:
  "\<not> is_digit c \<Longrightarrow> takeWhile is_digit (show_nat n @ c # t) = show_nat n"
  "takeWhile is_digit (show_nat n) = show_nat n"
  using show_nat_digits [of n] by (simp_all add: takeWhile_append takeWhile_eq_all_conv)

lemma dropWhile_digits_show_nat [simp]:
  "\<not> is_digit c \<Longrightarrow> dropWhile is_digit (show_nat n @ c # t) = c # t"
  "dropWhile is_digit (show_nat n) = []"
  using show_nat_digits [of n] by (simp_all add: dropWhile_append dropWhile_eq_Nil_conv)

lemma is_digit_not_space: "is_digit c \<Longrightarrow> \<not> is_space c"
  by (auto simp: is_digit_def is_space_def)

lemma is_digit_not_sign: "is_digit c \<Longrightarrow> c \<noteq> CHR ''-'' \<and> c \<noteq> CHR ''+''"
  by (auto simp: is_digit_def)

lemma scan_int_digits:
  assumes "ds \<noteq> []" "\<forall>c \<in> set ds. is_digit c"
  shows "scan_int ds = (False, ds, [])"
proof -
  obtain c cs where ds: "ds = c # cs" using assms(1) by (cases ds) auto
  with assms(2) have c: "is_digit c" by simp
  then have "scan_sign (dropWhile is_space ds) = (False, ds)"
    using is_digit_not_space [OF c] is_digit_not_sign [OF c] by (simp add: ds scan_sign_def)
  with assms(2) show ?thesis
    by (simp add: scan_int_def takeWhile_eq_all_conv [THEN iffD2] dropWhile_eq_Nil_conv [THEN iffD2])
qed

lemma scan_int_show_int:
  "scan_int (show_int i) = (i < 0, show_nat (nat \<bar>i\<bar>), [])"
proof (cases "i < 0")
  case True
  have "\<not> is_space (CHR ''-'')" by (simp add: is_space_def)
  with True show ?thesis
    by (simp add: show_int_def scan_int_def scan_sign_def)
next
  case False
  then show ?thesis
    using scan_int_digits [OF show_nat_nonempty show_nat_digits, of "nat i"]
    by (simp add: show_int_def)
qed

lemma atoi_show_int [simp]: "int32_range i \<Longrightarrow> atoi (show_int i) = i"
  by (simp add: atoi_def scan_int_show_int signed_val_def clamp64_id)

lemma stoi_show_int [simp]:
  "int32_range i \<Longrightarrow> stoi (show_int i) = Some (i, length (show_int i))"
  by (simp add: stoi_def scan_int_show_int signed_val_def)

lemma show_int_inj: "int32_range i \<Longrightarrow> int32_range j \<Longrightarrow> show_int i = show_int j \<Longrightarrow> i = j"
  by (metis atoi_show_int)

lemma show_int_eq: "show_int i = show_int j \<longleftrightarrow> i = j"
proof -
  have "show_nat n \<noteq> CHR ''-'' # ds" for n ds
  proof
    assume "show_nat n = CHR ''-'' # ds"
    then have "is_digit (CHR ''-'')" using show_nat_digits [of n] by simp
    then show False by simp
  qed
  from this this [symmetric] show ?thesis by (auto simp: show_int_def)
qed

lemma atoi_range [simp]: "int32_range (atoi s)"
  by (simp add: atoi_def split: prod.split)

lemma stoi_range: "stoi s = Some (v, n) \<Longrightarrow> int32_range v"
  by (auto simp: stoi_def Let_def split: if_splits prod.splits)

subsection \<open>Characters in strings\<close>

abbreviation newline :: char where
  "newline \<equiv> CHR 0x0A"

text \<open>\<open>s.find(c)\<close>: the position of the first \<open>c\<close>; \<open>None\<close> is \<open>std::string::npos\<close>.\<close>

definition find_char :: "char \<Rightarrow> string \<Rightarrow> nat option" where
  "find_char c s = (if c \<in> set s then Some (length (takeWhile (\<lambda>x. x \<noteq> c) s)) else None)"

lemma find_char_None [simp]: "find_char c s = None \<longleftrightarrow> c \<notin> set s"
  by (simp add: find_char_def)

lemma find_char_absent [simp]: "c \<notin> set s \<Longrightarrow> find_char c s = None"
  by simp

lemma find_char_split:
  assumes "find_char c s = Some p"
  shows "s = take p s @ c # drop (Suc p) s" and "c \<notin> set (take p s)" and "p < length s"
proof -
  have p: "p = length (takeWhile (\<lambda>x. x \<noteq> c) s)" and c: "c \<in> set s"
    using assms by (auto simp: find_char_def split: if_splits)
  have take: "take p s = takeWhile (\<lambda>x. x \<noteq> c) s"
    by (simp add: p flip: takeWhile_eq_take)
  then show "c \<notin> set (take p s)"
    by (metis set_takeWhileD)
  have "dropWhile (\<lambda>x. x \<noteq> c) s \<noteq> []" and "hd (dropWhile (\<lambda>x. x \<noteq> c) s) = c"
    using c hd_dropWhile [of "\<lambda>x. x \<noteq> c" s] by (auto simp: dropWhile_eq_Nil_conv)
  then have d: "drop p s = c # drop (Suc p) s"
    unfolding p by (metis drop_Suc dropWhile_eq_drop list.collapse tl_drop)
  then show "s = take p s @ c # drop (Suc p) s"
    by (metis append_take_drop_id)
  show "p < length s"
    using d by (metis drop_eq_Nil2 leI list.distinct(1))
qed

lemma find_char_append [simp]: "c \<notin> set a \<Longrightarrow> find_char c (a @ c # b) = Some (length a)"
proof -
  assume "c \<notin> set a"
  then have "takeWhile (\<lambda>x. x \<noteq> c) (a @ c # b) = a"
    by (induction a) auto
  then show ?thesis
    by (simp add: find_char_def)
qed

text \<open>A string handed to a C interface through \<open>c_str()\<close> ends at its first NUL.\<close>

definition c_str :: "string \<Rightarrow> string" where
  "c_str s = takeWhile (\<lambda>c. c \<noteq> CHR 0x00) s"

lemma c_str_id [simp]: "CHR 0x00 \<notin> set s \<Longrightarrow> c_str s = s"
  by (auto simp: c_str_def takeWhile_eq_all_conv)

subsection \<open>The state monad\<close>

abbreviation return :: "'a \<Rightarrow> ('s, 'a) state" where
  "return \<equiv> State_Monad.return"

abbreviation st_after :: "('s, 'a) state \<Rightarrow> 's \<Rightarrow> 's" where
  "st_after m s \<equiv> snd (run_state m s)"

abbreviation val_of :: "('s, 'a) state \<Rightarrow> 's \<Rightarrow> 'a" where
  "val_of m s \<equiv> fst (run_state m s)"

definition gets :: "('s \<Rightarrow> 'a) \<Rightarrow> ('s, 'a) state" where
  "gets f = State (\<lambda>s. (f s, s))"

definition modify :: "('s \<Rightarrow> 's) \<Rightarrow> ('s, unit) state" where
  "modify f = State (\<lambda>s. ((), f s))"

lemma run_gets [simp]: "run_state (gets f) s = (f s, s)"
  by (simp add: gets_def)

lemma run_modify [simp]: "run_state (modify f) s = ((), f s)"
  by (simp add: modify_def)

lemma run_if [simp]: "run_state (if b then m else m') s = (if b then run_state m s else run_state m' s)"
  by simp

text \<open>\<open>for (x : xs) m(x)\<close> with the results thrown away.\<close>

fun for_each :: "('a \<Rightarrow> ('s, 'b) state) \<Rightarrow> 'a list \<Rightarrow> ('s, unit) state" where
  "for_each m [] = return ()"
| "for_each m (x # xs) = do { _ \<leftarrow> m x; for_each m xs }"

lemma st_after_for_each: "st_after (for_each m xs) s = fold (\<lambda>x s. st_after (m x) s) xs s"
  by (induction xs arbitrary: s) (simp_all add: split_beta)

lemma for_each_invariant:
  assumes "P s" and "\<And>x s. x \<in> set xs \<Longrightarrow> P s \<Longrightarrow> P (st_after (m x) s)"
  shows "P (st_after (for_each m xs) s)"
  using assms by (induction xs arbitrary: s) (simp_all add: split_beta)

text \<open>A step that may throw: the rest of the block is skipped, the exception is the block's value.\<close>

fun require :: "'e + 'a \<Rightarrow> ('a \<Rightarrow> ('s, 'e option) state) \<Rightarrow> ('s, 'e option) state" where
  "require (Inl e) k = return (Some e)"
| "require (Inr x) k = k x"

text \<open>
  \<open>keeps P m\<close>: the computation \<open>m\<close> preserves \<open>P\<close>, and \<open>frame f m\<close>: it leaves the part \<open>f\<close> of the
  state alone. The rules in \<open>keeps_rules\<close> follow the structure of a computation.
\<close>

named_theorems keeps_rules \<open>what an operation preserves\<close>

definition keeps :: "('s \<Rightarrow> bool) \<Rightarrow> ('s, 'a) state \<Rightarrow> bool" where
  "keeps P m \<longleftrightarrow> (\<forall>s. P s \<longrightarrow> P (st_after m s))"

definition frame :: "('s \<Rightarrow> 'b) \<Rightarrow> ('s, 'a) state \<Rightarrow> bool" where
  "frame f m \<longleftrightarrow> (\<forall>v. keeps (\<lambda>s. f s = v) m)"

lemma keepsI: "(\<And>s. P s \<Longrightarrow> P (st_after m s)) \<Longrightarrow> keeps P m"
  by (simp add: keeps_def)

lemma keepsD: "keeps P m \<Longrightarrow> P s \<Longrightarrow> P (st_after m s)"
  by (simp add: keeps_def)

lemma frameI: "(\<And>s. f (st_after m s) = f s) \<Longrightarrow> frame f m"
  by (simp add: frame_def keeps_def)

lemma frameD: "frame f m \<Longrightarrow> f (st_after m s) = f s"
  by (simp add: frame_def keeps_def)

lemma frame_keeps: "frame f m \<Longrightarrow> keeps (\<lambda>s. Q (f s)) m"
  by (simp add: frameD keepsI)

lemma keeps_return [keeps_rules]: "keeps P (return x)"
  by (simp add: keeps_def)

lemma keeps_gets [keeps_rules]: "keeps P (gets g)"
  by (simp add: keeps_def)

lemma keeps_bind [keeps_rules]:
  assumes "keeps P m" and "\<And>x. keeps P (k x)"
  shows "keeps P (State_Monad.bind m k)"
  using assms by (simp add: keeps_def split_beta)

lemma keeps_if [keeps_rules]:
  "(b \<Longrightarrow> keeps P m) \<Longrightarrow> (\<not> b \<Longrightarrow> keeps P m') \<Longrightarrow> keeps P (if b then m else m')"
  by simp

lemma keeps_case_option [keeps_rules]:
  "keeps P m \<Longrightarrow> (\<And>y. keeps P (k y)) \<Longrightarrow> keeps P (case x of None \<Rightarrow> m | Some y \<Rightarrow> k y)"
  by (cases x) auto

lemma keeps_case_prod [keeps_rules]: "(\<And>a b. keeps P (k a b)) \<Longrightarrow> keeps P (case p of (a, b) \<Rightarrow> k a b)"
  by (cases p) auto

lemma keeps_Let [keeps_rules]: "(\<And>x. keeps P (k x)) \<Longrightarrow> keeps P (Let v k)"
  by (simp add: Let_def)

lemma keeps_for_each [keeps_rules]: "(\<And>x. keeps P (m x)) \<Longrightarrow> keeps P (for_each m xs)"
  by (induction xs) (auto intro!: keeps_rules)

lemma keeps_require [keeps_rules]: "(\<And>x. r = Inr x \<Longrightarrow> keeps P (k x)) \<Longrightarrow> keeps P (require r k)"
  by (cases r) (auto intro: keeps_rules)

text \<open>\<open>triple P m Q\<close>: from a state with \<open>P\<close>, the value and the state \<open>m\<close> ends with satisfy \<open>Q\<close>.\<close>

definition triple :: "('s \<Rightarrow> bool) \<Rightarrow> ('s, 'a) state \<Rightarrow> ('a \<Rightarrow> 's \<Rightarrow> bool) \<Rightarrow> bool" where
  "triple P m Q \<longleftrightarrow> (\<forall>s. P s \<longrightarrow> Q (val_of m s) (st_after m s))"

lemma tripleD: "triple P m Q \<Longrightarrow> P s \<Longrightarrow> Q (val_of m s) (st_after m s)"
  by (simp add: triple_def)

lemma tripleI: "(\<And>s. P s \<Longrightarrow> Q (val_of m s) (st_after m s)) \<Longrightarrow> triple P m Q"
  by (simp add: triple_def)

lemma triple_bind:
  assumes "triple P m R" and "\<And>x. triple (R x) (k x) Q"
  shows "triple P (State_Monad.bind m k) Q"
  using assms by (simp add: triple_def split_beta)

lemma triple_keeps: "keeps P m \<Longrightarrow> triple P m (\<lambda>_. P)"
  by (simp add: triple_def keeps_def)

lemma triple_modify: "(\<And>s. P s \<Longrightarrow> Q () (f s)) \<Longrightarrow> triple P (modify f) Q"
  by (simp add: triple_def)

lemma triple_return: "(\<And>s. P s \<Longrightarrow> Q x s) \<Longrightarrow> triple P (return x) Q"
  by (simp add: triple_def)

lemma triple_if: "(b \<Longrightarrow> triple P m Q) \<Longrightarrow> (\<not> b \<Longrightarrow> triple P m' Q) \<Longrightarrow> triple P (if b then m else m') Q"
  by simp

lemma triple_pre: "triple P m Q \<Longrightarrow> (\<And>s. P' s \<Longrightarrow> P s) \<Longrightarrow> triple P' m Q"
  by (simp add: triple_def)

lemma triple_post: "triple P m Q \<Longrightarrow> (\<And>x s. Q x s \<Longrightarrow> Q' x s) \<Longrightarrow> triple P m Q'"
  by (simp add: triple_def)

lemma triple_fact: "(b \<Longrightarrow> triple P m Q) \<Longrightarrow> triple (\<lambda>s. P s \<and> b) m Q"
  by (auto simp: triple_def)

lemma triple_require:
  "(\<And>x. r = Inr x \<Longrightarrow> triple P (k x) Q) \<Longrightarrow> (\<And>e s. r = Inl e \<Longrightarrow> P s \<Longrightarrow> Q (Some e) s) \<Longrightarrow> triple P (require r k) Q"
  by (cases r) (auto simp: triple_def)

lemma keeps_triple: "triple P m (\<lambda>_. P) \<Longrightarrow> keeps P m"
  by (simp add: triple_def keeps_def)

end
