(* ===== verification/Queue_Interface.thy ===== *)
theory Queue_Interface
  imports Prelude "HOL-Library.Sublist"
begin

text \<open>
  The interface of the log queue, as the logger's threads use it: producers push, one consumer
  pops, the queue may discard its oldest entries but has to count them, and a closed queue takes
  nothing more. The lemmas of the locale say what a client may rely on over any interleaving of
  these operations. \<open>LockQueue.thy\<close> interprets it on the code's queue.
\<close>

datatype 'a pop_result = Blocked | Closed | Got 'a

text \<open>One operation of an interleaving, and the run of a list of them with what was popped.\<close>

datatype 'a queue_event = EvPush 'a | EvPop | EvStop | EvCapacity nat

fun queue_step :: "('a \<Rightarrow> 'q \<Rightarrow> 'q) \<Rightarrow> ('q \<Rightarrow> 'a pop_result \<times> 'q) \<Rightarrow> ('q \<Rightarrow> 'q) \<Rightarrow> (nat \<Rightarrow> 'q \<Rightarrow> 'q) \<Rightarrow>
    'a queue_event \<Rightarrow> 'q \<Rightarrow> 'a list \<times> 'q" where
  "queue_step pu po st ca (EvPush x) q = ([], pu x q)"
| "queue_step pu po st ca EvStop q = ([], st q)"
| "queue_step pu po st ca (EvCapacity n) q = ([], ca n q)"
| "queue_step pu po st ca EvPop q = (let (r, q1) = po q in (case r of Got x \<Rightarrow> [x] | _ \<Rightarrow> [], q1))"

fun queue_run :: "('a \<Rightarrow> 'q \<Rightarrow> 'q) \<Rightarrow> ('q \<Rightarrow> 'a pop_result \<times> 'q) \<Rightarrow> ('q \<Rightarrow> 'q) \<Rightarrow> (nat \<Rightarrow> 'q \<Rightarrow> 'q) \<Rightarrow>
    'a queue_event list \<Rightarrow> 'q \<Rightarrow> 'a list \<times> 'q" where
  "queue_run pu po st ca [] q = ([], q)"
| "queue_run pu po st ca (e # es) q = (let (out1, q1) = queue_step pu po st ca e q;
     (out2, q2) = queue_run pu po st ca es q1 in (out1 @ out2, q2))"

text \<open>The messages a queue takes, given whether it is closed: those pushed before it is closed.\<close>

fun accepted_msgs :: "bool \<Rightarrow> 'a queue_event list \<Rightarrow> 'a list" where
  "accepted_msgs c [] = []"
| "accepted_msgs c (EvPush x # es) = (if c then [] else [x]) @ accepted_msgs c es"
| "accepted_msgs c (EvStop # es) = accepted_msgs True es"
| "accepted_msgs c (_ # es) = accepted_msgs c es"

locale drop_queue =
  fixes push :: "'a \<Rightarrow> 'q \<Rightarrow> 'q"
    and pop :: "'q \<Rightarrow> 'a pop_result \<times> 'q"
    and stop :: "'q \<Rightarrow> 'q"
    and set_capacity :: "nat \<Rightarrow> 'q \<Rightarrow> 'q"
    and content :: "'q \<Rightarrow> 'a list"
    and dropped :: "'q \<Rightarrow> nat"
    and closed :: "'q \<Rightarrow> bool"
  assumes push_closed: "closed q \<Longrightarrow> push x q = q"
    and push_open: "\<not> closed q \<Longrightarrow> \<exists>k \<le> length (content q).
          content (push x q) = drop k (content q) @ [x] \<and> dropped (push x q) = dropped q + k"
    and push_keeps: "closed (push x q) = closed q"
    and pop_some: "content q = x # xs \<Longrightarrow> \<exists>q'. pop q = (Got x, q') \<and> content q' = xs \<and>
          dropped q' = dropped q \<and> closed q' = closed q"
    and capacity_drops: "\<exists>k \<le> length (content q). content (set_capacity n q) = drop k (content q) \<and>
          dropped (set_capacity n q) = dropped q + k"
    and capacity_keeps: "closed (set_capacity n q) = closed q"
    and pop_none: "content q = [] \<Longrightarrow> pop q = (if closed q then Closed else Blocked, q)"
    and stop_keeps: "content (stop q) = content q" "dropped (stop q) = dropped q" "closed (stop q)"
begin

lemma step_conserves:
  "\<exists>k \<le> length (content q). \<exists>out q'. queue_step push pop stop set_capacity e q = (out, q') \<and>
     out @ content q' = drop k (content q) @ accepted_msgs (closed q) [e] \<and>
     dropped q' = dropped q + k \<and> (closed q' \<longleftrightarrow> closed q \<or> e = EvStop)"
proof (cases e)
  case (EvPush x)
  then show ?thesis
    using push_closed [of q x] push_open [of q x] push_keeps [of x q]
    by (cases "closed q") auto
next
  case EvPop
  then show ?thesis
    using pop_none [of q] pop_some [of q] by (cases "content q") fastforce+
next
  case EvStop
  then show ?thesis using stop_keeps [of q] by auto
next
  case (EvCapacity n)
  then show ?thesis using capacity_drops [of q n] capacity_keeps [of n q] by auto
qed

lemma accepted_Cons:
  "accepted_msgs c (e # es) = accepted_msgs c [e] @ accepted_msgs (c \<or> e = EvStop) es"
  by (cases e) auto

text \<open>
  Over any run: what comes out, followed by what is still queued, is the accepted messages in
  their order with some left out, and exactly as many are left out as the queue has counted.
\<close>

lemma run_conserves:
  assumes "queue_run push pop stop set_capacity es q = (out, q')"
  shows "subseq (out @ content q') (content q @ accepted_msgs (closed q) es)"
    and "length out + length (content q') + dropped q' =
      length (content q) + length (accepted_msgs (closed q) es) + dropped q"
proof -
  have "subseq (out @ content q') (content q @ accepted_msgs (closed q) es) \<and>
    length out + length (content q') + dropped q' =
      length (content q) + length (accepted_msgs (closed q) es) + dropped q"
    using assms
  proof (induction es arbitrary: q out)
    case Nil
    then show ?case by simp
  next
    case (Cons e es)
    obtain k out1 q1 where s: "k \<le> length (content q)" "queue_step push pop stop set_capacity e q = (out1, q1)"
      and c: "out1 @ content q1 = drop k (content q) @ accepted_msgs (closed q) [e]"
      and d: "dropped q1 = dropped q + k" "closed q1 \<longleftrightarrow> closed q \<or> e = EvStop"
      using step_conserves by blast
    obtain out2 where r: "queue_run push pop stop set_capacity es q1 = (out2, q')" "out = out1 @ out2"
      using Cons.prems s(2) by (auto split: prod.splits)
    note IH = Cons.IH [OF r(1)]
    have "subseq (out1 @ out2 @ content q') ((out1 @ content q1) @ accepted_msgs (closed q1) es)"
      using IH by (simp add: subseq_append')
    also have "subseq \<dots> (content q @ accepted_msgs (closed q) (e # es))"
      unfolding c accepted_Cons [of _ e es] d(2) append_assoc
      by (simp only: subseq_append suffix_imp_subseq [OF suffix_drop] append_assoc [symmetric])
    finally have "subseq (out @ content q') (content q @ accepted_msgs (closed q) (e # es))"
      using r(2) by simp
    moreover have "length out1 + length (content q1) + k = length (content q) + length (accepted_msgs (closed q) [e])"
      using arg_cong [OF c, of length] s(1) by simp
    moreover have "length (accepted_msgs (closed q) (e # es)) =
        length (accepted_msgs (closed q) [e]) + length (accepted_msgs (closed q1) es)"
      using accepted_Cons [of "closed q" e es] d(2) by simp
    ultimately show ?case
      using IH r(2) d(1) by auto
  qed
  then show "subseq (out @ content q') (content q @ accepted_msgs (closed q) es)"
    and "length out + length (content q') + dropped q' =
      length (content q) + length (accepted_msgs (closed q) es) + dropped q" by simp_all
qed

text \<open>After a stop, popping drains the queue: everything still queued comes out, in order.\<close>

lemma drain:
  assumes "closed q"
  shows "\<exists>q'. queue_run push pop stop set_capacity (replicate (length (content q)) EvPop) q = (content q, q') \<and>
    content q' = [] \<and> pop q' = (Closed, q') \<and> dropped q' = dropped q"
  using assms
proof (induction "content q" arbitrary: q)
  case Nil
  then show ?case by (simp add: pop_none)
next
  case (Cons x xs)
  then obtain q1 where q1: "pop q = (Got x, q1)" "content q1 = xs" "dropped q1 = dropped q" "closed q1"
    using pop_some [of q x xs] by auto
  with Cons(1) [of q1] Cons(2) [symmetric] show ?case by (auto split: prod.split)
qed

end

end
