(* ===== verification/LockQueue.thy ===== *)
theory LockQueue
  imports Queue_Interface
begin

text \<open>
  \<open>include/server/lockqueue.h\<close>: the bounded queue between the threads that log and the thread
  that writes the log files. Every member function runs under the queue's mutex, so each is one
  function on the state. \<open>Pop\<close> waits on the condition variable until \<open>_stop || !_queue.empty()\<close>:
  a call made while that is false does not return, which is the outcome \<open>Blocked\<close>.
\<close>

record 'a lock_queue =
  lq_queue :: "'a list"
  lq_capacity :: nat
  lq_dropped :: nat
  lq_stop :: bool

definition LockQueue :: "nat \<Rightarrow> 'a lock_queue" where
  "LockQueue capacity = \<lparr>lq_queue = [], lq_capacity = capacity, lq_dropped = 0, lq_stop = False\<rparr>"

definition Push :: "'a \<Rightarrow> 'a lock_queue \<Rightarrow> 'a lock_queue" where
  "Push msg q = (if lq_stop q then q
     else let q1 = (if lq_capacity q \<noteq> 0 \<and> length (lq_queue q) \<ge> lq_capacity q
                    then q\<lparr>lq_queue := tl (lq_queue q), lq_dropped := Suc (lq_dropped q)\<rparr> else q)
          in q1\<lparr>lq_queue := lq_queue q1 @ [msg]\<rparr>)"

definition Pop :: "'a lock_queue \<Rightarrow> 'a pop_result \<times> 'a lock_queue" where
  "Pop q = (if \<not> (lq_stop q \<or> lq_queue q \<noteq> []) then (Blocked, q)
     else case lq_queue q of
            [] \<Rightarrow> (Closed, q)
          | x # xs \<Rightarrow> (Got x, q\<lparr>lq_queue := xs\<rparr>))"

definition Stop :: "'a lock_queue \<Rightarrow> 'a lock_queue" where
  "Stop q = q\<lparr>lq_stop := True\<rparr>"

text \<open>The loop of \<open>SetCapacity\<close>: pop the oldest until the queue fits.\<close>

fun shrink :: "nat \<Rightarrow> 'a list \<Rightarrow> nat \<Rightarrow> 'a list \<times> nat" where
  "shrink cap [] dropped = ([], dropped)"
| "shrink cap (x # xs) dropped =
     (if cap \<noteq> 0 \<and> length (x # xs) > cap then shrink cap xs (Suc dropped) else (x # xs, dropped))"

definition SetCapacity :: "nat \<Rightarrow> 'a lock_queue \<Rightarrow> 'a lock_queue" where
  "SetCapacity capacity q = (let (xs, d) = shrink capacity (lq_queue q) (lq_dropped q)
     in q\<lparr>lq_capacity := capacity, lq_queue := xs, lq_dropped := d\<rparr>)"

definition DroppedCount :: "'a lock_queue \<Rightarrow> nat" where
  "DroppedCount q = lq_dropped q"

definition lq_bounded :: "'a lock_queue \<Rightarrow> bool" where
  "lq_bounded q \<longleftrightarrow> (lq_capacity q \<noteq> 0 \<longrightarrow> length (lq_queue q) \<le> lq_capacity q)"

subsection \<open>The operations\<close>

lemma shrink_eq:
  "shrink cap xs d = (if cap = 0 then (xs, d)
     else (drop (length xs - cap) xs, d + (length xs - cap)))"
proof (induction xs arbitrary: d)
  case Nil
  then show ?case by simp
next
  case (Cons x xs)
  show ?case
  proof (cases "cap \<noteq> 0 \<and> length (x # xs) > cap")
    case True
    then have "length (x # xs) - cap = Suc (length xs - cap)" by auto
    with True Cons show ?thesis by simp
  next
    case False
    then show ?thesis by auto
  qed
qed

lemma Push_capacity [simp]: "lq_capacity (Push x q) = lq_capacity q"
  and Push_stop [simp]: "lq_stop (Push x q) = lq_stop q"
  by (simp_all add: Push_def Let_def)

lemma Push_bounded [intro]: "lq_bounded q \<Longrightarrow> lq_bounded (Push x q)"
  by (cases "lq_queue q") (auto simp: lq_bounded_def Push_def Let_def)

lemma Pop_bounded [intro]: "lq_bounded q \<Longrightarrow> lq_bounded (snd (Pop q))"
  by (auto simp: lq_bounded_def Pop_def split: list.split)

lemma Stop_bounded [intro]: "lq_bounded q \<Longrightarrow> lq_bounded (Stop q)"
  by (simp add: lq_bounded_def Stop_def)

lemma SetCapacity_bounded [intro, simp]: "lq_bounded (SetCapacity c q)"
  by (auto simp: lq_bounded_def SetCapacity_def shrink_eq)

lemma LockQueue_bounded [intro, simp]: "lq_bounded (LockQueue c)"
  by (simp add: lq_bounded_def LockQueue_def)

subsection \<open>The queue keeps the contract of its interface\<close>

text \<open>What \<open>Push\<close> keeps: all of the old content but its \<open>k\<close> oldest, which are counted.\<close>

lemma Push_content:
  assumes "\<not> lq_stop q"
  shows "\<exists>k \<le> length (lq_queue q). lq_queue (Push x q) = drop k (lq_queue q) @ [x] \<and>
     lq_dropped (Push x q) = lq_dropped q + k"
proof (cases "lq_capacity q \<noteq> 0 \<and> length (lq_queue q) \<ge> lq_capacity q")
  case True
  with assms have "lq_queue q \<noteq> []" by auto
  with assms True show ?thesis
    by (intro exI [of _ 1]) (auto simp: Push_def drop_Suc Suc_le_eq)
next
  case False
  with assms show ?thesis
    by (intro exI [of _ 0]) (auto simp: Push_def)
qed

lemma SetCapacity_content:
  "\<exists>k \<le> length (lq_queue q). lq_queue (SetCapacity c q) = drop k (lq_queue q) \<and>
     lq_dropped (SetCapacity c q) = lq_dropped q + k"
  by (cases "c = 0") (auto simp: SetCapacity_def shrink_eq intro: exI [of _ 0])

lemma Pop_simps:
  "lq_queue q = x # xs \<Longrightarrow> Pop q = (Got x, q\<lparr>lq_queue := xs\<rparr>)"
  "lq_queue q = [] \<Longrightarrow> Pop q = (if lq_stop q then Closed else Blocked, q)"
  by (simp_all add: Pop_def)

interpretation lockq: drop_queue Push Pop Stop SetCapacity lq_queue lq_dropped lq_stop
proof (unfold_locales, goal_cases)
  case (1 q x) then show ?case by (simp add: Push_def)
next
  case (2 q x) then show ?case by (rule Push_content)
next
  case (5 q c) show ?case by (rule SetCapacity_content)
qed (auto simp: Pop_simps Stop_def SetCapacity_def split: prod.split)

text \<open>Pushing \<open>xs\<close> into a fresh queue keeps the last \<open>capacity\<close> of them.\<close>

lemma Push_all:
  assumes "cap \<noteq> 0" "lq_capacity q = cap" "\<not> lq_stop q" "length (lq_queue q) \<le> cap"
  shows "fold Push xs q = q\<lparr>lq_queue := drop (length (lq_queue q @ xs) - cap) (lq_queue q @ xs),
       lq_dropped := lq_dropped q + (length (lq_queue q @ xs) - cap)\<rparr>"
  using assms
proof (induction xs arbitrary: q)
  case Nil
  then show ?case by simp
next
  case (Cons x xs)
  show ?case
  proof (cases "length (lq_queue q) \<ge> cap")
    case True
    with Cons.prems obtain y ys where q: "lq_queue q = y # ys" by (cases "lq_queue q") auto
    from True Cons.prems q have push: "Push x q = q\<lparr>lq_queue := ys @ [x], lq_dropped := Suc (lq_dropped q)\<rparr>"
      by (simp add: Push_def)
    from True Cons.prems q have "length ys = cap - 1" by simp
    with Cons.prems q show ?thesis
      by (subst fold_Cons, simp add: push, subst Cons.IH) (auto simp: Suc_diff_le)
  next
    case False
    with Cons.prems have push: "Push x q = q\<lparr>lq_queue := lq_queue q @ [x]\<rparr>"
      by (simp add: Push_def)
    with False Cons.prems show ?thesis
      by (subst fold_Cons, simp add: push, subst Cons.IH) auto
  qed
qed

subsection \<open>What the logger relies on\<close>

lemma queue_step_bounded:
  "lq_bounded q \<Longrightarrow> lq_bounded (snd (queue_step Push Pop Stop SetCapacity e q))"
  by (cases e) (auto split: prod.split dest: Pop_bounded)

lemma queue_run_bounded:
  "lq_bounded q \<Longrightarrow> lq_bounded (snd (queue_run Push Pop Stop SetCapacity es q))"
proof (induction es arbitrary: q)
  case Nil
  then show ?case by simp
next
  case (Cons e es)
  from Cons.IH [OF queue_step_bounded [OF Cons.prems]] show ?case
    by (simp add: split_beta)
qed

text \<open>C28: the log queue loses nothing silently. Over any interleaving of pushes, pops, capacity
  changes and the stop, what has come out, followed by what is still queued, is the messages
  accepted so far in their order with some left out; exactly as many are left out as
  \<open>DroppedCount\<close> says; and the queue never exceeds its capacity.\<close>

theorem log_queue_accounts_for_everything:
  "let (out, q) = queue_run Push Pop Stop SetCapacity es (LockQueue c); xs = accepted_msgs False es
   in subseq (out @ lq_queue q) xs \<and> length (out @ lq_queue q) + DroppedCount q = length xs \<and> lq_bounded q"
proof -
  obtain out q where run: "queue_run Push Pop Stop SetCapacity es (LockQueue c) = (out, q)" by fastforce
  from lockq.run_conserves [OF run] queue_run_bounded [of "LockQueue c" es]
  show ?thesis by (simp add: run) (simp add: LockQueue_def DroppedCount_def)
qed

text \<open>A full log queue keeps the newest messages. Pushing a list of messages into a fresh queue
  of capacity \<open>c\<close> leaves exactly the last \<open>c\<close> of them, and counts the others as dropped.\<close>

theorem full_queue_keeps_newest:
  assumes "c \<noteq> 0"
  shows "lq_queue (fold Push xs (LockQueue c)) = drop (length xs - c) xs \<and>
    DroppedCount (fold Push xs (LockQueue c)) = length xs - c"
  using Push_all [OF assms, of "LockQueue c" xs] by (simp add: LockQueue_def DroppedCount_def)

theorem full_queue_keeps_newest_witness:
  "lq_queue (fold Push [1, 2, 3 :: nat] (LockQueue 2)) = [2, 3] \<and>
   DroppedCount (fold Push [1, 2, 3 :: nat] (LockQueue 2)) = 1"
  using full_queue_keeps_newest [of 2 "[1, 2, 3 :: nat]"] by simp

end
