(* ===== verification/Logger.thy ===== *)
theory Logger
  imports LockQueue
begin

text \<open>
  \<open>src/server/logger.cpp\<close> and \<open>include/server/logger.h\<close>: producers format a line and push it into
  the bounded queue; one consumer thread pops, picks the log file of the day and writes. The clock,
  the directory and the opening of files belong to the operating system: they are the record
  \<open>os\<close>, a parameter of every operation that calls them, over a state \<open>'d\<close> of their own. What the
  consumer writes is recorded in order in \<open>lg_files\<close> (path and text) and \<open>lg_stderr\<close>.
\<close>

datatype LogLevel = INFO | ERROR

record 'd os =
  os_localtime :: "'d \<Rightarrow> tm option \<times> 'd"
  os_fopen :: "string \<Rightarrow> 'd \<Rightarrow> bool \<times> 'd"
  os_directory :: "string \<Rightarrow> 'd \<Rightarrow> bool \<times> 'd"

record 'd logger =
  lg_logDir :: string
  lg_programName :: string
  lg_instanceTag :: string
  lg_initialized :: bool
  lg_configEpoch :: nat
  lg_lockQueue :: "string lock_queue"
  lg_shutdown :: bool
  \<comment> \<open>the locals of the consumer thread\<close>
  lc_pf :: bool
  lc_currentPath :: string
  lc_logDir :: string
  lc_programName :: string
  lc_instanceTag :: string
  lc_localEpoch :: nat
  lc_reportedDropped :: nat
  \<comment> \<open>what has been written, and the state of the operating system\<close>
  lg_files :: "(string \<times> string) list"
  lg_stderr :: "string list"
  lg_os :: 'd

definition kDefaultLogQueueCapacity :: nat where
  "kDefaultLogQueueCapacity = 10000"

text \<open>\<open>std::strtoul\<close> in base ten: the value, and what follows the number (\<open>None\<close>: no digits).\<close>

definition strtoul :: "string \<Rightarrow> (nat \<times> string) option" where
  "strtoul s = (let (neg, ds, rest) = scan_int s; v = digits_val ds
     in if ds = [] then None
        else Some (if v \<ge> 2 ^ 64 then 2 ^ 64 - 1 else if neg then (2 ^ 64 - v) mod 2 ^ 64 else v, rest))"

definition LoadQueueCapacity :: "string option \<Rightarrow> nat" where
  "LoadQueueCapacity raw = (case raw of
     None \<Rightarrow> kDefaultLogQueueCapacity
   | Some r \<Rightarrow> if r = [] then kDefaultLogQueueCapacity
       else (case strtoul r of
               None \<Rightarrow> kDefaultLogQueueCapacity
             | Some (v, rest) \<Rightarrow> if rest \<noteq> [] then kDefaultLogQueueCapacity else v))"

definition EnsureDirectory :: "'d os \<Rightarrow> string \<Rightarrow> 'd \<Rightarrow> bool \<times> 'd" where
  "EnsureDirectory E path d = (if path = [] then (False, d) else os_directory E path d)"

definition BuildLogPath :: "string \<Rightarrow> string \<Rightarrow> string \<Rightarrow> tm \<Rightarrow> string" where
  "BuildLogPath logDir programName instanceTag timeInfo =
     logDir @ ''/'' @ show_int (tm_year timeInfo + 1900) @ ''-'' @ pad2 (tm_mon timeInfo + 1) @ ''-''
     @ pad2 (tm_mday timeInfo)
     @ (if programName \<noteq> [] then ''-'' @ programName else [])
     @ (if instanceTag \<noteq> [] then ''-'' @ instanceTag else [])
     @ ''.log''"

definition Logger_init :: "string option \<Rightarrow> 'd \<Rightarrow> 'd logger" where
  "Logger_init cap_env d = \<lparr>lg_logDir = ''.'', lg_programName = ''log'', lg_instanceTag = [],
     lg_initialized = False, lg_configEpoch = 1, lg_lockQueue = LockQueue (LoadQueueCapacity cap_env),
     lg_shutdown = False, lc_pf = False, lc_currentPath = [], lc_logDir = [], lc_programName = [],
     lc_instanceTag = [], lc_localEpoch = 0, lc_reportedDropped = 0,
     lg_files = [], lg_stderr = [], lg_os = d\<rparr>"

subsection \<open>The consumer thread\<close>

definition refreshConfig :: "'d logger \<Rightarrow> 'd logger" where
  "refreshConfig lg = (if lg_configEpoch lg \<noteq> lc_localEpoch lg
     then lg\<lparr>lc_logDir := (if lg_initialized lg then lg_logDir lg else ''.''),
             lc_programName := (if lg_initialized lg then lg_programName lg else ''log''),
             lc_instanceTag := (if lg_initialized lg then lg_instanceTag lg else []),
             lc_localEpoch := lg_configEpoch lg\<rparr>
     else lg)"

definition writeLine :: "'d os \<Rightarrow> string \<Rightarrow> 'd logger \<Rightarrow> 'd logger" where
  "writeLine E line lg = (let (now, d) = os_localtime E (lg_os lg); lg = lg\<lparr>lg_os := d\<rparr> in
     (case now of
        None \<Rightarrow> lg\<lparr>lg_stderr := lg_stderr lg @ [line]\<rparr>
      | Some nowtm \<Rightarrow>
          let filePath = BuildLogPath (lc_logDir lg) (lc_programName lg) (lc_instanceTag lg) nowtm in
          if \<not> lc_pf lg \<or> filePath \<noteq> lc_currentPath lg
          then (let (opened, d) = os_fopen E filePath d; lg = lg\<lparr>lg_os := d\<rparr> in
                if \<not> opened
                then lg\<lparr>lc_pf := False,
                       lg_stderr := lg_stderr lg @ [''open log file error: '' @ filePath @ [newline]]\<rparr>
                else lg\<lparr>lc_pf := True, lc_currentPath := filePath,
                       lg_files := lg_files lg @ [(filePath, c_str line)]\<rparr>)
          else lg\<lparr>lg_files := lg_files lg @ [(lc_currentPath lg, c_str line)]\<rparr>))"

definition dropped_note :: "nat \<Rightarrow> string" where
  "dropped_note n = ''[WARN] dropped '' @ show_nat n @ '' log message(s) due to full queue'' @ [newline]"

definition report_dropped :: "'d os \<Rightarrow> 'd logger \<Rightarrow> 'd logger" where
  "report_dropped E lg = (let dropped = DroppedCount (lg_lockQueue lg) in
     if dropped > lc_reportedDropped lg
     then (writeLine E (dropped_note (dropped - lc_reportedDropped lg)) lg)\<lparr>lc_reportedDropped := dropped\<rparr>
     else lg)"

text \<open>One turn of the consumer's \<open>while (_lockQueue.Pop(msg))\<close>.\<close>

definition consume :: "'d os \<Rightarrow> 'd logger \<Rightarrow> string pop_result \<times> 'd logger" where
  "consume E lg = (let (r, q) = Pop (lg_lockQueue lg); lg = lg\<lparr>lg_lockQueue := q\<rparr> in
     (r, case r of Got msg \<Rightarrow> writeLine E msg (report_dropped E (refreshConfig lg)) | _ \<Rightarrow> lg))"

lemma refreshConfig_queue [simp]: "lg_lockQueue (refreshConfig lg) = lg_lockQueue lg"
  by (simp add: refreshConfig_def)

lemma writeLine_queue [simp]: "lg_lockQueue (writeLine E l lg) = lg_lockQueue lg"
  by (simp add: writeLine_def Let_def split: prod.split option.split)

lemma report_dropped_queue [simp]: "lg_lockQueue (report_dropped E lg) = lg_lockQueue lg"
  by (simp add: report_dropped_def Let_def)

lemma consume_queue: "lg_lockQueue (snd (consume E lg)) = snd (Pop (lg_lockQueue lg))"
  by (simp add: consume_def Let_def split: prod.split pop_result.split)

text \<open>The loop from here on, once nobody pushes any more: it ends because each turn pops.\<close>

function consumer_loop :: "'d os \<Rightarrow> 'd logger \<Rightarrow> 'd logger" where
  "consumer_loop E lg = (case consume E lg of
     (Got _, lg') \<Rightarrow> consumer_loop E lg'
   | (_, lg') \<Rightarrow> lg')"
  by pat_completeness auto
termination
proof (relation "measure (\<lambda>(E, lg). length (lq_queue (lg_lockQueue lg)))", goal_cases)
  case 1
  show ?case by simp
next
  case (2 E lg r lg' msg)
  then have "fst (Pop (lg_lockQueue lg)) = Got msg" "lg_lockQueue lg' = snd (Pop (lg_lockQueue lg))"
    using consume_queue [of E lg] by (simp_all add: consume_def Let_def split: prod.splits)
  then show ?case
    by (cases "lq_queue (lg_lockQueue lg)") (auto simp: Pop_simps split: if_splits)
qed

declare consumer_loop.simps [simp del]

subsection \<open>The public interface\<close>

definition IsShutdown :: "'d logger \<Rightarrow> bool" where
  "IsShutdown lg = lg_shutdown lg"

definition Logger_Init :: "'d os \<Rightarrow> string option \<Rightarrow> string \<Rightarrow> string \<Rightarrow> string \<Rightarrow> 'd logger \<Rightarrow> bool \<times> 'd logger" where
  "Logger_Init E cap_env logDir programName instanceTag lg =
     (if IsShutdown lg then (False, lg)
      else let (dir_ok, d) = EnsureDirectory E logDir (lg_os lg); lg = lg\<lparr>lg_os := d\<rparr> in
        if \<not> dir_ok then (False, lg)
        else (True, lg\<lparr>lg_logDir := logDir,
                       lg_programName := (if programName = [] then ''log'' else programName),
                       lg_instanceTag := instanceTag, lg_initialized := True,
                       lg_lockQueue := SetCapacity (LoadQueueCapacity cap_env) (lg_lockQueue lg),
                       lg_configEpoch := Suc (lg_configEpoch lg)\<rparr>))"

definition level_name :: "LogLevel \<Rightarrow> string" where
  "level_name level = (case level of INFO \<Rightarrow> ''INFO'' | ERROR \<Rightarrow> ''ERROR'')"

definition BuildPrefix :: "LogLevel \<Rightarrow> tm option \<Rightarrow> string" where
  "BuildPrefix level now = (case now of
     Some t \<Rightarrow> ''['' @ level_name level @ ''] '' @ pad2 (tm_hour t) @ '':'' @ pad2 (tm_min t) @ '':''
               @ pad2 (tm_sec t) @ '' => ''
   | None \<Rightarrow> ''['' @ level_name level @ ''] => '')"

definition Log :: "'d os \<Rightarrow> string \<Rightarrow> LogLevel \<Rightarrow> 'd logger \<Rightarrow> 'd logger" where
  "Log E msg level lg = (if IsShutdown lg then lg
     else let (now, d) = os_localtime E (lg_os lg) in
       lg\<lparr>lg_os := d, lg_lockQueue := Push (BuildPrefix level now @ msg @ [newline]) (lg_lockQueue lg)\<rparr>)"

text \<open>
  The macros \<open>LOG_INFO\<close> and \<open>LOG_ERROR\<close> format into a buffer of 1024 bytes, so a longer text is
  cut to 1023; \<open>text\<close> stands for the formatted message.
\<close>

definition LOG_macro :: "'d os \<Rightarrow> LogLevel \<Rightarrow> string \<Rightarrow> 'd logger \<Rightarrow> 'd logger" where
  "LOG_macro E level txt lg = Log E (take 1023 (c_str txt)) level lg"

text \<open>\<open>Shutdown\<close> stops the queue and joins the consumer, which runs its loop to the end.\<close>

definition Shutdown :: "'d os \<Rightarrow> 'd logger \<Rightarrow> 'd logger" where
  "Shutdown E lg = (if lg_shutdown lg then lg
     else consumer_loop E (lg\<lparr>lg_shutdown := True, lg_lockQueue := Stop (lg_lockQueue lg)\<rparr>))"

subsection \<open>Shutdown writes everything that was accepted\<close>

text \<open>The operating system at its best: the clock answers and every log file opens.\<close>

definition os_works :: "'d os \<Rightarrow> bool" where
  "os_works E \<longleftrightarrow> (\<forall>d. fst (os_localtime E d) \<noteq> None) \<and> (\<forall>p d. fst (os_fopen E p d))"

definition written :: "'d logger \<Rightarrow> string list" where
  "written lg = map snd (lg_files lg)"

lemma writeLine_written:
  assumes "os_works E"
  shows "written (writeLine E l lg) = written lg @ [c_str l]"
    and "lc_reportedDropped (writeLine E l lg) = lc_reportedDropped lg"
    and "lg_shutdown (writeLine E l lg) = lg_shutdown lg"
proof -
  obtain t d where t: "os_localtime E (lg_os lg) = (Some t, d)"
    using assms by (cases "os_localtime E (lg_os lg)") (auto simp: os_works_def dest: spec [of _ "lg_os lg"])
  have f: "fst (os_fopen E p d)" for p
    using assms by (simp add: os_works_def)
  then show "written (writeLine E l lg) = written lg @ [c_str l]"
    by (auto simp: writeLine_def written_def t Let_def split: prod.split) (metis fst_conv)+
  show "lc_reportedDropped (writeLine E l lg) = lc_reportedDropped lg"
    "lg_shutdown (writeLine E l lg) = lg_shutdown lg"
    by (simp_all add: writeLine_def t Let_def split: prod.split)
qed

lemma c_str_dropped_note [simp]: "c_str (dropped_note n) = dropped_note n"
  by (rule c_str_id) (simp add: dropped_note_def show_nat_chars)

text \<open>The lines one turn writes: the note on messages dropped since the last note, and the message.\<close>

definition pending_note :: "'d logger \<Rightarrow> string list" where
  "pending_note lg = (if lq_dropped (lg_lockQueue lg) > lc_reportedDropped lg
     then [dropped_note (lq_dropped (lg_lockQueue lg) - lc_reportedDropped lg)] else [])"

lemma consume_written:
  assumes "os_works E" "lq_queue (lg_lockQueue lg) = m # ms"
  shows "\<exists>lg'. consume E lg = (Got m, lg') \<and> written lg' = written lg @ pending_note lg @ [c_str m] \<and>
    lg_lockQueue lg' = (lg_lockQueue lg)\<lparr>lq_queue := ms\<rparr> \<and> pending_note lg' = [] \<and>
    lg_shutdown lg' = lg_shutdown lg"
proof -
  note w = writeLine_written [OF assms(1)]
  have r: "written (refreshConfig x) = written x"
    "lc_reportedDropped (refreshConfig x) = lc_reportedDropped x"
    "lg_shutdown (refreshConfig x) = lg_shutdown x" for x :: "'a logger"
    by (simp_all add: refreshConfig_def written_def)
  have u: "written (x\<lparr>lc_reportedDropped := n\<rparr>) = written x"
    "written (x\<lparr>lg_lockQueue := q\<rparr>) = written x" for x :: "'a logger" and n q
    by (simp_all add: written_def)
  show ?thesis
    using assms(2)
    by (auto simp: consume_def Let_def Pop_simps w r u report_dropped_def pending_note_def DroppedCount_def)
qed

lemma consumer_loop_written:
  assumes "os_works E" "lq_stop (lg_lockQueue lg)"
  shows "written (consumer_loop E lg) = written lg @
      (if lq_queue (lg_lockQueue lg) = [] then [] else pending_note lg) @ map c_str (lq_queue (lg_lockQueue lg)) \<and>
    lq_queue (lg_lockQueue (consumer_loop E lg)) = [] \<and>
    lg_shutdown (consumer_loop E lg) = lg_shutdown lg"
  using assms(2)
proof (induction "lq_queue (lg_lockQueue lg)" arbitrary: lg)
  case Nil
  then show ?case
    by (subst (1 2 3) consumer_loop.simps) (auto simp: consume_def Pop_simps written_def)
next
  case (Cons m ms)
  from consume_written [OF assms(1) Cons(2) [symmetric]] obtain lg' where
    c: "consume E lg = (Got m, lg')" "written lg' = written lg @ pending_note lg @ [c_str m]"
      "lg_lockQueue lg' = (lg_lockQueue lg)\<lparr>lq_queue := ms\<rparr>" "pending_note lg' = []"
      "lg_shutdown lg' = lg_shutdown lg"
    by blast
  have "consumer_loop E lg = consumer_loop E lg'"
    by (subst consumer_loop.simps) (simp add: c(1))
  with Cons(1) [of lg'] Cons(2) [symmetric] Cons(3) c show ?case by simp
qed

text \<open>C29: shutdown loses no line. When the clock and the log files work, \<open>Shutdown\<close> returns after
  the consumer has written every line that was still queued, in order, each once, preceded by the
  note on dropped messages if there are unreported ones, and with the queue empty.\<close>

theorem shutdown_writes_everything:
  assumes "os_works E" and "\<not> lg_shutdown lg"
  shows "written (Shutdown E lg) = written lg @
      (if lq_queue (lg_lockQueue lg) = [] then [] else pending_note lg) @ map c_str (lq_queue (lg_lockQueue lg)) \<and>
    lq_queue (lg_lockQueue (Shutdown E lg)) = [] \<and> lg_shutdown (Shutdown E lg)"
  using consumer_loop_written [OF assms(1), of "lg\<lparr>lg_shutdown := True, lg_lockQueue := Stop (lg_lockQueue lg)\<rparr>"] assms(2)
  by (simp add: Shutdown_def Stop_def pending_note_def written_def)

definition test_os :: "nat os" where
  "test_os = \<lparr>os_localtime = (\<lambda>d. (Some \<lparr>tm_year = 126, tm_mon = 0, tm_mday = 9, tm_hour = 8, tm_min = 7, tm_sec = 5\<rparr>, d)),
     os_fopen = (\<lambda>p d. (True, Suc d)), os_directory = (\<lambda>p d. (True, d))\<rparr>"

lemma test_os_works: "os_works test_os"
  by (simp add: os_works_def test_os_def)

theorem shutdown_writes_everything_witness:
  "written (Shutdown test_os (Log test_os ''ready'' INFO (Logger_init None 0))) =
     [''[INFO] 08:07:05 => ready'' @ [newline]]"
proof -
  let ?lg = "Log test_os ''ready'' INFO (Logger_init None 0)"
  have q: "lg_lockQueue ?lg = (LockQueue 10000)\<lparr>lq_queue := [''[INFO] 08:07:05 => ready'' @ [newline]]\<rparr>"
    by (simp add: Log_def IsShutdown_def Logger_init_def LoadQueueCapacity_def kDefaultLogQueueCapacity_def
        test_os_def BuildPrefix_def pad2_def show_int_def show_nat.simps digit_char_def Push_def LockQueue_def
        level_name_def char_of_def bit_0)
  have s: "\<not> lg_shutdown ?lg" "written ?lg = []" "lc_reportedDropped ?lg = 0"
    by (simp_all add: Log_def IsShutdown_def Logger_init_def written_def split: prod.split)
  have c: "c_str (''[INFO] 08:07:05 => ready'' @ [newline]) = ''[INFO] 08:07:05 => ready'' @ [newline]"
    by (rule c_str_id) simp
  show ?thesis
    using shutdown_writes_everything [OF test_os_works s(1)] s(2,3) c
    by (simp add: q pending_note_def LockQueue_def)
qed

end
