(* ===== verification/PoolConfig.thy ===== *)
theory PoolConfig
  imports Prelude
begin

text \<open>
  \<open>src/common/db/ConnectionPoolConfig.cpp\<close>: the configuration of the connection pool, read from a
  file of \<open>key=value\<close> lines or, without one, from the environment. The file is its content
  (\<open>None\<close>: it cannot be opened), the environment a function from names to values. A refused
  configuration is the result \<open>False\<close>, with the fields assigned so far, as in the code; the messages
  on \<open>std::cerr\<close> are left out.
\<close>

record db_config =
  db_ip :: string
  db_port :: "16 word"
  db_username :: string
  db_password :: string
  db_dbname :: string

record pool_config =
  initSize :: int
  maxSize :: int
  connectionTimeout :: int

record connection_pool_config =
  dbConfig :: db_config
  poolConfig :: pool_config
  hasIp :: bool
  hasPort :: bool
  hasUsername :: bool
  hasPassword :: bool
  hasDbName :: bool
  hasInitSize :: bool
  hasMaxSize :: bool
  hasConnectionTimeout :: bool

text \<open>\<open>port\<close> has no initialiser in the struct: the value it starts with is an argument.\<close>

definition config_init :: "16 word \<Rightarrow> connection_pool_config" where
  "config_init indeterminate = \<lparr>
     dbConfig = \<lparr>db_ip = [], db_port = indeterminate, db_username = [], db_password = [], db_dbname = []\<rparr>,
     poolConfig = \<lparr>initSize = 0, maxSize = 0, connectionTimeout = 0\<rparr>,
     hasIp = False, hasPort = False, hasUsername = False, hasPassword = False, hasDbName = False,
     hasInitSize = False, hasMaxSize = False, hasConnectionTimeout = False\<rparr>"

definition blank :: "char \<Rightarrow> bool" where
  "blank c \<longleftrightarrow> c \<in> {CHR '' '', CHR 0x09, CHR 0x0D, CHR 0x0A}"

text \<open>
  \<open>find_first_not_of\<close> and \<open>find_last_not_of\<close> with the four blanks: positions of the first and the
  last character that is not blank.
\<close>

definition find_first_not_blank :: "string \<Rightarrow> nat option" where
  "find_first_not_blank s =
     (if \<forall>c \<in> set s. blank c then None else Some (length (takeWhile blank s)))"

definition find_last_not_blank :: "string \<Rightarrow> nat option" where
  "find_last_not_blank s =
     (if \<forall>c \<in> set s. blank c then None else Some (length s - 1 - length (takeWhile blank (rev s))))"

definition trim :: "string \<Rightarrow> string" where
  "trim text = (case find_first_not_blank text of
     None \<Rightarrow> []
   | Some b \<Rightarrow> (case find_last_not_blank text of
       None \<Rightarrow> []
     | Some e \<Rightarrow> take (e - b + 1) (drop b text)))"

definition parseInt :: "string \<Rightarrow> int option" where
  "parseInt text = (case stoi text of
     None \<Rightarrow> None
   | Some (number, pos) \<Rightarrow> if pos \<noteq> length text then None else Some number)"

definition assignConfigItem :: "string \<Rightarrow> string \<Rightarrow> connection_pool_config \<Rightarrow> bool \<times> connection_pool_config" where
  "assignConfigItem key value c =
     (if key = ''ip'' then (True, c\<lparr>dbConfig := (dbConfig c)\<lparr>db_ip := value\<rparr>, hasIp := True\<rparr>)
      else if key = ''port'' then
        (case parseInt value of
           None \<Rightarrow> (False, c)
         | Some port \<Rightarrow> if port \<le> 0 \<or> port > 65535 then (False, c)
             else (True, c\<lparr>dbConfig := (dbConfig c)\<lparr>db_port := word_of_int port\<rparr>, hasPort := True\<rparr>))
      else if key = ''username'' then
        (True, c\<lparr>dbConfig := (dbConfig c)\<lparr>db_username := value\<rparr>, hasUsername := True\<rparr>)
      else if key = ''password'' then
        (True, c\<lparr>dbConfig := (dbConfig c)\<lparr>db_password := value\<rparr>, hasPassword := True\<rparr>)
      else if key = ''dbname'' then
        (True, c\<lparr>dbConfig := (dbConfig c)\<lparr>db_dbname := value\<rparr>, hasDbName := True\<rparr>)
      else if key = ''initSize'' then
        (case parseInt value of
           None \<Rightarrow> (False, c)
         | Some n \<Rightarrow> if n \<le> 0 then (False, c)
             else (True, c\<lparr>poolConfig := (poolConfig c)\<lparr>initSize := n\<rparr>, hasInitSize := True\<rparr>))
      else if key = ''maxSize'' then
        (case parseInt value of
           None \<Rightarrow> (False, c)
         | Some n \<Rightarrow> if n \<le> 0 then (False, c)
             else (True, c\<lparr>poolConfig := (poolConfig c)\<lparr>maxSize := n\<rparr>, hasMaxSize := True\<rparr>))
      else if key = ''connectionTimeout'' then
        (case parseInt value of
           None \<Rightarrow> (False, c)
         | Some n \<Rightarrow> if n \<le> 0 then (False, c)
             else (True, c\<lparr>poolConfig := (poolConfig c)\<lparr>connectionTimeout := n\<rparr>, hasConnectionTimeout := True\<rparr>))
      else (False, c))"

definition validate :: "connection_pool_config \<Rightarrow> bool" where
  "validate c =
     (if \<not> hasIp c \<or> db_ip (dbConfig c) = [] then False
      else if \<not> hasPort c then False
      else if \<not> hasUsername c \<or> db_username (dbConfig c) = [] then False
      else if \<not> hasPassword c then False
      else if \<not> hasDbName c \<or> db_dbname (dbConfig c) = [] then False
      else if \<not> hasInitSize c \<or> initSize (poolConfig c) \<le> 0 then False
      else if \<not> hasMaxSize c \<or> maxSize (poolConfig c) < initSize (poolConfig c) then False
      else if \<not> hasConnectionTimeout c \<or> connectionTimeout (poolConfig c) \<le> 0 then False
      else True)"

definition getEnvOrDefault :: "(string \<Rightarrow> string option) \<Rightarrow> string \<Rightarrow> string \<Rightarrow> string" where
  "getEnvOrDefault env name defaultValue = (case env name of
     None \<Rightarrow> defaultValue
   | Some value \<Rightarrow> if value = [] then defaultValue else value)"

definition env_port :: "(string \<Rightarrow> string option) \<Rightarrow> int option" where
  "env_port env = parseInt (getEnvOrDefault env ''MYSQL_PORT'' ''3306'')"

definition loadFromEnvironment :: "(string \<Rightarrow> string option) \<Rightarrow> connection_pool_config \<Rightarrow> connection_pool_config" where
  "loadFromEnvironment env c = (let
     c1 = c\<lparr>dbConfig := (dbConfig c)\<lparr>
               db_ip := getEnvOrDefault env ''MYSQL_HOST'' ''127.0.0.1'',
               db_username := getEnvOrDefault env ''MYSQL_USER'' ''chatserver_app'',
               db_password := getEnvOrDefault env ''MYSQL_PASSWORD'' ''chatserver_dev_password'',
               db_dbname := getEnvOrDefault env ''MYSQL_DATABASE'' ''chatserver''\<rparr>,
            hasIp := True, hasUsername := True, hasPassword := True, hasDbName := True\<rparr>;
     c2 = (case env_port env of
             None \<Rightarrow> c1
           | Some port \<Rightarrow> if port > 0 \<and> port \<le> 65535
               then c1\<lparr>dbConfig := (dbConfig c1)\<lparr>db_port := word_of_int port\<rparr>, hasPort := True\<rparr>
               else c1)
     in c2\<lparr>poolConfig := \<lparr>initSize = 10, maxSize = 1024, connectionTimeout = 1000\<rparr>,
           hasInitSize := True, hasMaxSize := True, hasConnectionTimeout := True\<rparr>)"

text \<open>The lines \<open>std::getline\<close> delivers.\<close>

fun getlines :: "string \<Rightarrow> string list" where
  "getlines [] = []"
| "getlines (c # s) = (if c = newline then [] # getlines s
     else (case getlines s of [] \<Rightarrow> [[c]] | l # ls \<Rightarrow> (c # l) # ls))"

text \<open>One turn of the loop over the lines: \<open>False\<close> is the early \<open>return false\<close>.\<close>

definition load_line :: "string \<Rightarrow> connection_pool_config \<Rightarrow> bool \<times> connection_pool_config" where
  "load_line line c = (let trimmedLine = trim line in
     if trimmedLine = [] \<or> hd trimmedLine = CHR ''#'' then (True, c)
     else (case find_char (CHR ''='') trimmedLine of
             None \<Rightarrow> (False, c)
           | Some pos \<Rightarrow>
               let key = trim (take pos trimmedLine); value = trim (drop (pos + 1) trimmedLine) in
               if key = [] then (False, c) else assignConfigItem key value c))"

fun load_lines :: "string list \<Rightarrow> connection_pool_config \<Rightarrow> bool \<times> connection_pool_config" where
  "load_lines [] c = (validate c, c)"
| "load_lines (line # ls) c = (case load_line line c of
     (True, c') \<Rightarrow> load_lines ls c'
   | (False, c') \<Rightarrow> (False, c'))"

definition loadConfig :: "string option \<Rightarrow> (string \<Rightarrow> string option) \<Rightarrow> connection_pool_config \<Rightarrow>
    bool \<times> connection_pool_config" where
  "loadConfig file env c = (case file of
     None \<Rightarrow> let c' = loadFromEnvironment env c in (validate c', c')
   | Some content \<Rightarrow> load_lines (getlines content) c)"

subsection \<open>Trimming\<close>

lemma trim_eq: "trim s = rev (dropWhile blank (rev (dropWhile blank s)))"
proof (cases "\<forall>c \<in> set s. blank c")
  case True
  then show ?thesis
    by (simp add: trim_def find_first_not_blank_def dropWhile_eq_Nil_conv [THEN iffD2])
next
  case False
  define b where "b = length (takeWhile blank s)"
  define w where "w = dropWhile blank s"
  define k where "k = length (takeWhile blank (rev w))"
  have w: "w = drop b s" by (simp add: w_def b_def dropWhile_eq_drop)
  have ne: "w \<noteq> []" using False by (simp add: w_def dropWhile_eq_Nil_conv)
  then have hw: "\<not> blank (hd w)" using hd_dropWhile [of blank s] by (simp add: w_def)
  have s: "rev s = rev w @ rev (takeWhile blank s)"
    unfolding w_def by (metis rev_append takeWhile_dropWhile_id)
  have x: "hd w \<in> set (rev w)" using ne by simp
  have kk: "length (takeWhile blank (rev s)) = k"
    using takeWhile_append1 [of "hd w" "rev w" blank "rev (takeWhile blank s)"] x hw by (simp add: s k_def)
  have "takeWhile blank (rev w) \<noteq> rev w"
    using x hw by (metis takeWhile_eq_all_conv)
  then have "k < length w"
    unfolding k_def using length_takeWhile_le [of blank "rev w"]
    by (metis length_rev nat_less_le takeWhile_eq_take take_all_iff le_refl)
  moreover have "length w = length s - b" by (simp add: w)
  ultimately have "length s - 1 - k - b + 1 = length w - k" by simp
  then have "trim s = take (length w - k) w"
    using False by (auto simp: trim_def find_first_not_blank_def find_last_not_blank_def kk w simp flip: b_def)
  also have "\<dots> = rev (drop k (rev w))" by (simp only: rev_drop rev_rev_ident length_rev)
  also have "drop k (rev w) = dropWhile blank (rev w)" by (simp add: k_def dropWhile_eq_drop)
  finally show ?thesis by (simp only: w_def)
qed

definition trimmed :: "string \<Rightarrow> bool" where
  "trimmed s \<longleftrightarrow> s = [] \<or> \<not> blank (hd s) \<and> \<not> blank (last s)"

lemma trim_trimmed [simp]: "trimmed s \<Longrightarrow> trim s = s"
proof (cases "s = []")
  case True
  then show ?thesis by (simp add: trim_eq)
next
  case False
  assume "trimmed s"
  with False have "\<not> blank (hd s)" "\<not> blank (hd (rev s))" by (auto simp: trimmed_def hd_rev)
  then have "dropWhile blank s = s" "dropWhile blank (rev s) = rev s"
    by (simp_all add: dropWhile_eq_self_iff)
  then show ?thesis by (simp add: trim_eq)
qed

lemma trimmed_trim [simp]: "trimmed (trim s)"
proof -
  define t where "t = dropWhile blank s"
  have head: "t \<noteq> [] \<Longrightarrow> \<not> blank (hd t)"
    using hd_dropWhile [of blank s] by (simp add: t_def)
  define u where "u = dropWhile blank (rev t)"
  have u: "u \<noteq> [] \<Longrightarrow> \<not> blank (hd u)"
    using hd_dropWhile [of blank "rev t"] by (simp add: u_def)
  show ?thesis
  proof (cases "u = []")
    case True
    then show ?thesis by (simp add: trimmed_def trim_eq t_def [symmetric] u_def [symmetric])
  next
    case False
    obtain w where "rev t = w @ u"
      unfolding u_def by (metis takeWhile_dropWhile_id)
    then have "t = rev u @ rev w" by (metis rev_append rev_rev_ident)
    then have "t \<noteq> []" "hd t = hd (rev u)" using False by (simp_all add: hd_append)
    with head have "\<not> blank (hd (rev u))" by simp
    with u [OF False] False show ?thesis
      by (simp add: trimmed_def trim_eq t_def [symmetric] u_def [symmetric] last_rev)
  qed
qed

subsection \<open>What a loaded configuration satisfies\<close>

text \<open>What the flags promise about the fields they belong to, kept by every assignment.\<close>

definition config_inv :: "connection_pool_config \<Rightarrow> bool" where
  "config_inv c \<longleftrightarrow> (hasPort c \<longrightarrow> 0 < uint (db_port (dbConfig c))) \<and>
     int32_range (initSize (poolConfig c)) \<and> int32_range (maxSize (poolConfig c)) \<and>
     int32_range (connectionTimeout (poolConfig c))"

text \<open>What the pool relies on.\<close>

definition config_usable :: "connection_pool_config \<Rightarrow> bool" where
  "config_usable c \<longleftrightarrow> db_ip (dbConfig c) \<noteq> [] \<and> 0 < uint (db_port (dbConfig c)) \<and>
     db_username (dbConfig c) \<noteq> [] \<and> db_dbname (dbConfig c) \<noteq> [] \<and>
     0 < initSize (poolConfig c) \<and> initSize (poolConfig c) \<le> maxSize (poolConfig c) \<and>
     0 < connectionTimeout (poolConfig c) \<and> int32_range (maxSize (poolConfig c)) \<and>
     int32_range (connectionTimeout (poolConfig c))"

lemma parseInt_range: "parseInt s = Some n \<Longrightarrow> int32_range n"
  by (auto simp: parseInt_def dest: stoi_range split: option.splits prod.splits if_splits)

lemma parseInt_show_int [simp]: "int32_range n \<Longrightarrow> parseInt (show_int n) = Some n"
  by (simp add: parseInt_def)

lemma port_positive: "0 < n \<Longrightarrow> n \<le> 65535 \<Longrightarrow> 0 < uint (word_of_int n :: 16 word)"
  by (simp add: uint_word_of_int)

lemma config_init_inv: "config_inv (config_init x)"
  by (simp add: config_inv_def config_init_def int32_range_def)

lemma assign_inv: "config_inv c \<Longrightarrow> config_inv (snd (assignConfigItem k v c))"
  by (auto simp: assignConfigItem_def config_inv_def port_positive parseInt_range split: option.split)

lemma load_line_inv: "config_inv c \<Longrightarrow> config_inv (snd (load_line l c))"
  by (auto simp: load_line_def Let_def assign_inv split: option.split)

lemma load_lines_inv:
  "config_inv c \<Longrightarrow> config_inv (snd (load_lines ls c)) \<and> (fst (load_lines ls c) \<longrightarrow> validate (snd (load_lines ls c)))"
proof (induction ls arbitrary: c)
  case Nil
  then show ?case by simp
next
  case (Cons l ls)
  obtain b c' where l: "load_line l c = (b, c')" by (cases "load_line l c")
  with load_line_inv [OF Cons.prems, of l] have "config_inv c'" by simp
  with l Cons.IH [of c'] show ?case by (cases b) auto
qed

lemma env_inv: "config_inv c \<Longrightarrow> config_inv (loadFromEnvironment env c)"
  by (auto simp: loadFromEnvironment_def Let_def config_inv_def port_positive int32_range_def split: option.split)

lemma validate_usable: "validate c \<Longrightarrow> config_inv c \<Longrightarrow> config_usable c"
  by (auto simp: validate_def config_inv_def config_usable_def split: if_splits)

lemma loadConfig_usable:
  assumes "loadConfig conf env (config_init x) = (True, c)"
  shows "config_usable c"
proof (cases conf)
  case None
  with assms have "validate c" "c = loadFromEnvironment env (config_init x)"
    by (auto simp: loadConfig_def Let_def)
  with env_inv [OF config_init_inv] show ?thesis by (simp add: validate_usable)
next
  case (Some content)
  with assms have "load_lines (getlines content) (config_init x) = (True, c)"
    by (simp add: loadConfig_def)
  with load_lines_inv [OF config_init_inv, of "getlines content" x] show ?thesis
    by (auto intro: validate_usable)
qed

text \<open>
  C33: A configuration that \<open>loadConfig\<close> accepts, from a file or from the environment, is one the
  pool can run with: host, user and database are set, the port is between 1 and 65535, and
  \<open>0 < initSize <= maxSize\<close>, \<open>0 < connectionTimeout\<close>, all within \<open>int\<close>.
\<close>

theorem loaded_config_usable:
  assumes "loadConfig conf env (config_init x) = (True, c)"
  shows "config_usable c"
  using assms by (rule loadConfig_usable)

theorem loaded_config_usable_witness:
  "config_usable (loadFromEnvironment (\<lambda>_. None) (config_init 0))"
proof -
  have "stoi ''3306'' = Some (3306, 4)"
    by (simp add: stoi_def scan_int_def scan_sign_def is_space_def is_digit_def signed_val_def
        digits_val_def digit_val_def int32_range_def)
  then have "loadConfig None (\<lambda>_. None) (config_init 0) =
      (True, loadFromEnvironment (\<lambda>_. None) (config_init 0))"
    by (simp add: loadConfig_def Let_def loadFromEnvironment_def env_port_def parseInt_def
        getEnvOrDefault_def config_init_def validate_def)
  then show ?thesis by (rule loaded_config_usable)
qed

subsection \<open>Writing a configuration and reading it back\<close>

definition config_line :: "string \<Rightarrow> string \<Rightarrow> string" where
  "config_line key value = key @ ''='' @ value @ [newline]"

definition config_text :: "connection_pool_config \<Rightarrow> string" where
  "config_text c = config_line ''ip'' (db_ip (dbConfig c))
     @ config_line ''port'' (show_int (uint (db_port (dbConfig c))))
     @ config_line ''username'' (db_username (dbConfig c))
     @ config_line ''password'' (db_password (dbConfig c))
     @ config_line ''dbname'' (db_dbname (dbConfig c))
     @ config_line ''initSize'' (show_int (initSize (poolConfig c)))
     @ config_line ''maxSize'' (show_int (maxSize (poolConfig c)))
     @ config_line ''connectionTimeout'' (show_int (connectionTimeout (poolConfig c)))"

definition all_flags :: "connection_pool_config \<Rightarrow> bool" where
  "all_flags c \<longleftrightarrow> hasIp c \<and> hasPort c \<and> hasUsername c \<and> hasPassword c \<and> hasDbName c \<and>
     hasInitSize c \<and> hasMaxSize c \<and> hasConnectionTimeout c"

text \<open>A value that survives a line of the file: no line break, no blank at either end.\<close>

definition line_value :: "string \<Rightarrow> bool" where
  "line_value v \<longleftrightarrow> newline \<notin> set v \<and> trimmed v"

lemma getlines_line: "newline \<notin> set l \<Longrightarrow> getlines (l @ newline # s) = l # getlines s"
  by (induction l) auto

lemma trimmed_line:
  assumes "key \<noteq> []" "\<not> blank (hd key)" "trimmed v"
  shows "trimmed (key @ CHR ''='' # v)"
  using assms by (cases v rule: rev_cases) (auto simp: trimmed_def blank_def)

lemma load_config_line:
  assumes "key \<noteq> []" "trimmed key" "CHR ''='' \<notin> set key" "hd key \<noteq> CHR ''#''" "line_value v"
  shows "load_line (key @ CHR ''='' # v) c = assignConfigItem key v c"
proof -
  have "\<not> blank (hd key)" using assms(1,2) by (simp add: trimmed_def)
  then have "trimmed (key @ CHR ''='' # v)"
    using assms by (intro trimmed_line) (simp_all add: line_value_def)
  with assms show ?thesis by (simp add: load_line_def line_value_def)
qed

lemma load_lines_config_line:
  assumes "key \<noteq> []" "trimmed key" "CHR ''='' \<notin> set key" "hd key \<noteq> CHR ''#''" "newline \<notin> set key"
    and "line_value v" and "assignConfigItem key v c = (True, c')"
  shows "load_lines (getlines (config_line key v @ rest)) c = load_lines (getlines rest) c'"
proof -
  have "getlines (config_line key v @ rest) = (key @ CHR ''='' # v) # getlines rest"
    using getlines_line [of "key @ CHR ''='' # v" rest] assms(5,6)
    by (simp add: config_line_def line_value_def)
  with assms show ?thesis by (simp add: load_config_line)
qed

lemma show_int_line_value [simp]: "line_value (show_int i)"
proof -
  have "\<not> blank c" if "c \<in> set (show_int i)" for c
    using that show_int_chars [of c i] by (auto simp: blank_def is_digit_def)
  then show ?thesis
    by (auto simp: line_value_def trimmed_def show_int_chars)
qed

lemma key_facts:
  assumes "key \<in> {''ip'', ''port'', ''username'', ''password'', ''dbname'', ''initSize'', ''maxSize'', ''connectionTimeout''}"
  shows "key \<noteq> []" "trimmed key" "CHR ''='' \<notin> set key" "hd key \<noteq> CHR ''#''" "newline \<notin> set key"
  using assms by (auto simp: trimmed_def blank_def)

text \<open>
  C30: Round trip: a usable configuration written as \<open>key=value\<close> lines is read back as it is,
  whatever the environment says, provided its strings have no line break and no blank at an end.
\<close>

theorem config_roundtrip:
  assumes "config_usable c" "all_flags c"
    and "line_value (db_ip (dbConfig c))" "line_value (db_username (dbConfig c))"
    and "line_value (db_password (dbConfig c))" "line_value (db_dbname (dbConfig c))"
  shows "loadConfig (Some (config_text c)) env (config_init x) = (True, c)"
proof -
  note line = load_lines_config_line [OF key_facts]
  have port: "0 < uint (db_port (dbConfig c))" "uint (db_port (dbConfig c)) \<le> 65535"
    using assms(1) uint_bounded [of "db_port (dbConfig c)"] by (simp_all add: config_usable_def)
  then have "int32_range (uint (db_port (dbConfig c)))" by (simp add: int32_range_def)
  moreover have "int32_range (initSize (poolConfig c))" "int32_range (maxSize (poolConfig c))"
    "int32_range (connectionTimeout (poolConfig c))"
    using assms(1) by (auto simp: config_usable_def int32_range_def)
  ultimately show ?thesis
    using assms port
    by (simp add: loadConfig_def config_text_def line line [where rest = "[]", simplified]
        assignConfigItem_def config_init_def all_flags_def config_usable_def
        validate_def)
qed

theorem config_roundtrip_witness:
  "loadConfig (Some (config_text (loadFromEnvironment (\<lambda>_. None) (config_init 3306)\<lparr>hasPort := True\<rparr>))) Map.empty (config_init 0)
     = (True, loadFromEnvironment (\<lambda>_. None) (config_init 3306)\<lparr>hasPort := True\<rparr>)"
proof (rule config_roundtrip)
  let ?c = "loadFromEnvironment (\<lambda>_. None) (config_init 3306)\<lparr>hasPort := True\<rparr>"
  have "stoi ''3306'' = Some (3306, 4)"
    by (simp add: stoi_def scan_int_def scan_sign_def is_space_def is_digit_def signed_val_def
        digits_val_def digit_val_def int32_range_def)
  then have c: "dbConfig ?c = \<lparr>db_ip = ''127.0.0.1'', db_port = 3306, db_username = ''chatserver_app'',
       db_password = ''chatserver_dev_password'', db_dbname = ''chatserver''\<rparr>"
    "poolConfig ?c = \<lparr>initSize = 10, maxSize = 1024, connectionTimeout = 1000\<rparr>" "all_flags ?c"
    by (simp_all add: loadFromEnvironment_def Let_def env_port_def parseInt_def getEnvOrDefault_def
        config_init_def all_flags_def)
  show "config_usable ?c" "all_flags ?c"
    by (simp_all add: config_usable_def c int32_range_def)
  show "line_value (db_ip (dbConfig ?c))" "line_value (db_username (dbConfig ?c))"
    "line_value (db_password (dbConfig ?c))" "line_value (db_dbname (dbConfig ?c))"
    by (simp_all add: c line_value_def trimmed_def blank_def)
qed

end
