(* ===== verification/ConnPool.thy ===== *)
theory ConnPool
  imports PoolConfig
begin

text \<open>
  \<open>src/common/db/ConnectionPool.cpp\<close>: the pool of database connections. A connection is a value of
  type \<open>'m\<close> (the pointer \<open>MySQL *\<close>). What a thread does in one critical section of \<open>_queueMutex\<close> is
  one function on the state; \<open>cp_step\<close> interleaves the borrowers, the thread that produces
  connections and the destructor. The producer's program counter distinguishes the moment between
  its test of \<open>_isRunning\<close> and its entry into \<open>_cvProducer.wait\<close>, at which it holds the mutex,
  because the destructor changes \<open>_isRunning\<close> and notifies without that mutex.
\<close>

datatype 'm producer_pc = P_Top | P_Check | P_AboutToWait | P_Waiting | P_Create | P_Have 'm | P_Exit

datatype destructor_pc = D_NotCalled | D_Flagged | D_Joining | D_Draining | D_Done

record 'm connection_pool =
  cp_connectionQueue :: "'m list"
  cp_borrowedCnt :: int
  cp_connectionCnt :: int
  cp_isRunning :: bool
  cp_poolConfig :: pool_config
  \<comment> \<open>program counters, and the handles that are lent out\<close>
  cp_producer :: "'m producer_pc"
  cp_destructor :: destructor_pc
  cp_lent :: "'m list"

text \<open>\<open>createConnection\<close>: the new handle if \<open>connect\<close> succeeds on it, otherwise \<open>nullptr\<close>.\<close>

definition createConnection :: "(db_config \<Rightarrow> 'm \<Rightarrow> bool) \<Rightarrow> db_config \<Rightarrow> 'm \<Rightarrow> 'm option" where
  "createConnection connect cfg conn = (if connect cfg conn then Some conn else None)"

text \<open>
  The constructor's loop over \<open>initSize\<close>; \<open>fresh i\<close> is the handle the \<open>i\<close>-th \<open>new MySQL()\<close> returns.
  \<open>None\<close> is \<open>std::exit(EXIT_FAILURE)\<close>.
\<close>

fun init_connections :: "(db_config \<Rightarrow> 'm \<Rightarrow> bool) \<Rightarrow> db_config \<Rightarrow> (nat \<Rightarrow> 'm) \<Rightarrow> nat \<Rightarrow> nat \<Rightarrow> 'm list option" where
  "init_connections connect cfg fresh i 0 = Some []"
| "init_connections connect cfg fresh i (Suc n) = (case createConnection connect cfg (fresh i) of
     None \<Rightarrow> None
   | Some conn \<Rightarrow> map_option ((#) conn) (init_connections connect cfg fresh (Suc i) n))"

definition ConnectionPool_new :: "(db_config \<Rightarrow> 'm \<Rightarrow> bool) \<Rightarrow> (nat \<Rightarrow> 'm) \<Rightarrow> bool \<times> connection_pool_config \<Rightarrow>
    'm connection_pool option" where
  "ConnectionPool_new connect fresh loaded = (case loaded of
     (False, _) \<Rightarrow> None
   | (True, cfg) \<Rightarrow> (case init_connections connect (dbConfig cfg) fresh 0 (nat (initSize (poolConfig cfg))) of
        None \<Rightarrow> None
      | Some conns \<Rightarrow> Some \<lparr>cp_connectionQueue = conns, cp_borrowedCnt = 0,
           cp_connectionCnt = int (length conns), cp_isRunning = True, cp_poolConfig = poolConfig cfg,
           cp_producer = P_Top, cp_destructor = D_NotCalled, cp_lent = []\<rparr>))"

text \<open>\<open>_cvProducer.notify_one\<close>: a waiting producer goes back to its test.\<close>

definition notify_producer :: "'m connection_pool \<Rightarrow> 'm connection_pool" where
  "notify_producer p = (if cp_producer p = P_Waiting then p\<lparr>cp_producer := P_Check\<rparr> else p)"

text \<open>
  \<open>getConnection\<close>, when its wait returns: either the predicate holds, or the time is up
  (\<open>timed_out\<close>) and it does not. \<open>None\<close>: the call is still waiting.
\<close>

definition getConnection :: "bool \<Rightarrow> 'm connection_pool \<Rightarrow> ('m option \<times> 'm connection_pool) option" where
  "getConnection timed_out p =
     (if \<not> (cp_connectionQueue p \<noteq> [] \<or> \<not> cp_isRunning p)
      then (if timed_out then Some (None, p) else None)
      else if \<not> cp_isRunning p then Some (None, p)
      else let conn = hd (cp_connectionQueue p);
               p1 = p\<lparr>cp_connectionQueue := tl (cp_connectionQueue p),
                      cp_borrowedCnt := cp_borrowedCnt p + 1, cp_lent := conn # cp_lent p\<rparr>;
               p2 = (if int (length (cp_connectionQueue p1)) < initSize (cp_poolConfig p1)
                     then notify_producer p1 else p1)
           in Some (Some conn, p2))"

text \<open>The deleter of the \<open>shared_ptr\<close>: the borrower is done with \<open>conn\<close>.\<close>

definition returnConnection :: "'m \<Rightarrow> 'm connection_pool \<Rightarrow> 'm connection_pool" where
  "returnConnection conn p =
     (let p1 = (if cp_isRunning p then p\<lparr>cp_connectionQueue := cp_connectionQueue p @ [conn]\<rparr> else p)
      in p1\<lparr>cp_borrowedCnt := cp_borrowedCnt p1 - 1, cp_lent := remove1 conn (cp_lent p1)\<rparr>)"

definition pool_full :: "'m connection_pool \<Rightarrow> bool" where
  "pool_full p \<longleftrightarrow> int (length (cp_connectionQueue p)) \<ge> initSize (cp_poolConfig p) \<or>
     cp_connectionCnt p \<ge> maxSize (cp_poolConfig p)"

text \<open>The producer with the mutex held: its inner \<open>while\<close> and the test after it.\<close>

definition producer_check :: "'m connection_pool \<Rightarrow> 'm connection_pool" where
  "producer_check p =
     (if pool_full p \<and> cp_isRunning p then p\<lparr>cp_producer := P_AboutToWait\<rparr>
      else if \<not> cp_isRunning p then p\<lparr>cp_producer := P_Exit\<rparr>
      else p\<lparr>cp_producer := P_Create\<rparr>)"

text \<open>The producer's second critical section, with the connection it has made.\<close>

definition producer_push :: "'m \<Rightarrow> 'm connection_pool \<Rightarrow> 'm connection_pool" where
  "producer_push conn p =
     (if \<not> cp_isRunning p then p\<lparr>cp_producer := P_Exit\<rparr>
      else if pool_full p then p\<lparr>cp_producer := P_Top\<rparr>
      else p\<lparr>cp_connectionQueue := cp_connectionQueue p @ [conn],
             cp_connectionCnt := cp_connectionCnt p + 1, cp_producer := P_Top\<rparr>)"

subsection \<open>Interleavings\<close>

definition mutex_free :: "'m connection_pool \<Rightarrow> bool" where
  "mutex_free p \<longleftrightarrow> cp_producer p \<noteq> P_AboutToWait"

inductive cp_step :: "'m connection_pool \<Rightarrow> 'm connection_pool \<Rightarrow> bool" where
  borrow: "mutex_free p \<Longrightarrow> getConnection t p = Some (r, p') \<Longrightarrow> cp_step p p'"
| give_back: "mutex_free p \<Longrightarrow> conn \<in> set (cp_lent p) \<Longrightarrow> cp_step p (returnConnection conn p)"
| produce_top: "cp_producer p = P_Top \<Longrightarrow>
    cp_step p (p\<lparr>cp_producer := (if cp_isRunning p then P_Check else P_Exit)\<rparr>)"
| produce_check: "cp_producer p = P_Check \<Longrightarrow> cp_step p (producer_check p)"
| produce_wait: "cp_producer p = P_AboutToWait \<Longrightarrow> cp_step p (p\<lparr>cp_producer := P_Waiting\<rparr>)"
| produce_create: "cp_producer p = P_Create \<Longrightarrow>
    conn \<notin> set (cp_connectionQueue p) \<union> set (cp_lent p) \<Longrightarrow> createConnection ok cfg conn = r \<Longrightarrow>
    cp_step p (p\<lparr>cp_producer := (case r of None \<Rightarrow> P_Top | Some c \<Rightarrow> P_Have c)\<rparr>)"
| produce_push: "cp_producer p = P_Have conn \<Longrightarrow> cp_step p (producer_push conn p)"
| destroy_flag: "cp_destructor p = D_NotCalled \<Longrightarrow>
    cp_step p (p\<lparr>cp_isRunning := False, cp_destructor := D_Flagged\<rparr>)"
| destroy_notify: "cp_destructor p = D_Flagged \<Longrightarrow>
    cp_step p ((notify_producer p)\<lparr>cp_destructor := D_Joining\<rparr>)"
| destroy_join: "cp_destructor p = D_Joining \<Longrightarrow> cp_producer p = P_Exit \<Longrightarrow>
    cp_step p (p\<lparr>cp_destructor := D_Draining\<rparr>)"
| destroy_drain: "cp_destructor p = D_Draining \<Longrightarrow> mutex_free p \<Longrightarrow> cp_borrowedCnt p = 0 \<Longrightarrow>
    cp_step p (p\<lparr>cp_connectionQueue := [], cp_destructor := D_Done\<rparr>)"

inductive_cases cp_stepE: "cp_step p p'"


lemma notify_producer_simps [simp]:
  "cp_connectionQueue (notify_producer p) = cp_connectionQueue p"
  "cp_borrowedCnt (notify_producer p) = cp_borrowedCnt p"
  "cp_connectionCnt (notify_producer p) = cp_connectionCnt p"
  "cp_isRunning (notify_producer p) = cp_isRunning p"
  "cp_poolConfig (notify_producer p) = cp_poolConfig p"
  "cp_lent (notify_producer p) = cp_lent p"
  "cp_destructor (notify_producer p) = cp_destructor p"
  "cp_producer (notify_producer p) = P_Have c \<longleftrightarrow> cp_producer p = P_Have c"
  by (simp_all add: notify_producer_def)





lemma init_connections_spec:
  "init_connections connect cfg fresh i n = Some cs \<Longrightarrow> cs = map fresh [i..<i + n] \<and> (\<forall>c \<in> set cs. connect cfg c)"
proof (induction n arbitrary: i cs)
  case 0
  then show ?case by simp
next
  case (Suc n)
  then obtain cs' where cs: "cs = fresh i # cs'" "connect cfg (fresh i)"
      "init_connections connect cfg fresh (Suc i) n = Some cs'"
    by (auto simp: createConnection_def split: option.splits if_splits)
  have "[i..<i + Suc n] = i # [Suc i..<Suc i + n]" by (simp add: upt_conv_Cons del: upt_Suc)
  with Suc.IH [OF cs(3)] cs(1,2) show ?case by (simp del: upt_Suc)
qed

lemma ConnectionPool_newE:
  assumes "ConnectionPool_new connect fresh loaded = Some p"
  obtains cfg conns where "loaded = (True, cfg)"
    and "init_connections connect (dbConfig cfg) fresh 0 (nat (initSize (poolConfig cfg))) = Some conns"
    and "p = \<lparr>cp_connectionQueue = conns, cp_borrowedCnt = 0,
           cp_connectionCnt = int (length conns), cp_isRunning = True, cp_poolConfig = poolConfig cfg,
           cp_producer = P_Top, cp_destructor = D_NotCalled, cp_lent = []\<rparr>"
proof -
  obtain b cfg where l: "loaded = (b, cfg)" by (cases loaded)
  with assms have "loaded = (True, cfg)" by (cases b) (simp_all add: ConnectionPool_new_def)
  with assms that show ?thesis by (auto simp: ConnectionPool_new_def split: option.splits)
qed


subsection \<open>Reachable states of the pool\<close>

inductive cp_reachable :: "'m connection_pool \<Rightarrow> 'm connection_pool \<Rightarrow> bool" for p0 where
  start: "cp_reachable p0 p0"
| more: "cp_reachable p0 p \<Longrightarrow> cp_step p p' \<Longrightarrow> cp_reachable p0 p'"





text \<open>The pool the program gets without a configuration file and with an empty environment.\<close>

definition default_pool :: "nat connection_pool" where
  "default_pool = \<lparr>cp_connectionQueue = [0..<10], cp_borrowedCnt = 0, cp_connectionCnt = 10,
     cp_isRunning = True, cp_poolConfig = \<lparr>initSize = 10, maxSize = 1024, connectionTimeout = 1000\<rparr>,
     cp_producer = P_Top, cp_destructor = D_NotCalled, cp_lent = []\<rparr>"

lemma default_pool_new:
  "ConnectionPool_new (\<lambda>_ _. True) id (loadConfig None Map.empty (config_init 0)) = Some default_pool"
proof -
  have "stoi ''3306'' = Some (3306, 4)"
    by (simp add: stoi_def scan_int_def scan_sign_def is_space_def is_digit_def signed_val_def
        digits_val_def digit_val_def int32_range_def)
  then have "loadConfig None Map.empty (config_init 0) = (True, loadFromEnvironment Map.empty (config_init 0))"
    and "initSize (poolConfig (loadFromEnvironment Map.empty (config_init 0))) = 10"
    and "poolConfig (loadFromEnvironment Map.empty (config_init 0)) =
      \<lparr>initSize = 10, maxSize = 1024, connectionTimeout = 1000\<rparr>"
    by (simp_all add: loadConfig_def Let_def loadFromEnvironment_def env_port_def parseInt_def
        getEnvOrDefault_def config_init_def validate_def)
  moreover have "init_connections (\<lambda>_ _. True) cfg id 0 10 = Some [0..<10]" for cfg
    by (simp add: numeral_eq_Suc createConnection_def)
  ultimately show ?thesis
    by (simp add: ConnectionPool_new_def default_pool_def)
qed


subsection \<open>A wake-up the destructor loses\<close>

text \<open>
  A producer that waits after the destructor has notified stays there: nobody notifies
  \<open>_cvProducer\<close> again, since \<open>getConnection\<close> returns before its \<open>notify_one\<close> once the pool is stopped.
\<close>

definition stuck :: "'m connection_pool \<Rightarrow> bool" where
  "stuck p \<longleftrightarrow> \<not> cp_isRunning p \<and> cp_producer p = P_Waiting \<and> cp_destructor p = D_Joining"

lemma stuck_step: "cp_step p p' \<Longrightarrow> stuck p \<Longrightarrow> stuck p'"
  by (induction rule: cp_step.induct)
    (auto simp: stuck_def getConnection_def returnConnection_def Let_def split: if_splits)

lemma stuck_forever: "cp_reachable p q \<Longrightarrow> stuck p \<Longrightarrow> stuck q"
  by (induction rule: cp_reachable.induct) (auto intro: stuck_step)

text \<open>
  C40: The destructor sets \<open>_isRunning\<close> and notifies without holding \<open>_queueMutex\<close>, so its wake-up
  can fall between the producer's test of \<open>_isRunning\<close> and its wait. From every freshly started pool
  a state is reachable in which the producer waits and the destructor joins it, and in every
  continuation both stay there (unless the condition variable wakes up spuriously).
\<close>

theorem destructor_can_hang:
  assumes "ConnectionPool_new connect fresh loaded = Some p0"
  shows "\<exists>p. cp_reachable p0 p \<and>
    (\<forall>q. cp_reachable p q \<longrightarrow> cp_producer q = P_Waiting \<and> cp_destructor q = D_Joining)"
proof -
  obtain cfg conns where "loaded = (True, cfg)" and i: "init_connections connect (dbConfig cfg) fresh 0 (nat (initSize (poolConfig cfg))) = Some conns"
    and p0: "p0 = \<lparr>cp_connectionQueue = conns, cp_borrowedCnt = 0,
           cp_connectionCnt = int (length conns), cp_isRunning = True, cp_poolConfig = poolConfig cfg,
           cp_producer = P_Top, cp_destructor = D_NotCalled, cp_lent = []\<rparr>"
    using assms by (rule ConnectionPool_newE)
  have full: "pool_full (p0\<lparr>cp_producer := P_Check\<rparr>)"
    using init_connections_spec [OF i] by (simp add: pool_full_def p0)
  let ?p1 = "p0\<lparr>cp_producer := P_Check\<rparr>"
  let ?p2 = "p0\<lparr>cp_producer := P_AboutToWait\<rparr>"
  let ?p3 = "?p2\<lparr>cp_isRunning := False, cp_destructor := D_Flagged\<rparr>"
  let ?p4 = "?p3\<lparr>cp_destructor := D_Joining\<rparr>"
  let ?p5 = "?p4\<lparr>cp_producer := P_Waiting\<rparr>"
  have s1: "cp_step p0 ?p1" using cp_step.produce_top [of p0] by (simp add: p0)
  have s2: "cp_step ?p1 ?p2"
    using cp_step.produce_check [of ?p1] full by (simp add: producer_check_def) (simp add: p0)
  have s3: "cp_step ?p2 ?p3" using cp_step.destroy_flag [of ?p2] by (simp add: p0)
  have s4: "cp_step ?p3 ?p4" using cp_step.destroy_notify [of ?p3] by (simp add: notify_producer_def p0)
  have s5: "cp_step ?p4 ?p5" using cp_step.produce_wait [of ?p4] by (simp add: p0)
  have "cp_reachable p0 ?p5"
    by (rule cp_reachable.more [OF cp_reachable.more [OF cp_reachable.more [OF cp_reachable.more
          [OF cp_reachable.more [OF cp_reachable.start s1] s2] s3] s4] s5])
  moreover have "stuck ?p5" by (simp add: stuck_def)
  ultimately show ?thesis using stuck_forever unfolding stuck_def by blast
qed

theorem destructor_can_hang_witness:
  "\<exists>p. cp_reachable default_pool p \<and>
    (\<forall>q. cp_reachable p q \<longrightarrow> cp_producer q = P_Waiting \<and> cp_destructor q = D_Joining)"
  using destructor_can_hang [OF default_pool_new] .

end
