(* ===== verification/Json.thy ===== *)
theory Json
  imports Prelude "HOL-Library.AList"
begin

text \<open>
  JSON values as the program sees them through \<open>nlohmann::json\<close>: the value itself and the accesses
  the source writes (\<open>js["k"]\<close>, \<open>contains\<close>, \<open>get<int>\<close>, conversion to a string or a vector of
  strings, assignment to a member), by their documented behaviour. Parsing and printing of JSON text
  are not here: they are functions of the outside world (\<open>Outside.thy\<close>), parameters of the model.

  A floating-point number is \<open>JFloat m e\<close>, the value \<open>m * 2 ^ e\<close>. The members of an object are an
  association list. \<open>js["k"]\<close> on a missing key inserts \<open>null\<close>; every such access of the source is
  followed by a conversion, which throws on \<open>null\<close>, so the insertion is never seen and the model
  only returns the \<open>null\<close>.
\<close>

datatype json =
    JNull
  | JBool bool
  | JInt int
  | JFloat int int
  | JStr string
  | JArr "json list"
  | JObj "(string \<times> json) list"

text \<open>
  Exceptions. \<open>UndefinedConversion\<close> is no exception of the library but the undefined cast of a
  floating-point value outside \<open>int\<close>, kept apart so that no theorem speaks about it by accident.
\<close>

datatype exn = TypeError | ParseError | UndefinedConversion

definition float_trunc :: "int \<Rightarrow> int \<Rightarrow> int" where
  "float_trunc m e = (if e \<ge> 0 then m * 2 ^ nat e else sgn m * (\<bar>m\<bar> div 2 ^ nat (- e)))"

fun get_int :: "json \<Rightarrow> exn + int" where
  "get_int (JInt i) = Inr (to_int32 i)"
| "get_int (JBool b) = Inr (if b then 1 else 0)"
| "get_int (JFloat m e) =
     (if int32_range (float_trunc m e) then Inr (float_trunc m e) else Inl UndefinedConversion)"
| "get_int _ = Inl TypeError"

fun get_string :: "json \<Rightarrow> exn + string" where
  "get_string (JStr s) = Inr s"
| "get_string _ = Inl TypeError"

fun get_strings :: "json list \<Rightarrow> exn + string list" where
  "get_strings [] = Inr []"
| "get_strings (j # js) = (case get_string j of Inl e \<Rightarrow> Inl e | Inr s \<Rightarrow>
     (case get_strings js of Inl e \<Rightarrow> Inl e | Inr ss \<Rightarrow> Inr (s # ss)))"

fun get_string_vector :: "json \<Rightarrow> exn + string list" where
  "get_string_vector (JArr js) = get_strings js"
| "get_string_vector _ = Inl TypeError"

fun contains :: "json \<Rightarrow> string \<Rightarrow> bool" where
  "contains (JObj kvs) k = (map_of kvs k \<noteq> None)"
| "contains _ k = False"

fun member_at :: "json \<Rightarrow> string \<Rightarrow> exn + json" where
  "member_at (JObj kvs) k = (case map_of kvs k of Some v \<Rightarrow> Inr v | None \<Rightarrow> Inr JNull)"
| "member_at JNull k = Inr JNull"
| "member_at _ k = Inl TypeError"

fun set_member :: "json \<Rightarrow> string \<Rightarrow> json \<Rightarrow> json" where
  "set_member (JObj kvs) k v = JObj (AList.update k v kvs)"
| "set_member JNull k v = JObj [(k, v)]"
| "set_member j k v = j"

definition int_field :: "json \<Rightarrow> string \<Rightarrow> exn + int" where
  "int_field js k = (case member_at js k of Inl e \<Rightarrow> Inl e | Inr v \<Rightarrow> get_int v)"

definition string_field :: "json \<Rightarrow> string \<Rightarrow> exn + string" where
  "string_field js k = (case member_at js k of Inl e \<Rightarrow> Inl e | Inr v \<Rightarrow> get_string v)"

definition strings_field :: "json \<Rightarrow> string \<Rightarrow> exn + string list" where
  "strings_field js k = (case member_at js k of Inl e \<Rightarrow> Inl e | Inr v \<Rightarrow> get_string_vector v)"

lemmas field_defs = int_field_def string_field_def strings_field_def

lemma int_field_JObj [simp]:
  "map_of kvs k = Some (JInt i) \<Longrightarrow> int_field (JObj kvs) k = Inr (to_int32 i)"
  "map_of kvs k = None \<Longrightarrow> int_field (JObj kvs) k = Inl TypeError"
  by (simp_all add: int_field_def)

lemma string_field_JObj [simp]:
  "map_of kvs k = Some (JStr s) \<Longrightarrow> string_field (JObj kvs) k = Inr s"
  "map_of kvs k = None \<Longrightarrow> string_field (JObj kvs) k = Inl TypeError"
  by (simp_all add: string_field_def)

lemma get_strings_map [simp]: "get_strings (map JStr ss) = Inr ss"
  by (induction ss) auto

lemma strings_field_JObj [simp]:
  "map_of kvs k = Some (JArr (map JStr ss)) \<Longrightarrow> strings_field (JObj kvs) k = Inr ss"
  by (simp add: strings_field_def)

lemma set_member_JObj_get [simp]:
  "member_at (set_member (JObj kvs) k v) k' = (if k = k' then Inr v else member_at (JObj kvs) k')"
  by (simp add: update_conv')

lemma int_field_set_member [simp]:
  "k \<noteq> k' \<Longrightarrow> int_field (set_member (JObj kvs) k v) k' = int_field (JObj kvs) k'"
  by (simp add: int_field_def del: set_member.simps)

lemma string_field_set_member [simp]:
  "string_field (set_member (JObj kvs) k v) k' =
     (if k = k' then get_string v else string_field (JObj kvs) k')"
  by (simp add: string_field_def del: set_member.simps)

lemma get_int_range: "get_int j = Inr i \<Longrightarrow> int32_range i"
  by (cases j) (auto split: if_splits, auto simp: int32_range_def)

lemma int_field_range: "int_field js k = Inr i \<Longrightarrow> int32_range i"
  by (auto simp: int_field_def dest: get_int_range split: sum.splits)

end
