(* ===== verification/Outside.thy ===== *)
theory Outside
  imports Json "HOL-Library.Countable"
begin

text \<open>
  What the program calls and the repository does not hold: libmysqlclient, the RPC channel of the
  mprpc submodule, hiredis, the operating system, and the text side of nlohmann's JSON. They are the
  fields of one record, a parameter of every definition that needs them, over a state \<open>'d\<close> nothing
  is assumed of: it can hold the database, the network's behaviour and the schedule of its failures.

  \<^item> \<open>ext_getenv\<close>: \<open>std::getenv\<close>.
  \<^item> \<open>ext_pool\<close>: whether \<open>ConnectionPool::getConnection()\<close> hands out a connection now (the pool is
    \<open>ConnPool.thy\<close>; here only its answer matters, which depends on the other threads).
  \<^item> \<open>ext_mysql_query\<close>: \<open>mysql_query\<close>; \<open>True\<close> is a non-zero return code, an error.
  \<^item> \<open>ext_store_result\<close>: \<open>mysql_store_result\<close>; the rows, each a list of columns (\<open>None\<close>: SQL NULL),
    or \<open>None\<close> for the null pointer.
  \<^item> \<open>ext_insert_id\<close>: \<open>mysql_insert_id\<close>.
  \<^item> \<open>ext_rpc\<close>: the fate of one remote call of the named method.
  \<^item> \<open>ext_redis_connect\<close>: \<open>redisConnect\<close>; \<open>None\<close> is the null pointer, \<open>Some\<close> the context's \<open>err\<close>.
  \<^item> \<open>ext_redis_command\<close>: \<open>redisCommand\<close> with the command's words; \<open>None\<close> is the null pointer.
  \<^item> \<open>ext_redis_append\<close>: \<open>redisAppendCommand\<close>; \<open>True\<close> is \<open>REDIS_ERR\<close>.
  \<^item> \<open>ext_redis_write\<close>: one \<open>redisBufferWrite\<close>.
  \<^item> \<open>ext_pipe\<close>, \<open>ext_thread\<close>, \<open>ext_write\<close>: whether \<open>pipe\<close>, the start of a \<open>std::thread\<close> and the
    \<open>write\<close> of one byte into the pipe succeed.
  \<^item> \<open>ext_send\<close>: the client's \<open>send\<close>, the number of bytes taken or \<open>-1\<close>; \<open>ext_localtime\<close>: its clock.
  \<^item> \<open>ext_json_parse\<close>, \<open>ext_json_dump\<close>: \<open>json::parse\<close> (\<open>None\<close>: it throws) and \<open>json::dump\<close>
    (\<open>None\<close>: it throws, for text that is not UTF-8).
\<close>

type_synonym row = "string option list"

text \<open>
  One remote call: carried out and answered, never carried out, or carried out with its answer
  lost. In the last two \<open>controller.Failed()\<close> holds.
\<close>

datatype rpc_fate = RpcAnswered | RpcNotCarriedOut | RpcAnswerLost

datatype redis_context = PublishContext | SubscribeContext

text \<open>
  A \<open>redisReply\<close>: an error with its text, an array of elements (\<open>None\<close>: a null element,
  \<open>Some None\<close>: an element without a string), or any other type.
\<close>

datatype redis_reply =
    RedisReplyError "string option"
  | RedisReplyArray "string option option list"
  | RedisReplyOther

datatype redis_write = WriteError | WriteMore | WriteDone

record 'd outside =
  ext_getenv :: "string \<Rightarrow> string option"
  ext_pool :: "'d \<Rightarrow> bool \<times> 'd"
  ext_mysql_query :: "string \<Rightarrow> 'd \<Rightarrow> bool \<times> 'd"
  ext_store_result :: "'d \<Rightarrow> row list option \<times> 'd"
  ext_insert_id :: "'d \<Rightarrow> int"
  ext_rpc :: "string \<Rightarrow> 'd \<Rightarrow> rpc_fate \<times> 'd"
  ext_redis_connect :: "redis_context \<Rightarrow> string \<Rightarrow> int \<Rightarrow> 'd \<Rightarrow> bool option \<times> 'd"
  ext_redis_command :: "redis_context \<Rightarrow> string list \<Rightarrow> 'd \<Rightarrow> redis_reply option \<times> 'd"
  ext_redis_append :: "string list \<Rightarrow> 'd \<Rightarrow> bool \<times> 'd"
  ext_redis_write :: "'d \<Rightarrow> redis_write \<times> 'd"
  ext_pipe :: "'d \<Rightarrow> bool \<times> 'd"
  ext_thread :: "'d \<Rightarrow> bool \<times> 'd"
  ext_write :: "'d \<Rightarrow> bool \<times> 'd"
  ext_send :: "string \<Rightarrow> 'd \<Rightarrow> int \<times> 'd"
  ext_localtime :: "'d \<Rightarrow> tm \<times> 'd"
  ext_json_parse :: "string \<Rightarrow> json option"
  ext_json_dump :: "json \<Rightarrow> string option"

text \<open>\<open>js.dump()\<close> as a step that may throw.\<close>

definition json_dump :: "'d outside \<Rightarrow> json \<Rightarrow> exn + string" where
  "json_dump E j = (case ext_json_dump E j of None \<Rightarrow> Inl TypeError | Some s \<Rightarrow> Inr s)"

subsection \<open>Documented behaviour of the JSON text functions\<close>

text \<open>
  What a dump parses back to has the members of the object that was dumped. The library keeps an
  object's members sorted, so only the members are promised and only for the objects the program
  builds, whose members are no objects themselves.
\<close>

fun scalar :: "json \<Rightarrow> bool" where
  "scalar (JInt i) \<longleftrightarrow> int32_range i"
| "scalar (JStr s) \<longleftrightarrow> True"
| "scalar (JBool b) \<longleftrightarrow> True"
| "scalar (JArr js) \<longleftrightarrow> (\<forall>j \<in> set js. \<exists>s. j = JStr s)"
| "scalar _ \<longleftrightarrow> False"

definition flat_object :: "json \<Rightarrow> bool" where
  "flat_object j \<longleftrightarrow> (\<exists>kvs. j = JObj kvs \<and> (\<forall>(k, v) \<in> set kvs. scalar v))"

definition same_members :: "json \<Rightarrow> json \<Rightarrow> bool" where
  "same_members j j' \<longleftrightarrow> (\<forall>k. contains j' k = contains j k \<and> member_at j' k = member_at j k)"

definition json_roundtrip :: "'d outside \<Rightarrow> bool" where
  "json_roundtrip E \<longleftrightarrow> (\<forall>j s. flat_object j \<and> ext_json_dump E j = Some s \<longrightarrow>
     (\<exists>j'. ext_json_parse E s = Some j' \<and> flat_object j' \<and> same_members j j'))"

text \<open>A dump without indentation is one line and not empty: control characters are escaped.\<close>

definition json_one_line :: "'d outside \<Rightarrow> bool" where
  "json_one_line E \<longleftrightarrow> (\<forall>j s. ext_json_dump E j = Some s \<longrightarrow> newline \<notin> set s \<and> s \<noteq> [])"

lemma same_members_fields:
  assumes "same_members j j'"
  shows "contains j' k = contains j k"
    and "int_field j' k = int_field j k"
    and "string_field j' k = string_field j k"
    and "strings_field j' k = strings_field j k"
  using assms by (simp_all add: same_members_def field_defs)

subsection \<open>An outside world to evaluate the model in\<close>

text \<open>
  A world that plays a script: the answers \<open>mysql_store_result\<close> will give, in order, and a log
  of the statements it was sent. Everything else succeeds. JSON text is a number standing for the
  value, which satisfies both contracts above.
\<close>

instance json :: countable
  by countable_datatype

type_synonym script = "row list list \<times> string list"

definition scripted_dump :: "json \<Rightarrow> string" where
  "scripted_dump j = show_nat (to_nat j)"

definition scripted_parse :: "string \<Rightarrow> json option" where
  "scripted_parse s = (if s \<noteq> [] \<and> (\<forall>c \<in> set s. is_digit c) then Some (from_nat (digits_val s)) else None)"

definition scripted :: "script outside" where
  "scripted = \<lparr>
     ext_getenv = (\<lambda>_. None),
     ext_pool = (\<lambda>d. (True, d)),
     ext_mysql_query = (\<lambda>sql (rows, log). (False, (rows, log @ [sql]))),
     ext_store_result = (\<lambda>(rows, log). (case rows of [] \<Rightarrow> (None, ([], log)) | r # rs \<Rightarrow> (Some r, (rs, log)))),
     ext_insert_id = (\<lambda>(rows, log). int (length log)),
     ext_rpc = (\<lambda>_ d. (RpcAnswered, d)),
     ext_redis_connect = (\<lambda>_ _ _ d. (Some False, d)),
     ext_redis_command = (\<lambda>_ _ d. (Some RedisReplyOther, d)),
     ext_redis_append = (\<lambda>_ d. (False, d)),
     ext_redis_write = (\<lambda>d. (WriteDone, d)),
     ext_pipe = (\<lambda>d. (True, d)),
     ext_thread = (\<lambda>d. (True, d)),
     ext_write = (\<lambda>d. (True, d)),
     ext_send = (\<lambda>bytes d. (int (length bytes), d)),
     ext_localtime = (\<lambda>d. (\<lparr>tm_year = 126, tm_mon = 0, tm_mday = 9, tm_hour = 8, tm_min = 7, tm_sec = 5\<rparr>, d)),
     ext_json_parse = scripted_parse,
     ext_json_dump = (\<lambda>j. Some (scripted_dump j))\<rparr>"

lemma scripted_parse_dump [simp]: "scripted_parse (scripted_dump j) = Some j"
  using show_nat_digits [of "to_nat j"]
  by (simp add: scripted_parse_def scripted_dump_def)

lemma json_roundtripE:
  assumes "json_roundtrip E" "flat_object j" "json_dump E j = Inr s"
  obtains j' where "ext_json_parse E s = Some j'" "flat_object j'" "same_members j j'"
  using assms by (auto simp: json_roundtrip_def json_dump_def split: option.splits)

lemma flat_objectI: "\<forall>(k, v) \<in> set kvs. scalar v \<Longrightarrow> flat_object (JObj kvs)"
  by (auto simp: flat_object_def)

lemma scripted_json_roundtrip [simp]: "json_roundtrip scripted"
  by (simp add: json_roundtrip_def scripted_def same_members_def)

lemma scripted_json_one_line [simp]: "json_one_line scripted"
  by (simp add: json_one_line_def scripted_def scripted_dump_def show_nat_chars)

end
