(* ===== verification/Database.thy ===== *)
theory Database
  imports Outside
begin

text \<open>
  \<open>src/common/db\<close>: \<open>MySQL\<close> (one connection), \<open>DbSession\<close> (a connection borrowed from the pool for
  one statement) and \<open>QueryResult\<close> (the rows of a query and a cursor).
\<close>

subsection \<open>MySQL\<close>

definition MySQL_update :: "'d outside \<Rightarrow> string \<Rightarrow> ('d, bool) state" where
  "MySQL_update E sql = do { failed \<leftarrow> State (ext_mysql_query E (c_str sql)); return (\<not> failed) }"

definition MySQL_query :: "'d outside \<Rightarrow> string \<Rightarrow> ('d, row list option) state" where
  "MySQL_query E sql = do {
     failed \<leftarrow> State (ext_mysql_query E (c_str sql));
     if failed then return None else State (ext_store_result E) }"

subsection \<open>QueryResult\<close>

text \<open>\<open>qr_result\<close> holds the rows \<open>mysql_fetch_row\<close> has still to deliver; \<open>None\<close> is \<open>nullptr\<close>.\<close>

record query_result =
  qr_result :: "row list option"
  qr_currentRow :: "row option"
  qr_valid :: bool

definition QueryResult :: "row list option \<Rightarrow> bool \<Rightarrow> query_result" where
  "QueryResult result valid = \<lparr>qr_result = result, qr_currentRow = None, qr_valid = valid\<rparr>"

text \<open>The move constructor: what the new object holds and what is left in the old one.\<close>

definition QueryResult_move :: "query_result \<Rightarrow> query_result \<times> query_result" where
  "QueryResult_move other = (other, \<lparr>qr_result = None, qr_currentRow = None, qr_valid = False\<rparr>)"

text \<open>
  The column at an index. The source reads \<open>_currentRow[index]\<close> without a bound: past the last
  column the C++ reads outside the row; the model returns NULL there and the statements of the
  program never ask for such a column.
\<close>

definition column :: "query_result \<Rightarrow> int \<Rightarrow> string option" where
  "column qr index = (case qr_currentRow qr of
     None \<Rightarrow> None
   | Some r \<Rightarrow> if index < 0 then None else if nat index < length r then r ! nat index else None)"

definition QueryResult_getInt :: "query_result \<Rightarrow> int \<Rightarrow> int" where
  "QueryResult_getInt qr index = (case column qr index of None \<Rightarrow> 0 | Some v \<Rightarrow> atoi v)"

definition QueryResult_getString :: "query_result \<Rightarrow> int \<Rightarrow> string" where
  "QueryResult_getString qr index = (case column qr index of None \<Rightarrow> [] | Some v \<Rightarrow> c_str v)"

definition QueryResult_next :: "query_result \<Rightarrow> bool \<times> query_result" where
  "QueryResult_next qr = (case qr_result qr of
     None \<Rightarrow> (False, qr)
   | Some [] \<Rightarrow> (False, qr\<lparr>qr_currentRow := None\<rparr>)
   | Some (r # rs) \<Rightarrow> (True, qr\<lparr>qr_result := Some rs, qr_currentRow := Some r\<rparr>))"

text \<open>\<open>while (result.next()) ... emplace_back(read(result))\<close>.\<close>

function fetch_loop :: "(query_result \<Rightarrow> 'a) \<Rightarrow> query_result \<Rightarrow> 'a list" where
  "fetch_loop read qr = (case QueryResult_next qr of
     (True, qr') \<Rightarrow> read qr' # fetch_loop read qr'
   | (False, qr') \<Rightarrow> [])"
  by pat_completeness auto
termination
  by (relation "measure (\<lambda>(read, qr). case qr_result qr of None \<Rightarrow> 0 | Some rs \<Rightarrow> length rs)")
    (auto simp: QueryResult_next_def split: option.splits list.splits)

declare fetch_loop.simps [simp del]

text \<open>A cursor on a given row, which is all the reads of the program depend on.\<close>

definition at_row :: "row \<Rightarrow> query_result" where
  "at_row r = \<lparr>qr_result = None, qr_currentRow = Some r, qr_valid = True\<rparr>"

definition reads_row :: "(query_result \<Rightarrow> 'a) \<Rightarrow> bool" where
  "reads_row read \<longleftrightarrow> (\<forall>qr r. qr_currentRow qr = Some r \<longrightarrow> read qr = read (at_row r))"

lemma QueryResult_next_simps [simp]:
  "qr_result qr = None \<Longrightarrow> QueryResult_next qr = (False, qr)"
  "qr_result qr = Some [] \<Longrightarrow> QueryResult_next qr = (False, qr\<lparr>qr_currentRow := None\<rparr>)"
  "qr_result qr = Some (r # rs) \<Longrightarrow>
     QueryResult_next qr = (True, qr\<lparr>qr_result := Some rs, qr_currentRow := Some r\<rparr>)"
  by (simp_all add: QueryResult_next_def)

lemma fetch_loop_rows:
  assumes "reads_row read"
  shows "fetch_loop read qr = (case qr_result qr of None \<Rightarrow> [] | Some rs \<Rightarrow> map (\<lambda>r. read (at_row r)) rs)"
proof (cases "qr_result qr")
  case None
  then show ?thesis by (simp add: fetch_loop.simps [of read qr])
next
  case (Some rs)
  then show ?thesis
  proof (induction rs arbitrary: qr)
    case Nil
    then show ?case by (simp add: fetch_loop.simps [of read qr])
  next
    case (Cons r rs)
    let ?qr = "qr\<lparr>qr_result := Some rs, qr_currentRow := Some r\<rparr>"
    have "read ?qr = read (at_row r)"
      using assms by (simp add: reads_row_def)
    with Cons.IH [of ?qr] Cons.prems show ?case by (simp add: fetch_loop.simps [of read qr])
  qed
qed

lemma column_at_row [simp]:
  "column (at_row r) i = (if i < 0 then None else if nat i < length r then r ! nat i else None)"
  by (simp add: column_def at_row_def)

lemma column_reads: "qr_currentRow qr = Some r \<Longrightarrow> column qr i = column (at_row r) i"
  by (simp add: column_def at_row_def)

subsection \<open>DbSession\<close>

text \<open>The constructor asks the pool for a connection; the session is whether it got one.\<close>

definition DbSession :: "'d outside \<Rightarrow> ('d, bool) state" where
  "DbSession E = State (ext_pool E)"

definition DbSession_update :: "'d outside \<Rightarrow> bool \<Rightarrow> string \<Rightarrow> ('d, bool) state" where
  "DbSession_update E conn sql = (if \<not> conn then return False else MySQL_update E sql)"

definition DbSession_query :: "'d outside \<Rightarrow> bool \<Rightarrow> string \<Rightarrow> ('d, query_result) state" where
  "DbSession_query E conn sql =
     (if \<not> conn then return (QueryResult None False)
      else do {
        result \<leftarrow> MySQL_query E sql;
        return (case result of None \<Rightarrow> QueryResult None False | Some rs \<Rightarrow> QueryResult (Some rs) True) })"

text \<open>\<open>-1\<close> without a connection, \<open>mysql_insert_id\<close> otherwise, as a \<open>long long\<close>.\<close>

definition DbSession_lastInsertId :: "'d outside \<Rightarrow> bool \<Rightarrow> ('d, int) state" where
  "DbSession_lastInsertId E conn = (if \<not> conn then return (- 1) else gets (ext_insert_id E))"

text \<open>The two shapes every model function has: one update, or one query, in a session of its own.\<close>

definition run_update :: "'d outside \<Rightarrow> string \<Rightarrow> ('d, bool) state" where
  "run_update E sql = do { session \<leftarrow> DbSession E; DbSession_update E session sql }"

definition run_query :: "'d outside \<Rightarrow> string \<Rightarrow> ('d, query_result) state" where
  "run_query E sql = do { session \<leftarrow> DbSession E; DbSession_query E session sql }"

subsection \<open>What a session does, as one step of the outside world\<close>

text \<open>
  \<open>sql_update\<close> and \<open>sql_query\<close> are the two operations the model classes rest on: whether the
  statement was carried out, and the rows (\<open>None\<close>: no connection, or an error).
\<close>

definition sql_update :: "'d outside \<Rightarrow> string \<Rightarrow> 'd \<Rightarrow> bool \<times> 'd" where
  "sql_update E sql d = (let (conn, d) = ext_pool E d in
     if \<not> conn then (False, d)
     else let (failed, d) = ext_mysql_query E (c_str sql) d in (\<not> failed, d))"

definition sql_query :: "'d outside \<Rightarrow> string \<Rightarrow> 'd \<Rightarrow> row list option \<times> 'd" where
  "sql_query E sql d = (let (conn, d) = ext_pool E d in
     if \<not> conn then (None, d)
     else let (failed, d) = ext_mysql_query E (c_str sql) d in
       if failed then (None, d) else ext_store_result E d)"

definition rows_result :: "row list option \<Rightarrow> query_result" where
  "rows_result rows = QueryResult rows (rows \<noteq> None)"

lemma run_update_eq [simp]: "run_state (run_update E sql) d = sql_update E sql d"
  by (simp add: run_update_def DbSession_def DbSession_update_def MySQL_update_def sql_update_def
      split: prod.split)

lemma run_query_eq [simp]:
  "run_state (run_query E sql) d = (let (rows, d') = sql_query E sql d in (rows_result rows, d'))"
proof -
  obtain c d1 where p: "ext_pool E d = (c, d1)" by fastforce
  obtain f d2 where q: "ext_mysql_query E (c_str sql) d1 = (f, d2)" by fastforce
  obtain r d3 where r: "ext_store_result E d2 = (r, d3)" by fastforce
  show ?thesis
    by (cases c; cases f; cases r)
      (simp_all add: run_query_def DbSession_def DbSession_query_def MySQL_query_def sql_query_def
        rows_result_def p q r)
qed

lemma rows_result_simps [simp]:
  "qr_valid (rows_result rows) \<longleftrightarrow> rows \<noteq> None"
  "qr_result (rows_result rows) = rows"
  by (simp_all add: rows_result_def QueryResult_def)

lemma QueryResult_next_rows [simp]:
  "QueryResult_next (rows_result None) = (False, rows_result None)"
  "fst (QueryResult_next (rows_result (Some rs))) \<longleftrightarrow> rs \<noteq> []"
  "rs = r # rs' \<Longrightarrow> column (snd (QueryResult_next (rows_result (Some rs)))) i = column (at_row r) i"
proof -
  show "QueryResult_next (rows_result None) = (False, rows_result None)" by simp
  show "fst (QueryResult_next (rows_result (Some rs))) \<longleftrightarrow> rs \<noteq> []"
    by (cases rs) simp_all
  show "rs = r # rs' \<Longrightarrow> column (snd (QueryResult_next (rows_result (Some rs)))) i = column (at_row r) i"
    by (simp add: column_def at_row_def)
qed

end
