(* ===== verification/Handles.thy ===== *)
theory Handles
  imports ConnPool Database "HOL-Library.Multiset"
begin

text \<open>
  The handles of the database library and the objects that own them: \<open>QueryResult\<close> with its
  constructor, destructor and moves (\<open>src/common/db/QueryResult.cpp\<close>), and \<open>MySQL\<close> with its
  connection (\<open>src/common/db/MySQL.cpp\<close>, \<open>ConnectionPool::createConnection\<close>). Objects live at
  addresses; the calls of the library are recorded in order, and their answers are parameters of the
  operations. \<open>Database.thy\<close> works with the values of these objects; the last part of the first
  section says that this is the same. The last section has the whole life of the connection pool
  (\<open>ConnectionPool.cpp\<close>) with the handle of every connection in it.
\<close>

subsection \<open>QueryResult objects\<close>

type_synonym handle = nat
type_synonym address = nat

text \<open>
  The calls: a result set handed out (by \<open>mysql_store_result\<close>), a row fetched from it, a column of a
  fetched row read, and the set released.
\<close>

datatype result_call = StoreResult handle | FetchRow handle | ReadRow handle | FreeResult handle

text \<open>\<open>ro_currentRow\<close> is a pointer into the memory of a result set, so it names the set.\<close>

record result_object =
  ro_result :: "handle option"
  ro_currentRow :: "(handle \<times> row) option"
  ro_valid :: bool

record result_store =
  rs_objects :: "address \<Rightarrow> result_object option"
  rs_calls :: "result_call list"

definition rs_call :: "result_call \<Rightarrow> result_store \<Rightarrow> result_store" where
  "rs_call c s = s\<lparr>rs_calls := rs_calls s @ [c]\<rparr>"

definition rs_set :: "address \<Rightarrow> result_object option \<Rightarrow> result_store \<Rightarrow> result_store" where
  "rs_set a obj s = s\<lparr>rs_objects := (rs_objects s)(a := obj)\<rparr>"

definition free_result :: "handle option \<Rightarrow> result_store \<Rightarrow> result_store" where
  "free_result r s = (case r of None \<Rightarrow> s | Some h \<Rightarrow> rs_call (FreeResult h) s)"

definition emptied :: result_object where
  "emptied = \<lparr>ro_result = None, ro_currentRow = None, ro_valid = False\<rparr>"

definition object_new :: "address \<Rightarrow> handle option \<Rightarrow> bool \<Rightarrow> result_store \<Rightarrow> result_store" where
  "object_new a result valid = rs_set a (Some \<lparr>ro_result = result, ro_currentRow = None, ro_valid = valid\<rparr>)"

definition object_delete :: "address \<Rightarrow> result_object \<Rightarrow> result_store \<Rightarrow> result_store" where
  "object_delete a obj s = rs_set a None (free_result (ro_result obj) s)"

definition object_move :: "address \<Rightarrow> address \<Rightarrow> result_object \<Rightarrow> result_store \<Rightarrow> result_store" where
  "object_move a b other s = rs_set b (Some emptied) (rs_set a (Some other) s)"

definition object_assign :: "address \<Rightarrow> address \<Rightarrow> result_object \<Rightarrow> result_object \<Rightarrow> result_store \<Rightarrow> result_store" where
  "object_assign a b this other s =
     (if a \<noteq> b then rs_set b (Some emptied) (rs_set a (Some other) (free_result (ro_result this) s)) else s)"

text \<open>\<open>next\<close>: \<open>answer\<close> is the row \<open>mysql_fetch_row\<close> returns.\<close>

definition object_next :: "address \<Rightarrow> result_object \<Rightarrow> row option \<Rightarrow> result_store \<Rightarrow> bool \<times> result_store" where
  "object_next a obj answer s = (case ro_result obj of
     None \<Rightarrow> (False, s)
   | Some h \<Rightarrow> (answer \<noteq> None,
       rs_set a (Some (obj\<lparr>ro_currentRow := map_option (Pair h) answer\<rparr>)) (rs_call (FetchRow h) s)))"

text \<open>\<open>getInt\<close> and \<open>getString\<close> read the current row, if there is one and the index is not negative.\<close>

definition object_read :: "result_object \<Rightarrow> int \<Rightarrow> result_store \<Rightarrow> result_store" where
  "object_read obj index s = (case ro_currentRow obj of
     None \<Rightarrow> s
   | Some (h, _) \<Rightarrow> if index < 0 then s else rs_call (ReadRow h) s)"

text \<open>The sets handed out and not yet released, and the calls that touch only such sets.\<close>

fun live_after :: "handle set \<Rightarrow> result_call list \<Rightarrow> handle set" where
  "live_after H [] = H"
| "live_after H (StoreResult h # cs) = live_after (insert h H) cs"
| "live_after H (FreeResult h # cs) = live_after (H - {h}) cs"
| "live_after H (_ # cs) = live_after H cs"

fun safe_calls :: "handle set \<Rightarrow> result_call list \<Rightarrow> bool" where
  "safe_calls H [] = True"
| "safe_calls H (StoreResult h # cs) = (h \<notin> H \<and> safe_calls (insert h H) cs)"
| "safe_calls H (FreeResult h # cs) = (h \<in> H \<and> safe_calls (H - {h}) cs)"
| "safe_calls H (FetchRow h # cs) = (h \<in> H \<and> safe_calls H cs)"
| "safe_calls H (ReadRow h # cs) = (h \<in> H \<and> safe_calls H cs)"

abbreviation live :: "result_store \<Rightarrow> handle set" where
  "live s \<equiv> live_after {} (rs_calls s)"

text \<open>
  The programs C++ admits: an object is constructed at a free address, used and destroyed while it is
  there. \<open>DbSession::query\<close> constructs one around the null pointer or around a set the library has
  just handed out, which is none of the live ones.
\<close>

inductive result_step :: "result_store \<Rightarrow> result_store \<Rightarrow> bool" where
  construct_null: "rs_objects s a = None \<Longrightarrow> result_step s (object_new a None False s)"
| construct: "rs_objects s a = None \<Longrightarrow> h \<notin> live s \<Longrightarrow>
    result_step s (object_new a (Some h) True (rs_call (StoreResult h) s))"
| destroy: "rs_objects s a = Some obj \<Longrightarrow> result_step s (object_delete a obj s)"
| move_construct: "rs_objects s a = None \<Longrightarrow> rs_objects s b = Some other \<Longrightarrow>
    result_step s (object_move a b other s)"
| move_assign: "rs_objects s a = Some this \<Longrightarrow> rs_objects s b = Some other \<Longrightarrow>
    result_step s (object_assign a b this other s)"
| next_row: "rs_objects s a = Some obj \<Longrightarrow> result_step s (snd (object_next a obj answer s))"
| read_column: "rs_objects s a = Some obj \<Longrightarrow> result_step s (object_read obj index s)"

definition no_objects :: result_store where
  "no_objects = \<lparr>rs_objects = (\<lambda>_. None), rs_calls = []\<rparr>"

text \<open>
  The invariant: the calls so far were safe; the live sets are those objects hold, each held by one;
  a current row belongs to the set its object holds.
\<close>

definition held :: "result_store \<Rightarrow> address \<Rightarrow> handle option" where
  "held s a = Option.bind (rs_objects s a) ro_result"

definition one_owner :: "(address \<Rightarrow> handle option) \<Rightarrow> bool" where
  "one_owner m \<longleftrightarrow> (\<forall>a b h. m a = Some h \<longrightarrow> m b = Some h \<longrightarrow> a = b)"

definition rows_owned :: "result_store \<Rightarrow> bool" where
  "rows_owned s \<longleftrightarrow> (\<forall>a obj h r. rs_objects s a = Some obj \<longrightarrow> ro_currentRow obj = Some (h, r) \<longrightarrow> ro_result obj = Some h)"

definition store_ok :: "result_store \<Rightarrow> bool" where
  "store_ok s \<longleftrightarrow> safe_calls {} (rs_calls s) \<and> live s = ran (held s) \<and> one_owner (held s) \<and> rows_owned s"

lemma live_after_append [simp]: "live_after H (cs @ ds) = live_after (live_after H cs) ds"
  by (induction H cs rule: live_after.induct) simp_all

lemma safe_calls_append [simp]: "safe_calls H (cs @ ds) \<longleftrightarrow> safe_calls H cs \<and> safe_calls (live_after H cs) ds"
  by (induction H cs rule: live_after.induct) auto

lemma rs_simps [simp]:
  "rs_objects (rs_call c s) = rs_objects s" "rs_calls (rs_call c s) = rs_calls s @ [c]"
  "rs_objects (rs_set a obj s) = (rs_objects s)(a := obj)" "rs_calls (rs_set a obj s) = rs_calls s"
  by (simp_all add: rs_call_def rs_set_def)

lemma held_set [simp]: "held (rs_set a obj s) = (held s)(a := Option.bind obj ro_result)"
  by (auto simp: held_def)

lemma held_call [simp]: "held (rs_call c s) = held s"
  by (auto simp: held_def)

lemma held_at: "rs_objects s a = Some obj \<Longrightarrow> held s a = ro_result obj" "rs_objects s a = None \<Longrightarrow> held s a = None"
  by (simp_all add: held_def)

lemma free_result_simps [simp]:
  "rs_objects (free_result r s) = rs_objects s" "held (free_result r s) = held s"
  "rs_calls (free_result r s) = rs_calls s @ (case r of None \<Rightarrow> [] | Some h \<Rightarrow> [FreeResult h])"
  by (auto simp: free_result_def held_def split: option.split)

text \<open>The owners: a new one, one less, and a set that changes hands.\<close>

lemma owner_new: "one_owner m \<Longrightarrow> m a = None \<Longrightarrow> h \<notin> ran m \<Longrightarrow> one_owner (m(a \<mapsto> h))"
  by (auto simp: one_owner_def ran_def)

lemma owner_gone:
  assumes "one_owner m"
  shows "one_owner (m(a := None))" and "ran (m(a := None)) = ran m - set_option (m a)"
  using assms by (auto simp: one_owner_def ran_def)

lemma owner_moves:
  assumes "one_owner m" "m a = None" "a \<noteq> b"
  shows "one_owner (m(a := m b, b := None))" and "ran (m(a := m b, b := None)) = ran m"
proof -
  show "one_owner (m(a := m b, b := None))" using assms by (auto simp: one_owner_def)
  show "ran (m(a := m b, b := None)) = ran m"
  proof (intro set_eqI iffI)
    fix h assume "h \<in> ran (m(a := m b, b := None))"
    then show "h \<in> ran m" by (auto simp: ran_def split: if_splits)
  next
    fix h assume "h \<in> ran m"
    then obtain c where "m c = Some h" by (auto simp: ran_def)
    with assms(2,3) have "(m(a := m b, b := None)) (if c = b then a else c) = Some h" by auto
    then show "h \<in> ran (m(a := m b, b := None))" by (rule ranI)
  qed
qed

lemma rows_owned_set [simp]:
  "rows_owned s \<Longrightarrow> rows_owned (rs_set a None s)"
  "rows_owned s \<Longrightarrow> rows_owned (rs_set a (Some obj) s) \<longleftrightarrow>
     (\<forall>h r. ro_currentRow obj = Some (h, r) \<longrightarrow> ro_result obj = Some h)"
  by (auto simp: rows_owned_def)

lemma rows_ownedD:
  "rows_owned s \<Longrightarrow> rs_objects s a = Some obj \<Longrightarrow> ro_currentRow obj = Some (h, r) \<Longrightarrow> ro_result obj = Some h"
  by (simp add: rows_owned_def)

lemma rows_owned_calls [simp]: "rows_owned (rs_call c s) = rows_owned s" "rows_owned (free_result r s) = rows_owned s"
  by (simp_all add: rows_owned_def)

lemma store_ok_use:
  assumes "store_ok s" "rs_objects s a = Some obj" "ro_result obj = Some h"
  shows "store_ok (rs_call (FetchRow h) s)" and "store_ok (rs_call (ReadRow h) s)"
  using assms ranI [of "held s" a h] by (auto simp: store_ok_def held_at)

lemma store_ok_delete:
  assumes "store_ok s" "rs_objects s a = Some obj"
  shows "store_ok (rs_set a None (free_result (ro_result obj) s))"
proof -
  note ok = assms(1) [unfolded store_ok_def]
  have "safe_calls {} (rs_calls (free_result (ro_result obj) s))"
    "live (free_result (ro_result obj) s) = ran ((held s)(a := None))"
    using ok owner_gone(2) [of "held s" a] ranI [of "held s" a] assms(2)
    by (auto simp: held_at split: option.split)
  with ok owner_gone(1) [of "held s" a] show ?thesis
    by (simp add: store_ok_def del: fun_upd_apply)
qed

lemma store_ok_move:
  assumes "store_ok s" "rs_objects s a = None" "rs_objects s b = Some other"
  shows "store_ok (rs_set b (Some emptied) (rs_set a (Some other) s))"
proof -
  note ok = assms(1) [unfolded store_ok_def]
  have "a \<noteq> b" "(held s)(a := ro_result other, b := None) = (held s)(a := held s b, b := None)"
    using assms by (auto simp: held_at)
  moreover have "one_owner ((held s)(a := held s b, b := None))" "ran ((held s)(a := held s b, b := None)) = ran (held s)"
    using owner_moves [of "held s" a b] ok assms(2) \<open>a \<noteq> b\<close> by (simp_all add: held_at)
  moreover have "rows_owned (rs_set b (Some emptied) (rs_set a (Some other) s))"
    using ok rows_ownedD [OF _ assms(3)] by (simp add: emptied_def)
  ultimately show ?thesis
    using ok by (simp add: store_ok_def emptied_def del: fun_upd_apply)
qed

lemma store_ok_step: "result_step s s' \<Longrightarrow> store_ok s \<Longrightarrow> store_ok s'"
proof (induction rule: result_step.induct)
  case (construct_null s a)
  then have "(held s)(a := None) = held s" by (auto simp: held_at)
  with construct_null(2) show ?case
    by (simp add: store_ok_def object_new_def)
next
  case (construct s a h)
  then show ?case
    using owner_new [of "held s" a h] ran_map_upd [of "held s" a h]
    by (simp add: store_ok_def object_new_def held_at del: fun_upd_apply)
next
  case (destroy s a obj)
  from store_ok_delete [OF destroy(2,1)] show ?case by (simp add: object_delete_def)
next
  case (move_construct s a b other)
  from store_ok_move [OF move_construct(3,1,2)] show ?case by (simp add: object_move_def)
next
  case (move_assign s a this b other)
  show ?case
  proof (cases "a = b")
    case True
    with move_assign(3) show ?thesis by (simp add: object_assign_def)
  next
    case False
    let ?s = "rs_set a None (free_result (ro_result this) s)"
    have "rs_set b (Some emptied) (rs_set a (Some other) ?s) =
        rs_set b (Some emptied) (rs_set a (Some other) (free_result (ro_result this) s))"
      by (simp add: rs_set_def)
    with store_ok_move [OF store_ok_delete [OF move_assign(3,1)], where a = a and b = b and other = other] move_assign(2) False show ?thesis
      by (simp add: object_assign_def)
  qed
next
  case (next_row s a obj answer)
  show ?case
  proof (cases "ro_result obj")
    case None
    with next_row show ?thesis by (simp add: object_next_def)
  next
    case (Some h)
    with store_ok_use(1) [OF next_row(2,1)] next_row(1) show ?thesis
      by (auto simp: store_ok_def object_next_def held_at fun_upd_idem)
  qed
next
  case (read_column s a obj index)
  then show ?case
    using store_ok_use(2) [OF read_column(2,1)]
    by (auto simp: object_read_def store_ok_def dest: rows_ownedD split: option.split)
qed

inductive result_run :: "result_store \<Rightarrow> bool" where
  run_start: "result_run no_objects"
| run_step: "result_run s \<Longrightarrow> result_step s s' \<Longrightarrow> result_run s'"

lemma result_run_ok: "result_run s \<Longrightarrow> store_ok s"
proof (induction rule: result_run.induct)
  case run_start
  have "held no_objects = (\<lambda>_. None)" by (auto simp: held_def no_objects_def)
  then show ?case by (simp add: store_ok_def one_owner_def rows_owned_def no_objects_def)
next
  case (run_step s s')
  then show ?case by (blast intro: store_ok_step)
qed

lemma safe_counts:
  "safe_calls H cs \<Longrightarrow> count_list cs (StoreResult h) + of_bool (h \<in> H) =
     count_list cs (FreeResult h) + of_bool (h \<in> live_after H cs)"
proof (induction H cs rule: safe_calls.induct)
  case (2 H h' cs)
  then show ?case by (cases "h = h'") simp_all
next
  case (3 H h' cs)
  then show ?case by (cases "h = h'") simp_all
qed simp_all

text \<open>C25: every result set is released exactly once and never touched afterwards. In every state a
  program of constructions, moves, assignments, reads and destructions reaches, the calls so far
  fetched, read and freed only sets that were live, whatever addresses the library reuses; a set that
  has not been freed is held by exactly one object; so when no object is left, each set was
  freed as often as it was handed out.\<close>

theorem result_sets_freed_once:
  assumes "result_run s"
  shows "safe_calls {} (rs_calls s) \<and> (\<forall>h \<in> live s. \<exists>!a. held s a = Some h) \<and>
    ((\<forall>a. rs_objects s a = None) \<longrightarrow>
      (\<forall>h. count_list (rs_calls s) (FreeResult h) = count_list (rs_calls s) (StoreResult h)))"
proof -
  have ok: "safe_calls {} (rs_calls s)" "live s = ran (held s)" "one_owner (held s)"
    using result_run_ok [OF assms] by (simp_all add: store_ok_def)
  have "\<exists>!a. held s a = Some h" if "h \<in> live s" for h
    using that ok by (auto simp: one_owner_def ran_def)
  moreover have "count_list (rs_calls s) (FreeResult h) = count_list (rs_calls s) (StoreResult h)"
    if "\<forall>a. rs_objects s a = None" for h
  proof -
    have "live s = {}" using ok(2) that by (auto simp: held_def ran_def)
    with safe_counts [OF ok(1), of h] show ?thesis by simp
  qed
  ultimately show ?thesis using ok(1) by blast
qed

text \<open>A set that is moved to a second object, which reads one row; then both objects are destroyed.\<close>

theorem result_sets_freed_once_witness:
  "\<exists>s. result_run s \<and> rs_calls s = [StoreResult 5, FetchRow 5, ReadRow 5, FreeResult 5] \<and> safe_calls {} (rs_calls s)"
proof -
  let ?o = "\<lparr>ro_result = Some 5, ro_currentRow = None, ro_valid = True\<rparr>"
  let ?s1 = "object_new 0 (Some 5) True (rs_call (StoreResult 5) no_objects)"
  let ?s2 = "object_move 1 0 ?o ?s1"
  let ?s3 = "snd (object_next 1 ?o (Some [Some ''7'']) ?s2)"
  let ?o' = "?o\<lparr>ro_currentRow := Some (5, [Some ''7''])\<rparr>"
  let ?s4 = "object_read ?o' 0 ?s3"
  let ?s5 = "object_delete 1 ?o' ?s4"
  let ?s6 = "object_delete 0 emptied ?s5"
  note defs = object_new_def object_move_def object_next_def object_read_def object_delete_def
    no_objects_def emptied_def free_result_def
  have 1: "result_run ?s1"
    by (rule run_step [OF run_start result_step.construct]) (simp_all add: no_objects_def)
  have 2: "result_run ?s2"
    by (rule run_step [OF 1 result_step.move_construct]) (simp_all add: defs)
  have 3: "result_run ?s3"
    by (rule run_step [OF 2 result_step.next_row]) (simp add: defs)
  have 4: "result_run ?s4"
    by (rule run_step [OF 3 result_step.read_column [where a = 1]]) (simp add: defs)
  have 5: "result_run ?s5"
    by (rule run_step [OF 4 result_step.destroy]) (simp add: defs)
  have 6: "result_run ?s6"
    by (rule run_step [OF 5 result_step.destroy]) (simp add: defs)
  have "rs_calls ?s6 = [StoreResult 5, FetchRow 5, ReadRow 5, FreeResult 5]"
    by (simp add: defs)
  with 6 result_sets_freed_once [OF 6] show ?thesis by blast
qed

subsection \<open>The objects as values\<close>

text \<open>
  With \<open>rows h\<close> the rows the library has still to deliver from the set \<open>h\<close>, each object is a value of
  \<open>Database.thy\<close>, and each operation on objects is the operation there on these values.
\<close>

definition object_value :: "(handle \<Rightarrow> row list) \<Rightarrow> result_object \<Rightarrow> query_result" where
  "object_value rows obj = \<lparr>qr_result = map_option rows (ro_result obj),
     qr_currentRow = map_option snd (ro_currentRow obj), qr_valid = ro_valid obj\<rparr>"

definition object_values :: "(handle \<Rightarrow> row list) \<Rightarrow> result_store \<Rightarrow> address \<Rightarrow> query_result option" where
  "object_values rows s a = map_option (object_value rows) (rs_objects s a)"

text \<open>What \<open>mysql_fetch_row\<close> answers for a set, and what is left of it.\<close>

definition fetched :: "(handle \<Rightarrow> row list) \<Rightarrow> handle \<Rightarrow> row option" where
  "fetched rows h = (case rows h of [] \<Rightarrow> None | r # _ \<Rightarrow> Some r)"

lemma object_values_simps [simp]:
  "object_values rows (rs_call c s) = object_values rows s"
  "object_values rows (free_result r s) = object_values rows s"
  "object_values rows (rs_set a obj s) = (object_values rows s)(a := map_option (object_value rows) obj)"
  by (auto simp: object_values_def)

lemma object_values_new:
  "object_values rows (object_new a result valid s) =
     (object_values rows s)(a \<mapsto> QueryResult (map_option rows result) valid)"
  by (simp add: object_new_def object_value_def QueryResult_def)

lemma object_values_move:
  assumes "rs_objects s b = Some other" "a \<noteq> b"
  shows "object_values rows (object_move a b other s) = (object_values rows s)
      (a \<mapsto> fst (QueryResult_move (object_value rows other)), b \<mapsto> snd (QueryResult_move (object_value rows other)))"
    and "object_values rows (object_assign a b this other s) = (object_values rows s)
      (a \<mapsto> fst (QueryResult_move (object_value rows other)), b \<mapsto> snd (QueryResult_move (object_value rows other)))"
  using assms(2) by (simp_all add: object_move_def object_assign_def QueryResult_move_def object_value_def emptied_def)

lemma object_values_next:
  assumes "store_ok s" "rs_objects s a = Some obj"
    and "r = (case ro_result obj of None \<Rightarrow> (False, s) | Some h \<Rightarrow> object_next a obj (fetched rows h) s)"
    and "rows' = (case ro_result obj of None \<Rightarrow> rows | Some h \<Rightarrow> rows(h := tl (rows h)))"
  shows "fst r = fst (QueryResult_next (object_value rows obj)) \<and>
    object_values rows' (snd r) = (object_values rows s)(a \<mapsto> snd (QueryResult_next (object_value rows obj)))"
proof (cases "ro_result obj")
  case None
  with assms(2-4) show ?thesis
    by (auto simp: object_values_def object_value_def)
next
  case (Some h)
  have other: "object_value rows' o' = object_value rows o'" if "rs_objects s b = Some o'" "b \<noteq> a" for b o'
  proof -
    have "ro_result o' \<noteq> Some h"
      using assms(1,2) that Some by (auto simp: store_ok_def one_owner_def held_at)
    then show ?thesis using assms(4) Some by (cases "ro_result o'") (auto simp: object_value_def)
  qed
  have step: "r = (fetched rows h \<noteq> None, rs_set a (Some (obj\<lparr>ro_currentRow := map_option (Pair h) (fetched rows h)\<rparr>)) (rs_call (FetchRow h) s))"
    using assms(3) Some by (simp add: object_next_def)
  have val: "QueryResult_next (object_value rows obj) =
      (fetched rows h \<noteq> None, object_value rows' (obj\<lparr>ro_currentRow := map_option (Pair h) (fetched rows h)\<rparr>))"
    using assms(4) Some by (cases "rows h") (simp_all add: object_value_def fetched_def)
  have "object_values rows' s b = object_values rows s b" if "b \<noteq> a" for b
    using other [OF _ that] by (cases "rs_objects s b") (simp_all add: object_values_def)
  then show ?thesis unfolding step val by (auto simp: fun_eq_iff)
qed

lemma object_column:
  "column (object_value rows obj) i =
     (case ro_currentRow obj of None \<Rightarrow> None
      | Some (h, r) \<Rightarrow> if i < 0 then None else if nat i < length r then r ! nat i else None)"
  by (auto simp: column_def object_value_def split: option.split)

subsection \<open>MySQL objects\<close>

text \<open>
  The calls of libmysqlclient a connection makes, over a state \<open>'d\<close>: \<open>mysql_init\<close> (\<open>None\<close>: the null
  pointer), \<open>mysql_real_connect\<close> (host, user, password, database, port), \<open>mysql_set_character_set\<close>,
  whose answer is ignored, and \<open>mysql_close\<close>.
\<close>

record 'd mysql_lib =
  lib_init :: "'d \<Rightarrow> handle option \<times> 'd"
  lib_real_connect :: "handle option \<Rightarrow> string \<Rightarrow> string \<Rightarrow> string \<Rightarrow> string \<Rightarrow> 16 word \<Rightarrow> 'd \<Rightarrow> bool \<times> 'd"
  lib_set_character_set :: "handle option \<Rightarrow> string \<Rightarrow> 'd \<Rightarrow> 'd"
  lib_close :: "handle \<Rightarrow> 'd \<Rightarrow> 'd"

record mysql_object =
  mo_conn :: "handle option"

definition MySQL_new :: "'d mysql_lib \<Rightarrow> ('d, mysql_object) state" where
  "MySQL_new L = do { h \<leftarrow> State (lib_init L); return \<lparr>mo_conn = h\<rparr> }"

definition MySQL_delete :: "'d mysql_lib \<Rightarrow> mysql_object \<Rightarrow> ('d, unit) state" where
  "MySQL_delete L m = (case mo_conn m of None \<Rightarrow> return () | Some h \<Rightarrow> modify (lib_close L h))"

definition MySQL_connect :: "'d mysql_lib \<Rightarrow> mysql_object \<Rightarrow> string \<Rightarrow> 16 word \<Rightarrow> string \<Rightarrow> string \<Rightarrow> string \<Rightarrow>
    ('d, bool) state" where
  "MySQL_connect L m ip port user password dbname = do {
     ok \<leftarrow> State (lib_real_connect L (mo_conn m) (c_str ip) (c_str user) (c_str password) (c_str dbname) port);
     if ok then do { _ \<leftarrow> modify (lib_set_character_set L (mo_conn m) ''utf8''); return True }
     else return False }"

text \<open>\<open>ConnectionPool::createConnection\<close> on these calls, and the deletion of the connections left in the queue.\<close>

definition pool_createConnection :: "'d mysql_lib \<Rightarrow> db_config \<Rightarrow> ('d, mysql_object option) state" where
  "pool_createConnection L cfg = do {
     conn \<leftarrow> MySQL_new L;
     ok \<leftarrow> MySQL_connect L conn (db_ip cfg) (db_port cfg) (db_username cfg) (db_password cfg) (db_dbname cfg);
     if ok then return (Some conn)
     else do { _ \<leftarrow> MySQL_delete L conn; return None } }"

definition delete_queue :: "'d mysql_lib \<Rightarrow> mysql_object list \<Rightarrow> ('d, unit) state" where
  "delete_queue L conns = for_each (MySQL_delete L) conns"

text \<open>The documented effect of these calls on the set of open handles.\<close>

definition tracks_handles :: "'d mysql_lib \<Rightarrow> ('d \<Rightarrow> handle set) \<Rightarrow> bool" where
  "tracks_handles L opened \<longleftrightarrow>
     (\<forall>d. case lib_init L d of (None, d') \<Rightarrow> opened d' = opened d
        | (Some h, d') \<Rightarrow> h \<notin> opened d \<and> opened d' = insert h (opened d)) \<and>
     (\<forall>h i u p n q d. opened (snd (lib_real_connect L h i u p n q d)) = opened d) \<and>
     (\<forall>h c d. opened (lib_set_character_set L h c d) = opened d) \<and>
     (\<forall>h d. opened (lib_close L h d) = opened d - {h})"

lemma tracks_handlesD:
  assumes "tracks_handles L opened"
  shows "lib_init L d = (h, d') \<Longrightarrow> set_option h \<inter> opened d = {} \<and> opened d' = set_option h \<union> opened d"
    and "lib_real_connect L h i u p n q d = (b, d') \<Longrightarrow> opened d' = opened d"
    and "opened (lib_set_character_set L h c d) = opened d"
    and "opened (st_after (MySQL_delete L m) d) = opened d - set_option (mo_conn m)"
proof -
  note t = assms [unfolded tracks_handles_def]
  show "set_option h \<inter> opened d = {} \<and> opened d' = set_option h \<union> opened d" if i: "lib_init L d = (h, d')"
    using t [THEN conjunct1, THEN spec, of d] unfolding i by (cases h) simp_all
  show "opened d' = opened d" if c: "lib_real_connect L h i u p n q d = (b, d')"
    using t [THEN conjunct2, THEN conjunct1, THEN spec, THEN spec, THEN spec, THEN spec, THEN spec, THEN spec, THEN spec, of h i u p n q d]
    unfolding c by simp
  show "opened (lib_set_character_set L h c d) = opened d" using t by blast
  show "opened (st_after (MySQL_delete L m) d) = opened d - set_option (mo_conn m)"
    using t by (cases "mo_conn m") (simp_all add: MySQL_delete_def)
qed

lemma createConnection_handles:
  assumes "tracks_handles L opened" and "run_state (pool_createConnection L cfg) d = (r, d')"
  shows "opened d' = opened d \<union> (case r of None \<Rightarrow> {} | Some conn \<Rightarrow> set_option (mo_conn conn))"
    and "r = Some conn \<Longrightarrow> set_option (mo_conn conn) \<inter> opened d = {}"
proof -
  obtain h d1 where i: "lib_init L d = (h, d1)" by fastforce
  obtain ok d2 where c: "lib_real_connect L h (c_str (db_ip cfg)) (c_str (db_username cfg)) (c_str (db_password cfg))
      (c_str (db_dbname cfg)) (db_port cfg) d1 = (ok, d2)" by fastforce
  note t = tracks_handlesD [OF assms(1)]
  have o: "set_option h \<inter> opened d = {}" "opened d2 = set_option h \<union> opened d"
    using t(1) [OF i] t(2) [OF c] by simp_all
  have "(r, d') = (if ok then (Some \<lparr>mo_conn = h\<rparr>, lib_set_character_set L h ''utf8'' d2)
      else (None, st_after (MySQL_delete L \<lparr>mo_conn = h\<rparr>) d2))"
    using assms(2) by (simp add: pool_createConnection_def MySQL_new_def MySQL_connect_def i c split: prod.splits if_splits)
  then show "opened d' = opened d \<union> (case r of None \<Rightarrow> {} | Some conn \<Rightarrow> set_option (mo_conn conn))"
    and "r = Some conn \<Longrightarrow> set_option (mo_conn conn) \<inter> opened d = {}"
    using o t(3,4) by (auto split: if_splits)
qed

text \<open>The loop of the pool's constructor over these calls; \<open>None\<close> is \<open>std::exit(EXIT_FAILURE)\<close>.\<close>

fun create_connections :: "'d mysql_lib \<Rightarrow> db_config \<Rightarrow> nat \<Rightarrow> ('d, mysql_object list option) state" where
  "create_connections L cfg 0 = return (Some [])"
| "create_connections L cfg (Suc n) = do {
     conn \<leftarrow> pool_createConnection L cfg;
     case conn of None \<Rightarrow> return None
     | Some conn \<Rightarrow> do { rest \<leftarrow> create_connections L cfg n; return (map_option (\<lambda>cs. conn # cs) rest) } }"

definition handles_of :: "mysql_object list \<Rightarrow> handle multiset" where
  "handles_of conns = (\<Sum>conn \<in># mset conns. mset_set (set_option (mo_conn conn)))"

lemma handles_of_simps [simp]:
  "handles_of [] = {#}"
  "handles_of (conn # conns) = mset_set (set_option (mo_conn conn)) + handles_of conns"
  "handles_of (conns @ conns') = handles_of conns + handles_of conns'"
  by (simp_all add: handles_of_def)

lemma handles_of_remove1:
  "conn \<in> set conns \<Longrightarrow> handles_of conns = mset_set (set_option (mo_conn conn)) + handles_of (remove1 conn conns)"
  by (induction conns) (auto simp: add_ac)

text \<open>
  What the calls keep: the handles of the connections \<open>conns\<close> are open, each belongs to one of them,
  and the others that are open were so before (\<open>base\<close>).
\<close>

definition owns :: "('d \<Rightarrow> handle set) \<Rightarrow> handle set \<Rightarrow> handle multiset \<Rightarrow> 'd \<Rightarrow> bool" where
  "owns opened base H d \<longleftrightarrow> opened d = base \<union> set_mset H \<and> base \<inter> set_mset H = {} \<and> (\<forall>h. count H h \<le> 1)"

lemma owns_createConnection:
  assumes "tracks_handles L opened" and "run_state (pool_createConnection L cfg) d = (r, d')" and "owns opened base H d"
  shows "owns opened base (H + (case r of None \<Rightarrow> {#} | Some conn \<Rightarrow> mset_set (set_option (mo_conn conn)))) d'"
proof (cases r)
  case None
  with assms createConnection_handles(1) [OF assms(1,2)] show ?thesis by (simp add: owns_def)
next
  case (Some conn)
  with assms createConnection_handles [OF assms(1,2)] show ?thesis
    by (cases "mo_conn conn") (auto simp: owns_def count_eq_zero_iff)
qed

lemma owns_delete:
  assumes "tracks_handles L opened" and "owns opened base (mset_set (set_option (mo_conn conn)) + H) d"
  shows "owns opened base H (st_after (MySQL_delete L conn) d)"
proof (cases "mo_conn conn")
  case None
  with assms(2) tracks_handlesD(4) [OF assms(1), of conn d] show ?thesis by (simp add: owns_def)
next
  case (Some h)
  with assms(2) have "count (add_mset h H) k \<le> 1" for k by (simp add: owns_def)
  from this [of h] this have c: "count H h = 0" "\<And>k. count H k \<le> 1"
    by (simp, metis count_add_mset le_SucI nat_le_linear not_less_eq_eq One_nat_def)
  with assms(2) Some tracks_handlesD(4) [OF assms(1), of conn d] show ?thesis
    by (auto simp: owns_def count_eq_zero_iff)
qed

lemma owns_create_connections:
  assumes "tracks_handles L opened" and "run_state (create_connections L cfg n) d = (Some conns, d')" and "owns opened base H d"
  shows "length conns = n \<and> owns opened base (H + handles_of conns) d'"
  using assms(2,3)
proof (induction n arbitrary: d conns H)
  case 0
  then show ?case by simp
next
  case (Suc n)
  obtain r d1 where c: "run_state (pool_createConnection L cfg) d = (r, d1)" by fastforce
  obtain rest d2 where l: "run_state (create_connections L cfg n) d1 = (rest, d2)" by fastforce
  from Suc.prems(1) c l obtain conn cs where "r = Some conn" "rest = Some cs" "conns = conn # cs" "d' = d2"
    by (cases r; cases rest) auto
  with Suc.IH [of d1 cs "H + mset_set (set_option (mo_conn conn))"] l owns_createConnection [OF assms(1) c Suc.prems(2)]
  show ?case by (simp add: add.assoc)
qed

lemma owns_delete_queue:
  assumes "tracks_handles L opened" and "owns opened base (handles_of conns + H) d"
  shows "owns opened base H (st_after (delete_queue L conns) d)"
  using assms(2)
proof (induction conns arbitrary: d)
  case Nil
  then show ?case by (simp add: delete_queue_def)
next
  case (Cons conn conns)
  have "st_after (delete_queue L (conn # conns)) d = st_after (delete_queue L conns) (st_after (MySQL_delete L conn) d)"
    by (simp add: delete_queue_def st_after_for_each del: for_each.simps)
  moreover have "owns opened base (handles_of conns + H) (st_after (MySQL_delete L conn) d)"
    using Cons.prems by (intro owns_delete [OF assms(1)]) (simp add: add.assoc)
  ultimately show ?case by (simp add: Cons.IH)
qed

subsection \<open>The life of the pool over its handles\<close>

text \<open>
  The pool of \<open>ConnPool.thy\<close> with the calls of the library its threads make: the constructor, the
  deleter of the \<open>shared_ptr\<close>, the producer with a new connection in hand, and the end of the
  destructor. \<open>None\<close> of the constructor is \<open>std::exit\<close>, which leaves it to the operating system to
  close the connections made so far.
\<close>

definition pool_start :: "'d mysql_lib \<Rightarrow> bool \<times> connection_pool_config \<Rightarrow>
    ('d, mysql_object connection_pool option) state" where
  "pool_start L loaded = (case loaded of
     (False, _) \<Rightarrow> return None
   | (True, cfg) \<Rightarrow> do {
       conns \<leftarrow> create_connections L (dbConfig cfg) (nat (initSize (poolConfig cfg)));
       return (map_option (\<lambda>conns. \<lparr>cp_connectionQueue = conns, cp_borrowedCnt = 0,
         cp_connectionCnt = int (length conns), cp_isRunning = True, cp_poolConfig = poolConfig cfg,
         cp_producer = P_Top, cp_destructor = D_NotCalled, cp_lent = []\<rparr>) conns) })"

definition pool_deleter :: "'d mysql_lib \<Rightarrow> mysql_object \<Rightarrow> mysql_object connection_pool \<Rightarrow>
    ('d, mysql_object connection_pool) state" where
  "pool_deleter L conn p = do {
     _ \<leftarrow> (if cp_isRunning p then return () else MySQL_delete L conn);
     return (returnConnection conn p) }"

definition pool_push :: "'d mysql_lib \<Rightarrow> mysql_object \<Rightarrow> mysql_object connection_pool \<Rightarrow>
    ('d, mysql_object connection_pool) state" where
  "pool_push L conn p =
     (if \<not> cp_isRunning p then do { _ \<leftarrow> MySQL_delete L conn; return (producer_push conn p) }
      else if pool_full p then do { _ \<leftarrow> MySQL_delete L conn; return (producer_push conn p) }
      else return (producer_push conn p))"

definition pool_drain :: "'d mysql_lib \<Rightarrow> mysql_object connection_pool \<Rightarrow> ('d, mysql_object connection_pool) state" where
  "pool_drain L p = do {
     _ \<leftarrow> delete_queue L (cp_connectionQueue p);
     return (p\<lparr>cp_connectionQueue := [], cp_destructor := D_Done\<rparr>) }"

inductive pool_step :: "'d mysql_lib \<Rightarrow> db_config \<Rightarrow> mysql_object connection_pool \<Rightarrow> 'd \<Rightarrow>
    mysql_object connection_pool \<Rightarrow> 'd \<Rightarrow> bool" for L cfg where
  borrow: "mutex_free p \<Longrightarrow> getConnection t p = Some (r, p') \<Longrightarrow> pool_step L cfg p d p' d"
| give_back: "mutex_free p \<Longrightarrow> conn \<in> set (cp_lent p) \<Longrightarrow> run_state (pool_deleter L conn p) d = (p', d') \<Longrightarrow>
    pool_step L cfg p d p' d'"
| produce_top: "cp_producer p = P_Top \<Longrightarrow>
    pool_step L cfg p d (p\<lparr>cp_producer := (if cp_isRunning p then P_Check else P_Exit)\<rparr>) d"
| produce_check: "cp_producer p = P_Check \<Longrightarrow> pool_step L cfg p d (producer_check p) d"
| produce_wait: "cp_producer p = P_AboutToWait \<Longrightarrow> pool_step L cfg p d (p\<lparr>cp_producer := P_Waiting\<rparr>) d"
| produce_create: "cp_producer p = P_Create \<Longrightarrow> run_state (pool_createConnection L cfg) d = (r, d') \<Longrightarrow>
    pool_step L cfg p d (p\<lparr>cp_producer := (case r of None \<Rightarrow> P_Top | Some conn \<Rightarrow> P_Have conn)\<rparr>) d'"
| produce_push: "cp_producer p = P_Have conn \<Longrightarrow> run_state (pool_push L conn p) d = (p', d') \<Longrightarrow> pool_step L cfg p d p' d'"
| destroy_flag: "cp_destructor p = D_NotCalled \<Longrightarrow>
    pool_step L cfg p d (p\<lparr>cp_isRunning := False, cp_destructor := D_Flagged\<rparr>) d"
| destroy_notify: "cp_destructor p = D_Flagged \<Longrightarrow>
    pool_step L cfg p d ((notify_producer p)\<lparr>cp_destructor := D_Joining\<rparr>) d"
| destroy_join: "cp_destructor p = D_Joining \<Longrightarrow> cp_producer p = P_Exit \<Longrightarrow>
    pool_step L cfg p d (p\<lparr>cp_destructor := D_Draining\<rparr>) d"
| destroy_drain: "cp_destructor p = D_Draining \<Longrightarrow> mutex_free p \<Longrightarrow> cp_borrowedCnt p = 0 \<Longrightarrow>
    run_state (pool_drain L p) d = (p', d') \<Longrightarrow> pool_step L cfg p d p' d'"

inductive pool_run :: "'d mysql_lib \<Rightarrow> db_config \<Rightarrow> mysql_object connection_pool \<Rightarrow> 'd \<Rightarrow>
    mysql_object connection_pool \<Rightarrow> 'd \<Rightarrow> bool" for L cfg p0 d0 where
  start: "pool_run L cfg p0 d0 p0 d0"
| more: "pool_run L cfg p0 d0 p d \<Longrightarrow> pool_step L cfg p d p' d' \<Longrightarrow> pool_run L cfg p0 d0 p' d'"

text \<open>The connections in the pool: idle, lent, and in the hand of the producer.\<close>

definition producer_hand :: "'m producer_pc \<Rightarrow> 'm list" where
  "producer_hand pc = (case pc of P_Have conn \<Rightarrow> [conn] | _ \<Rightarrow> [])"

definition pool_connections :: "'m connection_pool \<Rightarrow> 'm list" where
  "pool_connections p = cp_connectionQueue p @ cp_lent p @ producer_hand (cp_producer p)"

definition pool_ended :: "'m connection_pool \<Rightarrow> bool" where
  "pool_ended p \<longleftrightarrow> (cp_destructor p \<noteq> D_NotCalled \<longrightarrow> \<not> cp_isRunning p) \<and>
     (cp_destructor p \<in> {D_Draining, D_Done} \<longrightarrow> cp_producer p = P_Exit) \<and>
     (cp_destructor p = D_Done \<longrightarrow> cp_connectionQueue p = []) \<and>
     (cp_destructor p = D_Done \<longrightarrow> cp_lent p = []) \<and> cp_borrowedCnt p = int (length (cp_lent p))"

definition pool_holds :: "('d \<Rightarrow> handle set) \<Rightarrow> handle set \<Rightarrow> mysql_object connection_pool \<Rightarrow> 'd \<Rightarrow> bool" where
  "pool_holds opened base p d \<longleftrightarrow> owns opened base (handles_of (pool_connections p)) d"

lemma producer_hand_simps [simp]:
  "producer_hand P_Top = []" "producer_hand P_Check = []" "producer_hand P_AboutToWait = []"
  "producer_hand P_Waiting = []" "producer_hand P_Create = []" "producer_hand (P_Have conn) = [conn]"
  "producer_hand P_Exit = []"
  by (simp_all add: producer_hand_def)

lemma producer_hand_notify [simp]: "producer_hand (cp_producer (notify_producer p)) = producer_hand (cp_producer p)"
  by (simp add: notify_producer_def)

lemma getConnection_holds:
  assumes "getConnection t p = Some (r, p')"
  shows "handles_of (pool_connections p') = handles_of (pool_connections p)" and "pool_ended p \<Longrightarrow> pool_ended p'"
proof -
  have "p' = p \<or> (\<exists>conn conns. cp_isRunning p \<and> cp_connectionQueue p = conn # conns \<and>
      (let p1 = p\<lparr>cp_connectionQueue := conns, cp_borrowedCnt := cp_borrowedCnt p + 1, cp_lent := conn # cp_lent p\<rparr>
       in p' = p1 \<or> p' = notify_producer p1))"
    using assms by (cases "cp_connectionQueue p") (auto simp: getConnection_def Let_def split: if_splits)
  then show "handles_of (pool_connections p') = handles_of (pool_connections p)" and "pool_ended p \<Longrightarrow> pool_ended p'"
    by (auto simp: pool_connections_def pool_ended_def add_ac Let_def)
qed

lemma pool_step_holds:
  assumes "tracks_handles L opened"
  shows "pool_step L cfg p d p' d' \<Longrightarrow> pool_ended p \<Longrightarrow> pool_holds opened base p d \<Longrightarrow>
    pool_ended p' \<and> pool_holds opened base p' d'"
proof (induction rule: pool_step.induct)
  case (borrow p t r p' d)
  then show ?case by (simp add: getConnection_holds pool_holds_def)
next
  case (give_back p conn d p' d')
  note h = handles_of_remove1 [OF give_back.hyps(2)]
  have "length (cp_lent p) \<ge> 1" using give_back.hyps(2) by (cases "cp_lent p") auto
  then have "int (length (remove1 conn (cp_lent p))) = int (length (cp_lent p)) - 1"
    using give_back.hyps(2) by (simp add: length_remove1 of_nat_diff)
  moreover have "owns opened base (handles_of (cp_connectionQueue p @ remove1 conn (cp_lent p) @ producer_hand (cp_producer p)))
      (st_after (MySQL_delete L conn) d)"
    using give_back.prems(2) by (intro owns_delete [OF assms]) (simp add: pool_holds_def pool_connections_def h add_ac)
  ultimately show ?case
    using give_back h by (auto simp: pool_deleter_def returnConnection_def pool_holds_def pool_connections_def pool_ended_def add_ac
      split: if_splits prod.splits)
next
  case (produce_create p d r d')
  with owns_createConnection [OF assms produce_create.hyps(2), of base "handles_of (cp_connectionQueue p @ cp_lent p)"]
  show ?case
    by (auto simp: pool_holds_def pool_connections_def pool_ended_def add_ac split: option.splits)
next
  case (produce_push p conn d p' d')
  have "owns opened base (handles_of (cp_connectionQueue p @ cp_lent p)) (st_after (MySQL_delete L conn) d)"
    using produce_push by (intro owns_delete [OF assms]) (simp add: pool_holds_def pool_connections_def add_ac)
  with produce_push show ?case
    by (auto simp: pool_push_def producer_push_def pool_holds_def pool_connections_def pool_ended_def add_ac
      split: if_splits prod.splits)
next
  case (destroy_drain p d p' d')
  have "owns opened base {#} (st_after (delete_queue L (cp_connectionQueue p)) d)"
    using destroy_drain by (intro owns_delete_queue [OF assms]) (simp add: pool_holds_def pool_connections_def pool_ended_def)
  with destroy_drain show ?case
    by (auto simp: pool_drain_def pool_holds_def pool_connections_def pool_ended_def split: prod.splits)
qed (auto simp: pool_ended_def pool_holds_def pool_connections_def producer_check_def split: if_splits)

lemma pool_run_holds:
  assumes "tracks_handles L opened" and "pool_run L cfg p0 d0 p d" and "pool_ended p0" and "pool_holds opened base p0 d0"
  shows "pool_ended p \<and> pool_holds opened base p d"
  using assms(2)
proof (induction rule: pool_run.induct)
  case start
  with assms(3,4) show ?case by simp
next
  case (more p d p' d')
  with pool_step_holds [OF assms(1) more.hyps(2)] show ?case by blast
qed

lemma pool_start_holds:
  assumes "tracks_handles L opened" and "run_state (pool_start L loaded) d0 = (Some p0, d1)"
  shows "pool_ended p0 \<and> pool_holds opened (opened d0) p0 d1"
proof -
  obtain cfg conns where l: "loaded = (True, cfg)"
    and c: "run_state (create_connections L (dbConfig cfg) (nat (initSize (poolConfig cfg)))) d0 = (Some conns, d1)"
    and p: "cp_connectionQueue p0 = conns" "cp_lent p0 = []" "cp_borrowedCnt p0 = 0" "cp_producer p0 = P_Top" "cp_destructor p0 = D_NotCalled"
    using assms(2) by (auto simp: pool_start_def split: prod.splits bool.splits)
  have "owns opened (opened d0) {#} d0" by (simp add: owns_def)
  from owns_create_connections [OF assms(1) c this] p show ?thesis
    by (simp add: pool_ended_def pool_holds_def pool_connections_def)
qed

text \<open>C26: the pool closes the connections it opens. From the start of the pool on, whatever the order of
  its borrowers, of its producer and of its destructor, and whichever connections the library refuses:
  the handles that are open beside those open before the start are those of the connections that are
  idle, lent or in the producer's hand, and each belongs to one of them, so none is lost, closed under
  its owner or closed twice. When the destructor is through, the same handles are open as before the
  start. A start that fails ends the process, which is not part of the statement.\<close>

theorem connection_handles_closed:
  assumes "tracks_handles L opened" and "run_state (pool_start L loaded) d0 = (Some p0, d1)"
    and "pool_run L (dbConfig (snd loaded)) p0 d1 p d"
  shows "let H = handles_of (pool_connections p)
    in opened d = opened d0 \<union> set_mset H \<and> opened d0 \<inter> set_mset H = {} \<and> (\<forall>h. count H h \<le> 1) \<and>
       (cp_destructor p = D_Done \<longrightarrow> opened d = opened d0)"
proof -
  from pool_start_holds [OF assms(1,2)] have "pool_ended p \<and> pool_holds opened (opened d0) p d"
    using pool_run_holds [OF assms(1,3)] by blast
  then show ?thesis
    by (auto simp: Let_def pool_holds_def owns_def pool_ended_def pool_connections_def)
qed

text \<open>A library that numbers its handles upwards from the open ones; the host \<open>db\<close> answers.\<close>

definition numbering_lib :: "handle list mysql_lib" where
  "numbering_lib = \<lparr>
     lib_init = (\<lambda>hs. (Some (Suc (sum_list hs)), Suc (sum_list hs) # hs)),
     lib_real_connect = (\<lambda>h host user password dbname port d. (host = ''db'', d)),
     lib_set_character_set = (\<lambda>h c d. d),
     lib_close = (\<lambda>h hs. filter (\<lambda>k. k \<noteq> h) hs)\<rparr>"

lemma numbering_lib_tracks: "tracks_handles numbering_lib set"
proof -
  have "Suc (sum_list hs) \<notin> set hs" for hs :: "nat list"
    using member_le_sum_list [of _ hs] by fastforce
  then show ?thesis by (auto simp: tracks_handles_def numbering_lib_def)
qed

text \<open>
  A run with a borrower and a producer that the destructor overtakes: the new connection and the lent
  one are closed by the threads that hold them, the idle one by the destructor.
\<close>

definition pool_example :: "bool \<times> connection_pool_config" where
  "pool_example = (True, (config_init 0)\<lparr>
     dbConfig := \<lparr>db_ip = ''db'', db_port = 3306, db_username = ''u'', db_password = ''p'', db_dbname = ''chat''\<rparr>,
     poolConfig := (poolConfig (config_init 0))\<lparr>initSize := 2, maxSize := 4\<rparr>\<rparr>)"

theorem connection_handles_closed_witness:
  "\<exists>p0 p. run_state (pool_start numbering_lib pool_example) [7] = (Some p0, [16, 8, 7]) \<and>
     pool_run numbering_lib (dbConfig (snd pool_example)) p0 [16, 8, 7] p [7] \<and>
     cp_destructor p = D_Done \<and> pool_connections p = []"
proof -
  let ?L = "numbering_lib" and ?cfg = "dbConfig (snd pool_example)"
  let ?a = "\<lparr>mo_conn = Some 8\<rparr>" and ?b = "\<lparr>mo_conn = Some 16\<rparr>" and ?c = "\<lparr>mo_conn = Some 32\<rparr>"
  let ?p0 = "\<lparr>cp_connectionQueue = [?a, ?b], cp_borrowedCnt = 0, cp_connectionCnt = 2, cp_isRunning = True,
     cp_poolConfig = poolConfig (snd pool_example), cp_producer = P_Top, cp_destructor = D_NotCalled, cp_lent = []\<rparr>"
  let ?p1 = "?p0\<lparr>cp_connectionQueue := [?b], cp_borrowedCnt := 1, cp_lent := [?a]\<rparr>"
  let ?p4 = "?p1\<lparr>cp_producer := P_Have ?c\<rparr>"
  let ?p5 = "?p4\<lparr>cp_isRunning := False, cp_destructor := D_Flagged\<rparr>"
  let ?p6 = "?p5\<lparr>cp_producer := P_Exit\<rparr>"
  let ?p7 = "?p6\<lparr>cp_borrowedCnt := 0, cp_lent := []\<rparr>"
  let ?p8 = "?p7\<lparr>cp_destructor := D_Joining\<rparr>"
  let ?p10 = "?p8\<lparr>cp_destructor := D_Done, cp_connectionQueue := []\<rparr>"
  note c = numbering_lib_def pool_example_def pool_createConnection_def MySQL_new_def MySQL_connect_def MySQL_delete_def
  have r0: "run_state (pool_start ?L pool_example) [7] = (Some ?p0, [16, 8, 7])"
    by (simp add: pool_start_def numeral_2_eq_2 c)
  have s1: "pool_step ?L ?cfg ?p0 [16, 8, 7] ?p1 [16, 8, 7]"
    by (rule pool_step.borrow [of _ False "Some ?a"])
      (simp_all add: mutex_free_def getConnection_def pool_example_def notify_producer_def Let_def)
  have s2: "pool_step ?L ?cfg ?p1 [16, 8, 7] (?p1\<lparr>cp_producer := P_Check\<rparr>) [16, 8, 7]"
    using pool_step.produce_top [of ?p1 ?L ?cfg] by simp
  have s3: "pool_step ?L ?cfg (?p1\<lparr>cp_producer := P_Check\<rparr>) [16, 8, 7] (?p1\<lparr>cp_producer := P_Create\<rparr>) [16, 8, 7]"
    using pool_step.produce_check [of "?p1\<lparr>cp_producer := P_Check\<rparr>" ?L ?cfg]
    by (simp add: producer_check_def pool_full_def pool_example_def)
  have s4: "pool_step ?L ?cfg (?p1\<lparr>cp_producer := P_Create\<rparr>) [16, 8, 7] ?p4 [32, 16, 8, 7]"
    using pool_step.produce_create [of "?p1\<lparr>cp_producer := P_Create\<rparr>" ?L ?cfg "[16, 8, 7]" "Some ?c"] by (simp add: c)
  have s5: "pool_step ?L ?cfg ?p4 [32, 16, 8, 7] ?p5 [32, 16, 8, 7]"
    using pool_step.destroy_flag [of ?p4 ?L ?cfg] by simp
  have s6: "pool_step ?L ?cfg ?p5 [32, 16, 8, 7] ?p6 [16, 8, 7]"
    by (rule pool_step.produce_push [of _ ?c]) (simp_all add: pool_push_def producer_push_def c)
  have s7: "pool_step ?L ?cfg ?p6 [16, 8, 7] ?p7 [16, 7]"
    by (rule pool_step.give_back [of _ ?a]) (simp_all add: mutex_free_def pool_deleter_def returnConnection_def c)
  have s8: "pool_step ?L ?cfg ?p7 [16, 7] ?p8 [16, 7]"
    using pool_step.destroy_notify [of ?p7 ?L ?cfg] by (simp add: notify_producer_def)
  have s9: "pool_step ?L ?cfg ?p8 [16, 7] (?p8\<lparr>cp_destructor := D_Draining\<rparr>) [16, 7]"
    using pool_step.destroy_join [of ?p8 ?L ?cfg] by simp
  have s10: "pool_step ?L ?cfg (?p8\<lparr>cp_destructor := D_Draining\<rparr>) [16, 7] ?p10 [7]"
    by (rule pool_step.destroy_drain) (simp_all add: mutex_free_def pool_drain_def delete_queue_def c)
  note m = pool_run.more [where L = ?L and cfg = ?cfg]
  have r: "pool_run ?L ?cfg ?p0 [16, 8, 7] ?p10 [7]"
    by (rule m [OF m [OF m [OF m [OF m [OF m [OF m [OF m [OF m [OF m [OF pool_run.start s1] s2] s3] s4] s5] s6] s7] s8] s9] s10])
  from connection_handles_closed [OF numbering_lib_tracks r0 r] r0 r show ?thesis
    by (intro exI [of _ ?p0] exI [of _ ?p10]) (simp add: Let_def pool_connections_def)
qed

end
