(* ===== verification/Models.thy ===== *)
theory Models
  imports Database
begin

text \<open>
  \<open>src/server/model\<close> and \<open>include/server/model\<close>: the entities and the classes that turn each
  operation into one SQL statement. The statements are the texts the code streams together; an
  integer is printed in decimal, a string goes in as it is, between quotes.
\<close>

subsection \<open>Entities\<close>

record user =
  u_id :: int
  u_name :: string
  u_password :: string
  u_state :: string

definition User :: user where
  "User = \<lparr>u_id = - 1, u_name = [], u_password = [], u_state = ''offline''\<rparr>"

record group_user = user +
  gu_role :: string

definition GroupUser :: group_user where
  "GroupUser = \<lparr>u_id = - 1, u_name = [], u_password = [], u_state = ''offline'', gu_role = []\<rparr>"

record chat_group =
  g_id :: int
  g_name :: string
  g_desc :: string
  g_users :: "group_user list"

definition Group :: "int \<Rightarrow> string \<Rightarrow> string \<Rightarrow> chat_group" where
  "Group gid name desc = \<lparr>g_id = gid, g_name = name, g_desc = desc, g_users = []\<rparr>"

datatype QueryStatus = Ok | NotFound | DbError

type_synonym bool_query_result = "QueryStatus \<times> bool"
type_synonym int_query_result = "QueryStatus \<times> int"
type_synonym request_status_result = "QueryStatus \<times> string"

subsection \<open>Statements\<close>

definition quoted :: "string \<Rightarrow> string" where
  "quoted s = CHR 0x27 # s @ [CHR 0x27]"

definition sql_user_insert :: "user \<Rightarrow> string" where
  "sql_user_insert u = ''insert into User(name,password,state) values('' @ quoted (u_name u) @ '',''
     @ quoted (u_password u) @ '','' @ quoted (u_state u) @ '')''"

definition sql_user_by_name :: "string \<Rightarrow> string" where
  "sql_user_by_name name = ''select * from User where name = '' @ quoted name"

definition sql_user_by_id :: "int \<Rightarrow> string" where
  "sql_user_by_id i = ''select * from User where id = '' @ quoted (show_int i)"

definition sql_user_update_state :: "user \<Rightarrow> string" where
  "sql_user_update_state u = ''update User set state = '' @ quoted (u_state u) @ '' where id = ''
     @ quoted (show_int (u_id u))"

definition sql_user_reset_state :: string where
  "sql_user_reset_state = ''update User set state = '' @ quoted ''offline'' @ '' where state = ''
     @ quoted ''online''"

definition sql_user_exists :: "int \<Rightarrow> string" where
  "sql_user_exists friendid = ''select * from User where id = '' @ show_int friendid"

definition sql_friend_exists :: "int \<Rightarrow> int \<Rightarrow> string" where
  "sql_friend_exists userid friendid = ''select * from Friend where userid = '' @ show_int userid
     @ '' and friendid = '' @ show_int friendid"

definition sql_friend_insert :: "int \<Rightarrow> int \<Rightarrow> string" where
  "sql_friend_insert i friendid = ''insert into Friend value ('' @ quoted (show_int i) @ '',''
     @ quoted (show_int friendid) @ '')''"

definition sql_friend_query :: "int \<Rightarrow> string" where
  "sql_friend_query userid = ''select User.id,User.name,User.state from User inner join ''
     @ ''Friend on User.id = Friend.friendid where Friend.userid = '' @ show_int userid"

definition sql_friend_request_insert :: "int \<Rightarrow> int \<Rightarrow> string" where
  "sql_friend_request_insert userid targetid =
     ''insert into FriendRequest (requester_id, target_id,status) values ('' @ show_int userid @ '',''
     @ show_int targetid @ '','' @ quoted ''pending'' @ '');''"

definition sql_friend_request_status :: "int \<Rightarrow> int \<Rightarrow> string" where
  "sql_friend_request_status userid targetid = ''select status from FriendRequest where requester_id = ''
     @ show_int userid @ '' and target_id = '' @ show_int targetid @ '';''"

definition sql_friend_request_update :: "int \<Rightarrow> int \<Rightarrow> string \<Rightarrow> string \<Rightarrow> string" where
  "sql_friend_request_update userid targetid status handled_at =
     ''update FriendRequest set status = '' @ quoted status @ '', handled_at = '' @ handled_at
     @ '' where requester_id = '' @ show_int userid @ '' and target_id = '' @ show_int targetid @ '';''"

definition sql_group_by_name :: "string \<Rightarrow> string" where
  "sql_group_by_name name = ''select * from AllGroup where groupname = '' @ quoted name"

definition sql_group_by_id :: "int \<Rightarrow> string" where
  "sql_group_by_id groupid = ''select id from AllGroup where id = '' @ show_int groupid"

definition sql_group_insert :: "chat_group \<Rightarrow> string" where
  "sql_group_insert g = ''insert into AllGroup (groupname , groupdesc) value ('' @ quoted (g_name g)
     @ '','' @ quoted (g_desc g) @ '')''"

definition sql_group_user_insert :: "int \<Rightarrow> int \<Rightarrow> string \<Rightarrow> string" where
  "sql_group_user_insert userid groupid role = ''insert into GroupUser value ('' @ show_int groupid
     @ '','' @ show_int userid @ '','' @ quoted role @ '')''"

definition sql_group_user_exists :: "int \<Rightarrow> int \<Rightarrow> string" where
  "sql_group_user_exists userid groupid = ''select * from GroupUser where userid = ''
     @ quoted (show_int userid) @ '' and groupid = '' @ quoted (show_int groupid)"

definition sql_group_owner :: "int \<Rightarrow> string" where
  "sql_group_owner groupid = ''select userid from GroupUser where groupid = '' @ show_int groupid
     @ '' and grouprole = '' @ quoted ''creator''"

definition sql_group_name :: "int \<Rightarrow> string" where
  "sql_group_name groupid = ''select groupname from AllGroup where id = '' @ show_int groupid"

definition sql_groups_of_user :: "int \<Rightarrow> string" where
  "sql_groups_of_user userid = ''select a.id,a.groupname,a.groupdesc from AllGroup a inner join ''
     @ ''GroupUser b on a.id = b.groupid where b.userid = '' @ show_int userid"

definition sql_group_members :: "int \<Rightarrow> string" where
  "sql_group_members groupid = ''select a.id,a.name,a.state,b.grouprole from User a inner join ''
     @ ''GroupUser b on a.id = b.userid where b.groupid = '' @ show_int groupid"

definition sql_group_other_users :: "int \<Rightarrow> int \<Rightarrow> string" where
  "sql_group_other_users userid groupid = ''select userid from GroupUser where groupid = ''
     @ show_int groupid @ '' and userid != '' @ show_int userid"

definition sql_group_request_insert :: "int \<Rightarrow> int \<Rightarrow> string" where
  "sql_group_request_insert userid groupid =
     ''insert into GroupRequest (requester_id, group_id, status) values ('' @ show_int userid @ '',''
     @ show_int groupid @ '', '' @ quoted ''pending'' @ '');''"

definition sql_group_request_status :: "int \<Rightarrow> int \<Rightarrow> string" where
  "sql_group_request_status userid groupid = ''select status from GroupRequest where requester_id = ''
     @ show_int userid @ '' and group_id = '' @ show_int groupid @ '';''"

definition sql_group_request_update :: "int \<Rightarrow> int \<Rightarrow> string \<Rightarrow> string \<Rightarrow> string" where
  "sql_group_request_update userid groupid status handled_at =
     ''update GroupRequest set status = '' @ quoted status @ '', handled_at = '' @ handled_at
     @ '' where requester_id = '' @ show_int userid @ '' and group_id = '' @ show_int groupid @ '';''"

definition sql_offline_insert :: "int \<Rightarrow> string \<Rightarrow> string" where
  "sql_offline_insert userid msg = ''insert into OfflineMessage value ('' @ quoted (show_int userid)
     @ '','' @ quoted msg @ '')''"

definition sql_offline_delete :: "int \<Rightarrow> string" where
  "sql_offline_delete userid = ''delete from OfflineMessage where userid = '' @ quoted (show_int userid)"

definition sql_offline_query :: "int \<Rightarrow> string" where
  "sql_offline_query userid = ''select message from OfflineMessage where userid = '' @ quoted (show_int userid)"

subsection \<open>UserModel\<close>

text \<open>\<open>insert(User &user)\<close>: whether it succeeded, and the user, which then has the new id.\<close>

definition UserModel_insert :: "'d outside \<Rightarrow> user \<Rightarrow> ('d, bool \<times> user) state" where
  "UserModel_insert E user = do {
     session \<leftarrow> DbSession E;
     ok \<leftarrow> DbSession_update E session (sql_user_insert user);
     if ok then do {
       i \<leftarrow> DbSession_lastInsertId E session;
       return (True, user\<lparr>u_id := to_int32 i\<rparr>) }
     else return (False, user) }"

definition read_user :: "query_result \<Rightarrow> user" where
  "read_user r = User\<lparr>u_id := QueryResult_getInt r 0, u_name := QueryResult_getString r 1,
     u_password := QueryResult_getString r 2, u_state := QueryResult_getString r 3\<rparr>"

definition UserModel_query_name :: "'d outside \<Rightarrow> string \<Rightarrow> ('d, user) state" where
  "UserModel_query_name E name = do {
     result \<leftarrow> run_query E (sql_user_by_name name);
     return (if qr_valid result
       then (case QueryResult_next result of (True, r) \<Rightarrow> read_user r | (False, _) \<Rightarrow> User)
       else User) }"

definition UserModel_query_id :: "'d outside \<Rightarrow> int \<Rightarrow> ('d, user) state" where
  "UserModel_query_id E i = do {
     result \<leftarrow> run_query E (sql_user_by_id i);
     return (if qr_valid result
       then (case QueryResult_next result of
               (True, r) \<Rightarrow> User\<lparr>u_id := QueryResult_getInt r 0, u_name := QueryResult_getString r 1,
                               u_state := QueryResult_getString r 3\<rparr>
             | (False, _) \<Rightarrow> User)
       else User) }"

definition UserModel_updateState :: "'d outside \<Rightarrow> user \<Rightarrow> ('d, bool) state" where
  "UserModel_updateState E user = run_update E (sql_user_update_state user)"

definition UserModel_resetState :: "'d outside \<Rightarrow> ('d, unit) state" where
  "UserModel_resetState E = do { _ \<leftarrow> run_update E sql_user_reset_state; return () }"

subsection \<open>FriendModel\<close>

text \<open>\<open>result.valid() && result.next()\<close>.\<close>

definition has_row :: "query_result \<Rightarrow> bool" where
  "has_row result \<longleftrightarrow> qr_valid result \<and> fst (QueryResult_next result)"

definition FriendModel_isUserExist :: "'d outside \<Rightarrow> int \<Rightarrow> ('d, bool) state" where
  "FriendModel_isUserExist E friendid = do {
     result \<leftarrow> run_query E (sql_user_exists friendid); return (has_row result) }"

definition FriendModel_isFriend :: "'d outside \<Rightarrow> int \<Rightarrow> int \<Rightarrow> ('d, bool) state" where
  "FriendModel_isFriend E userid friendid = do {
     result \<leftarrow> run_query E (sql_friend_exists userid friendid); return (has_row result) }"

definition FriendModel_insert :: "'d outside \<Rightarrow> int \<Rightarrow> int \<Rightarrow> ('d, unit) state" where
  "FriendModel_insert E i friendid = do { _ \<leftarrow> run_update E (sql_friend_insert i friendid); return () }"

definition read_friend :: "query_result \<Rightarrow> user" where
  "read_friend r = User\<lparr>u_id := QueryResult_getInt r 0, u_name := QueryResult_getString r 1,
     u_state := QueryResult_getString r 2\<rparr>"

definition FriendModel_query :: "'d outside \<Rightarrow> int \<Rightarrow> ('d, user list) state" where
  "FriendModel_query E userid = do {
     result \<leftarrow> run_query E (sql_friend_query userid);
     return (if qr_valid result then fetch_loop read_friend result else []) }"

subsection \<open>FriendRequestModel\<close>

definition FriendRequestModel_addFriendRequest :: "'d outside \<Rightarrow> int \<Rightarrow> int \<Rightarrow> ('d, bool) state" where
  "FriendRequestModel_addFriendRequest E userid targetid =
     run_update E (sql_friend_request_insert userid targetid)"

definition FriendRequestModel_isPendingRequest :: "'d outside \<Rightarrow> int \<Rightarrow> int \<Rightarrow> ('d, bool_query_result) state" where
  "FriendRequestModel_isPendingRequest E userid targetid = do {
     result \<leftarrow> run_query E (sql_friend_request_status userid targetid);
     return (if \<not> qr_valid result then (DbError, False)
       else (case QueryResult_next result of
               (True, r) \<Rightarrow> if QueryResult_getString r 0 = ''pending'' then (Ok, True) else (NotFound, False)
             | (False, _) \<Rightarrow> (NotFound, False))) }"

definition FriendRequestModel_updateRequestStatus ::
  "'d outside \<Rightarrow> int \<Rightarrow> int \<Rightarrow> string \<Rightarrow> ('d, bool) state" where
  "FriendRequestModel_updateRequestStatus E userid targetid status =
     (if status = ''accepted'' \<or> status = ''rejected''
      then run_update E (sql_friend_request_update userid targetid status ''now()'')
      else if status = ''pending''
      then run_update E (sql_friend_request_update userid targetid status ''null'')
      else return False)"

definition FriendRequestModel_queryRequestStatus ::
  "'d outside \<Rightarrow> int \<Rightarrow> int \<Rightarrow> ('d, request_status_result) state" where
  "FriendRequestModel_queryRequestStatus E userid targetid = do {
     result \<leftarrow> run_query E (sql_friend_request_status userid targetid);
     return (if \<not> qr_valid result then (DbError, [])
       else (case QueryResult_next result of
               (True, r) \<Rightarrow> (Ok, QueryResult_getString r 0)
             | (False, _) \<Rightarrow> (NotFound, []))) }"

subsection \<open>GroupModel\<close>

definition exists_result :: "query_result \<Rightarrow> bool_query_result" where
  "exists_result result = (if \<not> qr_valid result then (DbError, False)
     else if fst (QueryResult_next result) then (Ok, True) else (NotFound, False))"

definition GroupModel_isGroupExist_name :: "'d outside \<Rightarrow> string \<Rightarrow> ('d, bool_query_result) state" where
  "GroupModel_isGroupExist_name E name = do {
     result \<leftarrow> run_query E (sql_group_by_name name); return (exists_result result) }"

definition GroupModel_isGroupExist_id :: "'d outside \<Rightarrow> int \<Rightarrow> ('d, bool_query_result) state" where
  "GroupModel_isGroupExist_id E groupid = do {
     result \<leftarrow> run_query E (sql_group_by_id groupid); return (exists_result result) }"

definition GroupModel_createGroup :: "'d outside \<Rightarrow> chat_group \<Rightarrow> ('d, bool \<times> chat_group) state" where
  "GroupModel_createGroup E grp = do {
     session \<leftarrow> DbSession E;
     ok \<leftarrow> DbSession_update E session (sql_group_insert grp);
     if ok then do {
       i \<leftarrow> DbSession_lastInsertId E session;
       return (True, grp\<lparr>g_id := to_int32 i\<rparr>) }
     else return (False, grp) }"

definition GroupModel_addGroup :: "'d outside \<Rightarrow> int \<Rightarrow> int \<Rightarrow> string \<Rightarrow> ('d, unit) state" where
  "GroupModel_addGroup E userid groupid role = do {
     _ \<leftarrow> run_update E (sql_group_user_insert userid groupid role); return () }"

definition GroupModel_isUserInGroup :: "'d outside \<Rightarrow> int \<Rightarrow> int \<Rightarrow> ('d, bool_query_result) state" where
  "GroupModel_isUserInGroup E userid groupid = do {
     result \<leftarrow> run_query E (sql_group_user_exists userid groupid); return (exists_result result) }"

definition GroupModel_queryGroupOwnerId :: "'d outside \<Rightarrow> int \<Rightarrow> ('d, int_query_result) state" where
  "GroupModel_queryGroupOwnerId E groupid = do {
     result \<leftarrow> run_query E (sql_group_owner groupid);
     return (if \<not> qr_valid result then (DbError, - 1)
       else (case QueryResult_next result of
               (True, r) \<Rightarrow> (Ok, QueryResult_getInt r 0)
             | (False, _) \<Rightarrow> (NotFound, - 1))) }"

definition GroupModel_queryGroupName :: "'d outside \<Rightarrow> int \<Rightarrow> ('d, string) state" where
  "GroupModel_queryGroupName E groupid = do {
     result \<leftarrow> run_query E (sql_group_name groupid);
     return (if qr_valid result
       then (case QueryResult_next result of (True, r) \<Rightarrow> QueryResult_getString r 0 | (False, _) \<Rightarrow> [])
       else []) }"

definition read_group :: "query_result \<Rightarrow> chat_group" where
  "read_group r = (Group (- 1) [] [])\<lparr>g_id := QueryResult_getInt r 0, g_name := QueryResult_getString r 1,
     g_desc := QueryResult_getString r 2\<rparr>"

definition read_member :: "query_result \<Rightarrow> group_user" where
  "read_member r = GroupUser\<lparr>u_id := QueryResult_getInt r 0, u_name := QueryResult_getString r 1,
     u_state := QueryResult_getString r 2, gu_role := QueryResult_getString r 3\<rparr>"

text \<open>The second loop of \<open>queryGroup\<close>: one query for the members of each group.\<close>

fun load_members :: "'d outside \<Rightarrow> chat_group list \<Rightarrow> ('d, chat_group list) state" where
  "load_members E [] = return []"
| "load_members E (grp # grps) = do {
     memberResult \<leftarrow> run_query E (sql_group_members (g_id grp));
     let grp' = (if qr_valid memberResult
       then grp\<lparr>g_users := g_users grp @ fetch_loop read_member memberResult\<rparr> else grp);
     rest \<leftarrow> load_members E grps;
     return (grp' # rest) }"

definition GroupModel_queryGroup :: "'d outside \<Rightarrow> int \<Rightarrow> ('d, chat_group list) state" where
  "GroupModel_queryGroup E userid = do {
     result \<leftarrow> run_query E (sql_groups_of_user userid);
     load_members E (if qr_valid result then fetch_loop read_group result else []) }"

definition GroupModel_queryGroupUsers :: "'d outside \<Rightarrow> int \<Rightarrow> int \<Rightarrow> ('d, int list) state" where
  "GroupModel_queryGroupUsers E userid groupid = do {
     result \<leftarrow> run_query E (sql_group_other_users userid groupid);
     return (if qr_valid result then fetch_loop (\<lambda>r. QueryResult_getInt r 0) result else []) }"

subsection \<open>GroupRequestModel\<close>

definition GroupRequestModel_addGroupRequest :: "'d outside \<Rightarrow> int \<Rightarrow> int \<Rightarrow> ('d, bool) state" where
  "GroupRequestModel_addGroupRequest E userid groupid =
     run_update E (sql_group_request_insert userid groupid)"

definition GroupRequestModel_isPendingRequest :: "'d outside \<Rightarrow> int \<Rightarrow> int \<Rightarrow> ('d, bool) state" where
  "GroupRequestModel_isPendingRequest E userid groupid = do {
     result \<leftarrow> run_query E (sql_group_request_status userid groupid);
     return (if \<not> qr_valid result then False
       else (case QueryResult_next result of
               (True, r) \<Rightarrow> QueryResult_getString r 0 = ''pending''
             | (False, _) \<Rightarrow> False)) }"

definition GroupRequestModel_updateRequestStatus ::
  "'d outside \<Rightarrow> int \<Rightarrow> int \<Rightarrow> string \<Rightarrow> ('d, bool) state" where
  "GroupRequestModel_updateRequestStatus E userid groupid status =
     (if status = ''accepted'' \<or> status = ''rejected''
      then run_update E (sql_group_request_update userid groupid status ''now()'')
      else if status = ''pending''
      then run_update E (sql_group_request_update userid groupid status ''null'')
      else return False)"

definition GroupRequestModel_queryRequestStatus ::
  "'d outside \<Rightarrow> int \<Rightarrow> int \<Rightarrow> ('d, request_status_result) state" where
  "GroupRequestModel_queryRequestStatus E userid groupid = do {
     result \<leftarrow> run_query E (sql_group_request_status userid groupid);
     return (if \<not> qr_valid result then (DbError, [])
       else (case QueryResult_next result of
               (True, r) \<Rightarrow> (Ok, QueryResult_getString r 0)
             | (False, _) \<Rightarrow> (NotFound, []))) }"

subsection \<open>OfflineMsgModel\<close>

definition OfflineMsgModel_insert :: "'d outside \<Rightarrow> int \<Rightarrow> string \<Rightarrow> ('d, unit) state" where
  "OfflineMsgModel_insert E userid msg = do { _ \<leftarrow> run_update E (sql_offline_insert userid msg); return () }"

definition OfflineMsgModel_remove :: "'d outside \<Rightarrow> int \<Rightarrow> ('d, unit) state" where
  "OfflineMsgModel_remove E userid = do { _ \<leftarrow> run_update E (sql_offline_delete userid); return () }"

definition OfflineMsgModel_query :: "'d outside \<Rightarrow> int \<Rightarrow> ('d, string list) state" where
  "OfflineMsgModel_query E userid = do {
     result \<leftarrow> run_query E (sql_offline_query userid);
     return (if qr_valid result then fetch_loop (\<lambda>r. QueryResult_getString r 0) result else []) }"

end
