(* ===== verification/Protocol.thy ===== *)
theory Protocol
  imports Prelude
begin

text \<open>
  \<open>include/public.hpp\<close>: the message kinds the server and the client share, with their numbers.
\<close>

datatype EnMsgType =
    LOGIN_MSG | LOG_MSG_ACK | LOGINOUT_MSG | REG_MSG | REG_MSG_ACK | ONE_CHAT_MSG | ONE_CHAT_MSG_ACK
  | ADD_FRIEND_REQUEST | ADD_FRIEND_HANDLE | ADD_FRIEND_RESPONSE | CREATE_GROUP_MSG
  | CREATE_GROUP_MSG_ACK | ADD_GROUP_MSG | ADD_GROUP_HANDLE | ADD_GROUP_RESPONSE | GROUP_CHAT_MSG

fun msg_id :: "EnMsgType \<Rightarrow> int" where
  "msg_id LOGIN_MSG = 1"
| "msg_id LOG_MSG_ACK = 2"
| "msg_id LOGINOUT_MSG = 3"
| "msg_id REG_MSG = 4"
| "msg_id REG_MSG_ACK = 5"
| "msg_id ONE_CHAT_MSG = 6"
| "msg_id ONE_CHAT_MSG_ACK = 7"
| "msg_id ADD_FRIEND_REQUEST = 8"
| "msg_id ADD_FRIEND_HANDLE = 9"
| "msg_id ADD_FRIEND_RESPONSE = 10"
| "msg_id CREATE_GROUP_MSG = 11"
| "msg_id CREATE_GROUP_MSG_ACK = 12"
| "msg_id ADD_GROUP_MSG = 13"
| "msg_id ADD_GROUP_HANDLE = 14"
| "msg_id ADD_GROUP_RESPONSE = 15"
| "msg_id GROUP_CHAT_MSG = 16"

lemma msg_id_inj [simp]: "msg_id a = msg_id b \<longleftrightarrow> a = b"
  by (cases a; cases b) simp_all

lemma msg_id_range [simp]: "int32_range (msg_id m)"
  by (cases m) (simp_all add: int32_range_def)

text \<open>The kinds a client sends, and those only the server sends.\<close>

definition server_only :: "EnMsgType \<Rightarrow> bool" where
  "server_only m \<longleftrightarrow> m \<in> {LOG_MSG_ACK, REG_MSG_ACK, ONE_CHAT_MSG_ACK, ADD_FRIEND_RESPONSE,
     CREATE_GROUP_MSG_ACK, ADD_GROUP_RESPONSE}"

end
