(* ===== verification/Line_Interface.thy ===== *)
theory Line_Interface
  imports Prelude
begin

text \<open>
  The interface of a line reader, which the server and the client both are: a buffer of received
  bytes, and a loop that cuts complete lines off its front and hands each to a handler, which may
  end the loop. The lemmas of the locale say what the loop does with a stream; \<open>ChatServer.thy\<close> and
  \<open>Client.thy\<close> interpret it on the code's loops.
\<close>

subsection \<open>Lines of a byte stream\<close>

text \<open>The complete lines of a stream and what follows the last newline.\<close>

fun split_lines :: "string \<Rightarrow> string list \<times> string" where
  "split_lines [] = ([], [])"
| "split_lines (c # s) = (case split_lines s of (ls, r) \<Rightarrow>
     if c = newline then ([] # ls, r)
     else (case ls of [] \<Rightarrow> ([], c # r) | l # ls' \<Rightarrow> ((c # l) # ls', r)))"

lemma split_lines_none [simp]: "newline \<notin> set s \<Longrightarrow> split_lines s = ([], s)"
  by (induction s) auto

lemma split_lines_line [simp]:
  "newline \<notin> set a \<Longrightarrow> split_lines (a @ newline # b) = (a # fst (split_lines b), snd (split_lines b))"
  by (induction a) (auto split: prod.split)

lemma split_lines_rest: "newline \<notin> set (snd (split_lines s))"
  by (induction s) (auto split: prod.split list.split)

lemma split_lines_append:
  "split_lines (s @ t) = (fst (split_lines s) @ fst (split_lines (snd (split_lines s) @ t)),
     snd (split_lines (snd (split_lines s) @ t)))"
proof (induction "length s" arbitrary: s rule: less_induct)
  case less
  show ?case
  proof (cases "find_char newline s")
    case None
    then show ?thesis by simp
  next
    case (Some pos)
    obtain a b where s: "s = a @ newline # b" "newline \<notin> set a"
      using find_char_split(1,2) [OF Some] by blast
    then have "split_lines (s @ t) = (a # fst (split_lines (b @ t)), snd (split_lines (b @ t)))"
      by simp
    with s less [of b] show ?thesis by simp
  qed
qed

text \<open>The lines of some payloads, as a sender writes them.\<close>

definition stream_of :: "string list \<Rightarrow> string" where
  "stream_of ps = concat (map (\<lambda>p. p @ [newline]) ps)"

lemma split_stream: "\<forall>p \<in> set ps. newline \<notin> set p \<Longrightarrow> split_lines (stream_of ps) = (ps, [])"
  by (induction ps) (simp_all add: stream_of_def)

subsection \<open>The reader\<close>

locale line_reader =
  fixes buf :: "'s \<Rightarrow> string"
    and set_buf :: "string \<Rightarrow> 's \<Rightarrow> 's"
    and handle :: "string \<Rightarrow> 's \<Rightarrow> bool \<times> 's"
    and loop :: "'s \<Rightarrow> 's"
  assumes buf_set: "buf (set_buf b s) = b"
    and set_set: "set_buf a (set_buf b s) = set_buf a s"
    and handle_set: "handle l (set_buf b s) = (fst (handle l s), set_buf b (snd (handle l s)))"
    and loop_done: "newline \<notin> set (buf s) \<Longrightarrow> loop s = s"
    and loop_line: "find_char newline (buf s) = Some pos \<Longrightarrow> loop s =
          (let r = handle (take pos (buf s)) (set_buf (drop (pos + 1) (buf s)) s)
           in if fst r then snd r else loop (snd r))"
    and handle_stop: "fst (handle l s) \<longleftrightarrow> fst (handle l s')"
begin

text \<open>The lines one by one, none of them ending the loop.\<close>

definition handle_all :: "string list \<Rightarrow> 's \<Rightarrow> 's" where
  "handle_all ls s = fold (\<lambda>l s. snd (handle l s)) ls s"

lemma handle_all_simps [simp]:
  "handle_all [] s = s"
  "handle_all (l # ls) s = handle_all ls (snd (handle l s))"
  "handle_all (ls @ ls') s = handle_all ls' (handle_all ls s)"
  by (simp_all add: handle_all_def)

lemma handle_all_set: "handle_all ls (set_buf b s) = set_buf b (handle_all ls s)"
  by (induction ls arbitrary: s) (simp_all add: handle_set)

lemma loop_lines:
  assumes "\<forall>l \<in> set (fst (split_lines b)). \<not> fst (handle l s)"
  shows "loop (set_buf b s) = set_buf (snd (split_lines b)) (handle_all (fst (split_lines b)) s)"
  using assms
proof (induction "length b" arbitrary: b s rule: less_induct)
  case less
  show ?case
  proof (cases "find_char newline b")
    case None
    then show ?thesis by (simp add: loop_done buf_set)
  next
    case (Some pos)
    let ?a = "take pos b" and ?r = "drop (pos + 1) b"
    have b: "b = ?a @ newline # ?r" "newline \<notin> set ?a" and len: "length ?r < length b"
      using find_char_split [OF Some] by simp_all
    then have sl: "split_lines b = (?a # fst (split_lines ?r), snd (split_lines ?r))"
      using split_lines_line [OF b(2), of ?r] by simp
    let ?s = "snd (handle ?a s)"
    have h: "\<not> fst (handle ?a s)" and rest: "\<forall>l \<in> set (fst (split_lines ?r)). \<not> fst (handle l ?s)"
      using less.prems sl handle_stop [of _ s ?s] by simp_all
    have "loop (set_buf b s) = loop (set_buf ?r ?s)"
      using Some h by (simp add: loop_line buf_set set_set handle_set Let_def)
    also have "\<dots> = set_buf (snd (split_lines ?r)) (handle_all (fst (split_lines ?r)) ?s)"
      using less.hyps [OF len rest] .
    finally show ?thesis unfolding sl by simp
  qed
qed

text \<open>A chunk arrives: it is appended to the buffer and the loop runs.\<close>

definition receive :: "string list \<Rightarrow> 's \<Rightarrow> 's" where
  "receive chunks s = fold (\<lambda>c s. loop (set_buf (buf s @ c) s)) chunks s"

lemma receive_lines:
  assumes "\<forall>l \<in> set (fst (split_lines (b @ concat chunks))). \<not> fst (handle l s)" and "newline \<notin> set b"
  shows "receive chunks (set_buf b s) = set_buf (snd (split_lines (b @ concat chunks)))
      (handle_all (fst (split_lines (b @ concat chunks))) s)"
  using assms
proof (induction chunks arbitrary: b s)
  case Nil
  then show ?case by (simp add: receive_def)
next
  case (Cons c chunks)
  let ?p = "split_lines (b @ c)"
  let ?s = "handle_all (fst ?p) s"
  have app: "split_lines (b @ concat (c # chunks)) =
      (fst ?p @ fst (split_lines (snd ?p @ concat chunks)), snd (split_lines (snd ?p @ concat chunks)))"
    using split_lines_append [of "b @ c" "concat chunks"] by simp
  have h1: "\<forall>l \<in> set (fst ?p). \<not> fst (handle l s)"
    and h2: "\<forall>l \<in> set (fst (split_lines (snd ?p @ concat chunks))). \<not> fst (handle l ?s)"
    using Cons.prems(1) handle_stop [of _ s ?s] unfolding app by simp_all
  have "receive (c # chunks) (set_buf b s) = receive chunks (loop (set_buf (b @ c) s))"
    by (simp add: receive_def buf_set set_set)
  also have "\<dots> = receive chunks (set_buf (snd ?p) ?s)"
    using loop_lines [OF h1] by simp
  also have "\<dots> = set_buf (snd (split_lines (snd ?p @ concat chunks)))
      (handle_all (fst (split_lines (snd ?p @ concat chunks))) ?s)"
    using Cons.IH [OF h2 split_lines_rest] .
  finally show ?case unfolding app by simp
qed

text \<open>The payloads of a stream, however it is cut.\<close>

lemma receive_stream:
  assumes "\<forall>p \<in> set ps. newline \<notin> set p \<and> \<not> fst (handle p s)" and "concat chunks = stream_of ps"
  shows "receive chunks (set_buf [] s) = set_buf [] (handle_all ps s)"
proof -
  have "split_lines ([] @ concat chunks) = (ps, [])"
    using assms split_stream by auto
  with receive_lines [of "[]" chunks s] assms(1) show ?thesis by simp
qed

end

end
