(* ===== verification/Client.thy ===== *)
theory Client
  imports Models Protocol Line_Interface
begin

text \<open>
  \<open>src/client/main.cpp\<close>: the interactive client. The receiving thread cuts the byte stream of the
  server into lines and acts on each message; the main thread reads commands and sends requests.
  The globals of the program are one record. What is written to the terminal is a list of \<open>screen\<close>
  entries that name the kind of output and the values shown in it, without the decorations.
  \<open>c_terminated\<close> is the end of the process by an exception nobody catches, which is what an
  exception in either thread is.
\<close>

datatype screen =
    S_Chat string int string string
  | S_GroupChat string json string int string string
  | S_Notice string
  | S_FriendRequest int
  | S_GroupRequest int int
  | S_Registered int
  | S_RegisterFailed
  | S_LoginError json
  | S_UnknownLoginError
  | S_UserInfo user "user list" "chat_group list"
  | S_ParseError string
  | S_SendError string
  | S_CommandInvalid
  | S_InvalidInput
  | S_Help

record client =
  g_currentUser :: user
  g_currentUserFriendList :: "user list"
  g_currentUserGroupList :: "chat_group list"
  isMainMenuRuning :: bool
  g_isLoginSuccess :: bool
  c_rwsem :: nat
  c_recvbuf :: string
  c_sent :: string
  c_screen :: "screen list"
  c_terminated :: bool

definition client_init :: client where
  "client_init = \<lparr>g_currentUser = User, g_currentUserFriendList = [], g_currentUserGroupList = [],
     isMainMenuRuning = False, g_isLoginSuccess = False, c_rwsem = 0, c_recvbuf = [], c_sent = [],
     c_screen = [], c_terminated = False\<rparr>"

definition show_screen :: "screen \<Rightarrow> client \<Rightarrow> client" where
  "show_screen e c = c\<lparr>c_screen := c_screen c @ [e]\<rparr>"

subsection \<open>Messages from the server\<close>

text \<open>Accesses that may throw, one after the other.\<close>

definition and_then :: "exn + 'a \<Rightarrow> ('a \<Rightarrow> exn + 'b) \<Rightarrow> exn + 'b" where
  "and_then r k = (case r of Inl e \<Rightarrow> Inl e | Inr x \<Rightarrow> k x)"

lemma and_then_simps [simp]:
  "and_then (Inl e) k = Inl e"
  "and_then (Inr x) k = k x"
  by (simp_all add: and_then_def)

definition parse_json :: "'d outside \<Rightarrow> string \<Rightarrow> exn + json" where
  "parse_json E s = (case ext_json_parse E s of None \<Rightarrow> Inl ParseError | Some js \<Rightarrow> Inr js)"

text \<open>\<open>for (str : vec) list.emplace_back(read(str))\<close>.\<close>

fun read_each :: "('a \<Rightarrow> exn + 'b) \<Rightarrow> 'a list \<Rightarrow> exn + 'b list" where
  "read_each rd [] = Inr []"
| "read_each rd (x # xs) = and_then (rd x) (\<lambda>y. and_then (read_each rd xs) (\<lambda>ys. Inr (y # ys)))"

definition read_friend_entry :: "'d outside \<Rightarrow> string \<Rightarrow> exn + user" where
  "read_friend_entry E str = and_then (parse_json E str) (\<lambda>js.
     and_then (int_field js ''id'') (\<lambda>i. and_then (string_field js ''name'') (\<lambda>name.
     and_then (string_field js ''state'') (\<lambda>state.
       Inr (User\<lparr>u_id := i, u_name := name, u_state := state\<rparr>)))))"

definition read_member_entry :: "'d outside \<Rightarrow> string \<Rightarrow> exn + group_user" where
  "read_member_entry E str = and_then (parse_json E str) (\<lambda>js.
     and_then (int_field js ''id'') (\<lambda>i. and_then (string_field js ''name'') (\<lambda>name.
     and_then (string_field js ''state'') (\<lambda>state. and_then (string_field js ''role'') (\<lambda>role.
       Inr (GroupUser\<lparr>u_id := i, u_name := name, u_state := state, gu_role := role\<rparr>))))))"

definition read_group_entry :: "'d outside \<Rightarrow> string \<Rightarrow> exn + chat_group" where
  "read_group_entry E str = and_then (parse_json E str) (\<lambda>js.
     and_then (int_field js ''id'') (\<lambda>i. and_then (string_field js ''name'') (\<lambda>name.
     and_then (string_field js ''desc'') (\<lambda>desc. and_then (strings_field js ''users'') (\<lambda>vec2.
     and_then (read_each (read_member_entry E) vec2) (\<lambda>users.
       Inr ((Group i name desc)\<lparr>g_users := users\<rparr>)))))))"

text \<open>A list member of the response that may be absent.\<close>

definition list_member :: "json \<Rightarrow> string \<Rightarrow> exn + string list" where
  "list_member js k = (if contains js k then strings_field js k else Inr [])"

definition show_private_chat :: "json \<Rightarrow> exn + screen" where
  "show_private_chat js = and_then (string_field js ''time'') (\<lambda>time.
     and_then (int_field js ''userid'') (\<lambda>userid. and_then (string_field js ''name'') (\<lambda>name.
     and_then (string_field js ''msg'') (\<lambda>msg. Inr (S_Chat time userid name msg)))))"

definition show_stored :: "json \<Rightarrow> exn + screen list" where
  "show_stored msgjs = and_then (int_field msgjs ''msgid'') (\<lambda>m.
     if m = msg_id ONE_CHAT_MSG then and_then (show_private_chat msgjs) (\<lambda>e. Inr [e])
     else if m = msg_id GROUP_CHAT_MSG then
       and_then (string_field msgjs ''time'') (\<lambda>time. and_then (member_at msgjs ''groupid'') (\<lambda>groupid.
       and_then (string_field msgjs ''groupname'') (\<lambda>groupname. and_then (int_field msgjs ''userid'') (\<lambda>userid.
       and_then (string_field msgjs ''name'') (\<lambda>name. and_then (string_field msgjs ''msg'') (\<lambda>msg.
         Inr [S_GroupChat time groupid groupname userid name msg]))))))
     else Inr [])"

definition show_offline :: "'d outside \<Rightarrow> string \<Rightarrow> exn + screen list" where
  "show_offline E str = and_then (parse_json E str) show_stored"

definition doLoginResponse :: "'d outside \<Rightarrow> json \<Rightarrow> client \<Rightarrow> exn + client" where
  "doLoginResponse E js c = and_then (int_field js ''errno'') (\<lambda>res_errno.
     if res_errno = 0 then
       and_then (int_field js ''id'') (\<lambda>i. and_then (string_field js ''name'') (\<lambda>name.
       let user = (g_currentUser c)\<lparr>u_id := i, u_name := name\<rparr> in
       and_then (list_member js ''friends'') (\<lambda>vec. and_then (read_each (read_friend_entry E) vec) (\<lambda>friends.
       and_then (list_member js ''groups'') (\<lambda>vec. and_then (read_each (read_group_entry E) vec) (\<lambda>grps.
       let allFriends = g_currentUserFriendList c @ friends; allGroups = g_currentUserGroupList c @ grps in
       and_then (list_member js ''offlinemsg'') (\<lambda>vec. and_then (read_each (show_offline E) vec) (\<lambda>shown.
         Inr (c\<lparr>g_currentUser := user, g_currentUserFriendList := allFriends,
                g_currentUserGroupList := allGroups, g_isLoginSuccess := True,
                c_screen := c_screen c @ [S_UserInfo user allFriends allGroups] @ concat shown\<rparr>)))))))))
     else if res_errno = 1 \<or> res_errno = 2 \<or> res_errno = 3 then
       and_then (member_at js ''errmsg'') (\<lambda>errmsg.
         Inr (show_screen (S_LoginError errmsg) (c\<lparr>g_isLoginSuccess := False\<rparr>)))
     else Inr (show_screen S_UnknownLoginError (c\<lparr>g_isLoginSuccess := False\<rparr>)))"

definition doRegResponse :: "json \<Rightarrow> client \<Rightarrow> exn + client" where
  "doRegResponse js c = and_then (int_field js ''errno'') (\<lambda>e.
     if e \<noteq> 0 then Inr (show_screen S_RegisterFailed c)
     else and_then (int_field js ''id'') (\<lambda>i. Inr (show_screen (S_Registered i) c)))"

definition sem_post :: "client \<Rightarrow> client" where
  "sem_post c = c\<lparr>c_rwsem := Suc (c_rwsem c)\<rparr>"

text \<open>One message in \<open>readTaskHandler\<close>: the tests of \<open>msgid\<close>, of which at most one holds.\<close>

definition handle_message :: "'d outside \<Rightarrow> json \<Rightarrow> client \<Rightarrow> exn + client" where
  "handle_message E js c = and_then (int_field js ''msgid'') (\<lambda>m.
     let notice = and_then (string_field js ''errmsg'') (\<lambda>txt. Inr (show_screen (S_Notice txt) c)) in
     if m = msg_id ONE_CHAT_MSG then and_then (show_private_chat js) (\<lambda>e. Inr (show_screen e c))
     else if m = msg_id ONE_CHAT_MSG_ACK then notice
     else if m = msg_id ADD_FRIEND_REQUEST then
       and_then (int_field js ''userid'') (\<lambda>u. Inr (show_screen (S_FriendRequest u) c))
     else if m = msg_id ADD_FRIEND_RESPONSE then notice
     else if m = msg_id CREATE_GROUP_MSG_ACK then notice
     else if m = msg_id ADD_GROUP_MSG then
       and_then (int_field js ''userid'') (\<lambda>u. and_then (int_field js ''groupid'') (\<lambda>g.
         Inr (show_screen (S_GroupRequest u g) c)))
     else if m = msg_id ADD_GROUP_RESPONSE then notice
     else if m = msg_id GROUP_CHAT_MSG then
       and_then (string_field js ''time'') (\<lambda>time. and_then (int_field js ''groupid'') (\<lambda>g.
       and_then (string_field js ''groupname'') (\<lambda>groupname. and_then (int_field js ''userid'') (\<lambda>u.
       and_then (string_field js ''name'') (\<lambda>name. and_then (string_field js ''msg'') (\<lambda>msg.
         Inr (show_screen (S_GroupChat time (JInt g) groupname u name msg) c)))))))
     else if m = msg_id LOG_MSG_ACK then and_then (doLoginResponse E js c) (\<lambda>c. Inr (sem_post c))
     else if m = msg_id REG_MSG_ACK then and_then (doRegResponse js c) (\<lambda>c. Inr (sem_post c))
     else Inr c)"

text \<open>One line: \<open>True\<close> when the exception ends the process.\<close>

definition client_frame :: "'d outside \<Rightarrow> string \<Rightarrow> client \<Rightarrow> bool \<times> client" where
  "client_frame E line c =
     (if line = [] then (False, c)
      else (case ext_json_parse E line of
         None \<Rightarrow> (False, show_screen (S_ParseError line) c)
       | Some js \<Rightarrow> (case handle_message E js c of
           Inl _ \<Rightarrow> (True, c\<lparr>c_terminated := True\<rparr>)
         | Inr c' \<Rightarrow> (False, c'))))"

lemma handle_message_buf:
  "handle_message E js c = Inr c' \<Longrightarrow> c_recvbuf c' = c_recvbuf c"
  by (auto simp: handle_message_def doLoginResponse_def doRegResponse_def show_screen_def sem_post_def
      and_then_def Let_def split: sum.splits if_splits)

lemma client_frame_buf [simp]: "c_recvbuf (snd (client_frame E line c)) = c_recvbuf c"
  by (auto simp: client_frame_def show_screen_def dest: handle_message_buf split: option.split sum.split)

function client_loop :: "'d outside \<Rightarrow> client \<Rightarrow> client" where
  "client_loop E c = (case find_char newline (c_recvbuf c) of
     None \<Rightarrow> c
   | Some pos \<Rightarrow>
       (let r = client_frame E (take pos (c_recvbuf c)) (c\<lparr>c_recvbuf := drop (pos + 1) (c_recvbuf c)\<rparr>)
        in if fst r then snd r else client_loop E (snd r)))"
  by pat_completeness auto
termination
proof (relation "measure (\<lambda>(E, c). length (c_recvbuf c))", goal_cases)
  case 1
  then show ?case by simp
next
  case (2 E c pos r)
  then show ?case using find_char_split(3) [OF 2(1)] by simp
qed

declare client_loop.simps [simp del]

text \<open>
  One turn of \<open>readTaskHandler\<close>: \<open>None\<close> is \<open>recv\<close> returning -1 or 0, which ends the process by
  \<open>exit(-1)\<close>, otherwise the bytes received.
\<close>

definition client_receive :: "'d outside \<Rightarrow> string option \<Rightarrow> client \<Rightarrow> client" where
  "client_receive E got c = (case got of
     None \<Rightarrow> c\<lparr>c_terminated := True\<rparr>
   | Some bytes \<Rightarrow> client_loop E (c\<lparr>c_recvbuf := c_recvbuf c @ bytes\<rparr>))"

subsection \<open>Requests\<close>

text \<open>The commands work on the globals and the state of the operating system.\<close>

definition send_json :: "'d outside \<Rightarrow> json \<Rightarrow> client \<times> 'd \<Rightarrow> bool \<times> client \<times> 'd" where
  "send_json E js = (\<lambda>(c, d). (case ext_json_dump E js of
     None \<Rightarrow> (False, c\<lparr>c_terminated := True\<rparr>, d)
   | Some s \<Rightarrow> (let buffer = s @ [newline]; (n, d) = ext_send E buffer d in
       if n = - 1 then (False, show_screen (S_SendError buffer) c, d)
       else (True, c\<lparr>c_sent := c_sent c @ take (nat n) buffer\<rparr>, d))))"

definition send_request :: "'d outside \<Rightarrow> json \<Rightarrow> client \<times> 'd \<Rightarrow> client \<times> 'd" where
  "send_request E js s = snd (send_json E js s)"

text \<open>\<open>acceptaddfriend\<close> and \<open>rejectaddfriend\<close> say nothing when \<open>send\<close> fails.\<close>

definition send_silently :: "'d outside \<Rightarrow> json \<Rightarrow> client \<times> 'd \<Rightarrow> client \<times> 'd" where
  "send_silently E js = (\<lambda>(c, d). case send_json E js (c, d) of (ok, c', d') \<Rightarrow>
     (if ok \<or> c_terminated c' then c' else c, d'))"

definition getCurrentTime :: "tm \<Rightarrow> string" where
  "getCurrentTime t = show_int (tm_year t + 1900) @ ''-'' @ pad2 (tm_mon t + 1) @ ''-'' @ pad2 (tm_mday t)
     @ '' '' @ pad2 (tm_hour t) @ '':'' @ pad2 (tm_min t) @ '':'' @ pad2 (tm_sec t)"

type_synonym 'd command = "string \<Rightarrow> client \<times> 'd \<Rightarrow> client \<times> 'd"

definition help_command :: "'d command" where
  "help_command str s = (show_screen S_Help (fst s), snd s)"

definition addfriend :: "'d outside \<Rightarrow> 'd command" where
  "addfriend E str s = send_request E (JObj [(''msgid'', JInt (msg_id ADD_FRIEND_REQUEST)),
     (''userid'', JInt (u_id (g_currentUser (fst s)))), (''friendid'', JInt (atoi (c_str str)))]) s"

definition answer_friend :: "'d outside \<Rightarrow> string \<Rightarrow> 'd command" where
  "answer_friend E action str s = send_silently E (JObj [(''msgid'', JInt (msg_id ADD_FRIEND_HANDLE)),
     (''userid'', JInt (atoi (c_str str))), (''friendid'', JInt (u_id (g_currentUser (fst s)))),
     (''action'', JStr action)]) s"

definition acceptaddfriend :: "'d outside \<Rightarrow> 'd command" where
  "acceptaddfriend E = answer_friend E ''accept''"

definition rejectaddfriend :: "'d outside \<Rightarrow> 'd command" where
  "rejectaddfriend E = answer_friend E ''refuse''"

text \<open>The commands with two arguments cut the text at its first colon.\<close>

definition two_args :: "(string \<Rightarrow> string \<Rightarrow> client \<times> 'd \<Rightarrow> client \<times> 'd) \<Rightarrow> 'd command" where
  "two_args f str s = (case find_char (CHR '':'') str of
     None \<Rightarrow> (show_screen S_CommandInvalid (fst s), snd s)
   | Some idx \<Rightarrow> f (take idx str) (drop (idx + 1) str) s)"

definition chat_request :: "user \<Rightarrow> int \<Rightarrow> string \<Rightarrow> string \<Rightarrow> json" where
  "chat_request user friendid message time = JObj [(''msgid'', JInt (msg_id ONE_CHAT_MSG)),
     (''userid'', JInt (u_id user)), (''name'', JStr (u_name user)), (''to'', JInt friendid),
     (''msg'', JStr message), (''time'', JStr time)]"

definition chat :: "'d outside \<Rightarrow> 'd command" where
  "chat E = two_args (\<lambda>a message (c, d). let (now, d) = ext_localtime E d in
     send_request E (chat_request (g_currentUser c) (atoi (c_str a)) message (getCurrentTime now)) (c, d))"

definition creategroup :: "'d outside \<Rightarrow> 'd command" where
  "creategroup E = two_args (\<lambda>name desc s. send_request E (JObj [(''msgid'', JInt (msg_id CREATE_GROUP_MSG)),
     (''userid'', JInt (u_id (g_currentUser (fst s)))), (''groupname'', JStr name), (''groupdesc'', JStr desc)]) s)"

definition addgroup :: "'d outside \<Rightarrow> 'd command" where
  "addgroup E str s = send_request E (JObj [(''msgid'', JInt (msg_id ADD_GROUP_MSG)),
     (''userid'', JInt (u_id (g_currentUser (fst s)))), (''groupid'', JInt (atoi (c_str str)))]) s"

definition answer_group :: "'d outside \<Rightarrow> string \<Rightarrow> 'd command" where
  "answer_group E action = two_args (\<lambda>a b s. send_request E (JObj [(''msgid'', JInt (msg_id ADD_GROUP_HANDLE)),
     (''userid'', JInt (atoi (c_str a))), (''groupid'', JInt (atoi (c_str b))), (''action'', JStr action)]) s)"

definition acceptaddgroup :: "'d outside \<Rightarrow> 'd command" where
  "acceptaddgroup E = answer_group E ''accept''"

definition rejectaddgroup :: "'d outside \<Rightarrow> 'd command" where
  "rejectaddgroup E = answer_group E ''reject''"

definition groupchat :: "'d outside \<Rightarrow> 'd command" where
  "groupchat E = two_args (\<lambda>a message (c, d). let (now, d) = ext_localtime E d in
     send_request E (JObj [(''msgid'', JInt (msg_id GROUP_CHAT_MSG)), (''userid'', JInt (u_id (g_currentUser c))),
       (''name'', JStr (u_name (g_currentUser c))), (''groupid'', JInt (atoi (c_str a))),
       (''msg'', JStr message), (''time'', JStr (getCurrentTime now))]) (c, d))"

definition client_loginout :: "'d outside \<Rightarrow> 'd command" where
  "client_loginout E str s = (case send_json E (JObj [(''msgid'', JInt (msg_id LOGINOUT_MSG)),
       (''userid'', JInt (u_id (g_currentUser (fst s))))]) s of
     (ok, c, d) \<Rightarrow> (if ok then c\<lparr>isMainMenuRuning := False\<rparr> else c, d))"

subsection \<open>The menu\<close>

definition commandHandlerMap :: "'d outside \<Rightarrow> (string \<times> 'd command) list" where
  "commandHandlerMap E = [(''help'', help_command), (''chat'', chat E), (''addfriend'', addfriend E),
     (''acceptfriend'', acceptaddfriend E), (''rejectfriend'', rejectaddfriend E),
     (''creategroup'', creategroup E), (''addgroup'', addgroup E), (''acceptaddgroup'', acceptaddgroup E),
     (''rejectaddgroup'', rejectaddgroup E), (''groupchat'', groupchat E), (''loginout'', client_loginout E)]"

definition run_command :: "'d outside \<Rightarrow> 'd command" where
  "run_command E commandbuf s = (let idx = find_char (CHR '':'') commandbuf;
       command = (case idx of None \<Rightarrow> commandbuf | Some i \<Rightarrow> take i commandbuf);
       str = (case idx of None \<Rightarrow> commandbuf | Some i \<Rightarrow> drop (i + 1) commandbuf)
     in case map_of (commandHandlerMap E) command of
          None \<Rightarrow> (show_screen S_InvalidInput (fst s), snd s)
        | Some h \<Rightarrow> h str s)"

text \<open>
  \<open>std::cin.getline(buffer, n)\<close>: the text stored, whether \<open>failbit\<close> is set, and the input left. It
  fails at the end of the input and when the line has no room, that is from \<open>n\<close> characters on.
\<close>

definition getline :: "nat \<Rightarrow> string \<Rightarrow> string \<times> bool \<times> string" where
  "getline n inp = (let l = takeWhile (\<lambda>ch. ch \<noteq> newline) inp in
     if inp = [] then ([], True, [])
     else if length l < n then (c_str l, False, drop (length l + 1) inp)
     else (c_str (take (n - 1) l), True, drop (n - 1) inp))"

text \<open>\<open>mainMenu\<close>: the input it leaves, whether the stream has failed, and the globals.\<close>

function menu_loop :: "'d outside \<Rightarrow> string \<Rightarrow> client \<times> 'd \<Rightarrow> string \<times> bool \<times> client \<times> 'd" where
  "menu_loop E inp s =
     (if c_terminated (fst s) \<or> \<not> isMainMenuRuning (fst s) then (inp, False, s)
      else (case getline 1024 inp of (buffer, failed, rest) \<Rightarrow>
        if failed then (rest, True, ((fst s)\<lparr>isMainMenuRuning := False\<rparr>, snd s))
        else menu_loop E rest (run_command E buffer s)))"
  by pat_completeness auto
termination
  by (relation "measure (\<lambda>(E, inp, s). length inp)")
    (auto simp: getline_def Let_def split: if_splits)

declare menu_loop.simps [simp del]

definition mainMenu :: "'d outside \<Rightarrow> string \<Rightarrow> client \<times> 'd \<Rightarrow> string \<times> bool \<times> client \<times> 'd" where
  "mainMenu E inp s = menu_loop E inp (help_command [] s)"

text \<open>
  The two fields a login or a registration reads: once \<open>failbit\<close> is set, the second \<open>getline\<close> stores
  an empty text.
\<close>

definition read_credentials :: "string \<Rightarrow> (string \<times> string) \<times> bool \<times> string" where
  "read_credentials inp = (case getline 50 inp of (name, failed, rest) \<Rightarrow>
     if failed then ((name, []), True, rest)
     else (case getline 50 rest of (pwd, failed', rest') \<Rightarrow> ((name, pwd), failed', rest')))"

definition credentials_request :: "EnMsgType \<Rightarrow> string \<times> string \<Rightarrow> json" where
  "credentials_request m np = JObj [(''msgid'', JInt (msg_id m)), (''name'', JStr (fst np)), (''password'', JStr (snd np))]"

definition submit_credentials :: "'d outside \<Rightarrow> EnMsgType \<Rightarrow> string \<Rightarrow> client \<times> 'd \<Rightarrow> bool \<times> string \<times> client \<times> 'd" where
  "submit_credentials E m inp s = (case read_credentials inp of (np, failed, rest) \<Rightarrow>
     (failed, rest, send_request E (credentials_request m np) s))"

text \<open>
  \<open>main\<close>, one turn of its loop up to the wait for the response: a word by \<open>>>\<close> and one more
  character by \<open>get\<close>, \<open>None\<close> when the stream has failed. The input is the flag of a failed stream
  and the text left.
\<close>

datatype main_action = MainEnds | MainAgain | MainWaits EnMsgType

definition read_choice :: "bool \<times> string \<Rightarrow> (string \<times> string) option" where
  "read_choice = (\<lambda>(failed, inp). let inp = dropWhile is_space inp; w = takeWhile (\<lambda>ch. \<not> is_space ch) inp in
     if failed \<or> w = [] then None
     else (case drop (length w) inp of [] \<Rightarrow> None | _ # rest \<Rightarrow> Some (w, rest)))"

definition main_step ::
  "'d outside \<Rightarrow> bool \<times> string \<Rightarrow> client \<times> 'd \<Rightarrow> main_action \<times> (bool \<times> string) \<times> client \<times> 'd" where
  "main_step E inp s = (let submit = (\<lambda>m rest. case submit_credentials E m rest s of (failed, rest', s') \<Rightarrow>
       (MainWaits m, (failed, rest'), s'));
     invalid = (\<lambda>rest. (MainAgain, (False, rest), show_screen S_InvalidInput (fst s), snd s)) in
     (case read_choice inp of
        None \<Rightarrow> (MainEnds, inp, s)
      | Some (choice, rest) \<Rightarrow>
          if choice = ''1'' then submit LOGIN_MSG rest
          else if choice = ''2'' then submit REG_MSG rest
          else if choice = ''3'' then (MainEnds, (False, rest), s)
          else invalid rest))"

text \<open>
  After \<open>sem_wait\<close>, which returns once a response has been posted: a successful login leads into the
  menu. \<open>None\<close>: it is still waiting.
\<close>

definition after_login :: "client \<Rightarrow> client option" where
  "after_login c = (if c_rwsem c = 0 then None
     else let c = c\<lparr>c_rwsem := c_rwsem c - 1\<rparr> in
       Some (if g_isLoginSuccess c then c\<lparr>isMainMenuRuning := True\<rparr> else c))"

definition main_resume ::
  "'d outside \<Rightarrow> EnMsgType \<Rightarrow> bool \<times> string \<Rightarrow> client \<times> 'd \<Rightarrow> ((bool \<times> string) \<times> client \<times> 'd) option" where
  "main_resume E m = (\<lambda>(failed, inp) (c, d).
     if m = LOGIN_MSG then (case after_login c of
         None \<Rightarrow> None
       | Some c' \<Rightarrow>
           if \<not> g_isLoginSuccess c' then Some ((failed, inp), c', d)
           else if failed then Some ((True, inp), (show_screen S_Help c')\<lparr>isMainMenuRuning := False\<rparr>, d)
           else (case mainMenu E inp (c', d) of (rest, failed', s') \<Rightarrow> Some ((failed', rest), s')))
     else (if c_rwsem c = 0 then None else Some ((failed, inp), c\<lparr>c_rwsem := c_rwsem c - 1\<rparr>, d)))"

subsection \<open>Receiving\<close>

text \<open>Whether a message throws depends on the message only, not on the client.\<close>

lemma isl_and_then: "(\<And>x. isl (k x) = isl (k' x)) \<Longrightarrow> isl (and_then r k) = isl (and_then r k')"
  by (cases r) simp_all

lemma isl_if: "isl a = isl a' \<Longrightarrow> isl b = isl b' \<Longrightarrow> isl (if P then a else b) = isl (if P then a' else b')"
  by simp

lemma isl_Inr: "isl (Inr x) = isl (Inr y)"
  by simp

lemmas isl_rules = isl_if isl_and_then isl_Inr

lemma doLoginResponse_isl: "isl (doLoginResponse E js c) = isl (doLoginResponse E js c')"
  unfolding doLoginResponse_def Let_def by (intro isl_rules)

lemma doRegResponse_isl: "isl (doRegResponse js c) = isl (doRegResponse js c')"
  unfolding doRegResponse_def by (intro isl_rules)

lemma isl_and_post: "isl a = isl b \<Longrightarrow> isl (and_then a (\<lambda>x. Inr (f x))) = isl (and_then b (\<lambda>x. Inr (f x)))"
  by (cases a; cases b) simp_all

lemma handle_message_isl: "isl (handle_message E js c) = isl (handle_message E js c')"
  unfolding handle_message_def Let_def
  by (intro isl_if isl_and_post [OF doLoginResponse_isl] isl_and_post [OF doRegResponse_isl]
      isl_and_then isl_Inr)

lemma client_frame_stops: "fst (client_frame E l c) \<longleftrightarrow> fst (client_frame E l c')"
proof -
  have "fst (client_frame E l c) \<longleftrightarrow>
      l \<noteq> [] \<and> (case ext_json_parse E l of None \<Rightarrow> False | Some js \<Rightarrow> isl (handle_message E js c))" for c
    by (simp add: client_frame_def split: option.split sum.split)
  then show ?thesis using handle_message_isl [of E _ c c'] by (simp split: option.split)
qed

text \<open>The receive buffer is the loop's own: a message neither reads nor writes it.\<close>

lemma and_then_map: "(\<And>x. k' x = map_sum id f (k x)) \<Longrightarrow> and_then r k' = map_sum id f (and_then r k)"
  by (cases r) simp_all

lemma if_map: "a' = map_sum id f a \<Longrightarrow> b' = map_sum id f b \<Longrightarrow>
    (if P then a' else b') = map_sum id f (if P then a else b)"
  by simp

lemma and_then_post: "a' = map_sum id f a \<Longrightarrow> (\<And>x. g (f x) = f (g x)) \<Longrightarrow>
    and_then a' (\<lambda>x. Inr (g x)) = map_sum id f (and_then a (\<lambda>x. Inr (g x)))"
  by (cases a) simp_all

lemma doLoginResponse_buf:
  "doLoginResponse E js (c\<lparr>c_recvbuf := b\<rparr>) = map_sum id (c_recvbuf_update (\<lambda>_. b)) (doLoginResponse E js c)"
  unfolding doLoginResponse_def Let_def
  by (intro if_map and_then_map) (simp_all add: show_screen_def)

lemma doRegResponse_buf:
  "doRegResponse js (c\<lparr>c_recvbuf := b\<rparr>) = map_sum id (c_recvbuf_update (\<lambda>_. b)) (doRegResponse js c)"
  unfolding doRegResponse_def
  by (intro if_map and_then_map) (simp_all add: show_screen_def)

lemma sem_post_buf: "sem_post (c\<lparr>c_recvbuf := b\<rparr>) = (sem_post c)\<lparr>c_recvbuf := b\<rparr>"
  by (simp add: sem_post_def)

lemma handle_message_buf_set:
  "handle_message E js (c\<lparr>c_recvbuf := b\<rparr>) = map_sum id (c_recvbuf_update (\<lambda>_. b)) (handle_message E js c)"
  unfolding handle_message_def Let_def
  by (intro if_map and_then_post [OF doLoginResponse_buf] and_then_post [OF doRegResponse_buf]
      sem_post_buf and_then_map) (simp_all add: show_screen_def)

lemma client_frame_set: "client_frame E l (c\<lparr>c_recvbuf := b\<rparr>) =
    (fst (client_frame E l c), (snd (client_frame E l c))\<lparr>c_recvbuf := b\<rparr>)"
  by (simp add: client_frame_def handle_message_buf_set show_screen_def split: option.split sum.split)

interpretation creader: line_reader c_recvbuf "\<lambda>b c. c\<lparr>c_recvbuf := b\<rparr>" "client_frame E" "client_loop E"
  for E :: "'d outside"
proof unfold_locales
  show "newline \<notin> set (c_recvbuf c) \<Longrightarrow> client_loop E c = c" for c
    by (subst client_loop.simps) (simp add: find_char_absent)
  show "find_char newline (c_recvbuf c) = Some pos \<Longrightarrow> client_loop E c =
      (let r = client_frame E (take pos (c_recvbuf c)) (c\<lparr>c_recvbuf := drop (pos + 1) (c_recvbuf c)\<rparr>)
       in if fst r then snd r else client_loop E (snd r))" for c pos
    by (subst client_loop.simps) simp
  show "fst (client_frame E l c) = fst (client_frame E l c')" for l c c'
    by (rule client_frame_stops)
qed (simp_all add: client_frame_set)

text \<open>
  The chunks a running client receives one after the other, up to the end of the process, and the
  lines of a stream one by one.
\<close>

definition client_stream :: "'d outside \<Rightarrow> string list \<Rightarrow> client \<Rightarrow> client" where
  "client_stream E chunks c = fold (\<lambda>b c. if c_terminated c then c else client_receive E (Some b) c) chunks c"

definition client_lines :: "'d outside \<Rightarrow> string list \<Rightarrow> client \<Rightarrow> client" where
  "client_lines E ls c = fold (\<lambda>l c. snd (client_frame E l c)) ls c"

lemma client_lines_simps [simp]:
  "client_lines E [] c = c"
  "client_lines E (l # ls) c = client_lines E ls (snd (client_frame E l c))"
  "client_lines E (ls @ ls') c = client_lines E ls' (client_lines E ls c)"
  by (simp_all add: client_lines_def)

lemma client_lines_set: "client_lines E ls (c\<lparr>c_recvbuf := b\<rparr>) = (client_lines E ls c)\<lparr>c_recvbuf := b\<rparr>"
  by (induction ls arbitrary: c) (simp_all add: client_frame_set)

lemma handle_message_alive: "handle_message E js c = Inr c' \<Longrightarrow> c_terminated c' = c_terminated c"
  by (auto simp: handle_message_def doLoginResponse_def doRegResponse_def show_screen_def sem_post_def
      and_then_def Let_def split: sum.splits if_splits)

lemma client_frame_alive:
  "\<not> fst (client_frame E l c) \<Longrightarrow> c_terminated (snd (client_frame E l c)) = c_terminated c"
  by (auto simp: client_frame_def show_screen_def dest: handle_message_alive split: option.split sum.split if_splits)

lemma client_lines_alive:
  "\<forall>l \<in> set ls. \<not> fst (client_frame E l c) \<Longrightarrow> c_terminated (client_lines E ls c) = c_terminated c"
proof (induction ls arbitrary: c)
  case (Cons l ls)
  let ?c = "snd (client_frame E l c)"
  have "\<forall>l \<in> set ls. \<not> fst (client_frame E l ?c)"
    using Cons.prems client_frame_stops [of E _ c ?c] by simp
  with Cons.IH [of ?c] Cons.prems client_frame_alive [of E l c] show ?case by simp
qed simp

text \<open>A message that kills no client: the reader does not stop at it.\<close>

definition harmless :: "'d outside \<Rightarrow> string \<Rightarrow> bool" where
  "harmless E l \<longleftrightarrow> \<not> fst (client_frame E l client_init)"

lemma harmless_frame: "\<not> fst (client_frame E l c) \<longleftrightarrow> harmless E l"
  using client_frame_stops [of E l c client_init] by (simp add: harmless_def)

lemma client_receive_lines:
  assumes "\<forall>l \<in> set (fst (split_lines (c_recvbuf c @ bytes))). harmless E l"
  shows "client_receive E (Some bytes) c =
    (client_lines E (fst (split_lines (c_recvbuf c @ bytes))) c)\<lparr>c_recvbuf := snd (split_lines (c_recvbuf c @ bytes))\<rparr>"
  using creader.loop_lines [where b = "c_recvbuf c @ bytes" and E = E and s = c] assms
  unfolding harmless_frame creader.handle_all_def
  by (simp add: client_receive_def client_lines_def)

lemma client_stream_reader:
  assumes "\<forall>l \<in> set (fst (split_lines (c_recvbuf c @ concat chunks))). harmless E l" and "\<not> c_terminated c"
  shows "client_stream E chunks c = fold (\<lambda>b. client_receive E (Some b)) chunks c"
  using assms
proof (induction chunks arbitrary: c)
  case Nil
  then show ?case by (simp add: client_stream_def)
next
  case (Cons b chunks)
  let ?p = "split_lines (c_recvbuf c @ b)" and ?c = "client_receive E (Some b) c"
  have split: "split_lines (c_recvbuf c @ concat (b # chunks)) =
      (fst ?p @ fst (split_lines (snd ?p @ concat chunks)), snd (split_lines (snd ?p @ concat chunks)))"
    using split_lines_append [of "c_recvbuf c @ b" "concat chunks"] by simp
  have h: "\<forall>l \<in> set (fst ?p). harmless E l" "\<forall>l \<in> set (fst (split_lines (snd ?p @ concat chunks))). harmless E l"
    using Cons.prems(1) unfolding split by simp_all
  have c: "?c = (client_lines E (fst ?p) c)\<lparr>c_recvbuf := snd ?p\<rparr>"
    by (rule client_receive_lines [OF h(1)])
  have "\<not> c_terminated ?c"
    using client_lines_alive [of "fst ?p" E c] h(1) Cons.prems(2) by (simp add: c harmless_frame)
  with Cons.IH [of ?c] h(2) have "client_stream E chunks ?c = fold (\<lambda>b. client_receive E (Some b)) chunks ?c"
    by (simp add: c)
  then show ?case using Cons.prems(2) by (simp add: client_stream_def)
qed

text \<open>Once the input is over, nothing more is read: the laws of the reader carry the rest.\<close>

lemma client_stream_payloads:
  assumes "\<forall>p \<in> set ps. newline \<notin> set p \<and> harmless E p" and "concat chunks = stream_of ps"
    and "c_recvbuf c = []" and "\<not> c_terminated c"
  shows "client_stream E chunks c = client_lines E ps c"
proof -
  have empty: "c\<lparr>c_recvbuf := []\<rparr> = c" using assms(3) by simp
  have s: "split_lines (c_recvbuf c @ concat chunks) = (ps, [])"
    using assms split_stream [of ps] by auto
  moreover have "\<forall>l \<in> set ps. harmless E l" using assms(1) by blast
  ultimately have "client_stream E chunks c = fold (\<lambda>b c. client_loop E (c\<lparr>c_recvbuf := c_recvbuf c @ b\<rparr>)) chunks c"
    using client_stream_reader [of c chunks E] assms unfolding s
    by (simp add: client_receive_def [abs_def])
  also have "\<dots> = (client_lines E ps c)\<lparr>c_recvbuf := []\<rparr>"
    using creader.receive_stream [of ps E c chunks] assms
    unfolding harmless_frame creader.handle_all_def creader.receive_def empty
    by (simp add: client_lines_def)
  also have "\<dots> = client_lines E ps (c\<lparr>c_recvbuf := []\<rparr>)"
    by (simp only: client_lines_set)
  finally show ?thesis unfolding empty .
qed

subsection \<open>Typing\<close>

lemma takeWhile_line: "newline \<notin> set l \<Longrightarrow> takeWhile (\<lambda>ch. ch \<noteq> newline) (l @ newline # rest) = l"
  by (induction l) auto

lemma getline_short: "newline \<notin> set l \<Longrightarrow> length l < n \<Longrightarrow> getline n (l @ newline # rest) = (c_str l, False, rest)"
  by (simp add: getline_def takeWhile_line)

lemma getline_long:
  "newline \<notin> set l \<Longrightarrow> n \<le> length l \<Longrightarrow> 0 < n \<Longrightarrow>
    getline n (l @ newline # rest) = (c_str (take (n - 1) l), True, drop (n - 1) (l @ newline # rest))"
  by (simp add: getline_def takeWhile_line)

text \<open>A command line of 1024 characters or more ends the menu. \<open>getline\<close> fails on it, the loop
  breaks, and the user is back at the login menu without having been logged out: nothing is sent to
  the server, which goes on holding the session, and the failed input stream is handed back.\<close>

theorem long_line_ends_menu:
  assumes "newline \<notin> set l" and "1024 \<le> length l" and "isMainMenuRuning (fst s)" and "\<not> c_terminated (fst s)"
  shows "mainMenu E (l @ newline # rest) s = (drop 1023 (l @ newline # rest), True,
     (show_screen S_Help (fst s))\<lparr>isMainMenuRuning := False\<rparr>, snd s)"
  unfolding mainMenu_def
  by (subst menu_loop.simps) (use assms in \<open>simp add: help_command_def show_screen_def getline_long\<close>)

theorem long_line_ends_menu_witness:
  "let c = client_init\<lparr>isMainMenuRuning := True, g_isLoginSuccess := True\<rparr>;
       r = mainMenu scripted (replicate 1024 (CHR ''x'') @ newline # ''loginout:'' @ [newline]) (c, ([], []))
   in fst (snd r) \<and> \<not> isMainMenuRuning (fst (snd (snd r))) \<and> c_sent (fst (snd (snd r))) = []"
  using long_line_ends_menu [of "replicate 1024 (CHR ''x'')" "(client_init\<lparr>isMainMenuRuning := True, g_isLoginSuccess := True\<rparr>, ([], []))"
      scripted "''loginout:'' @ [newline]"]
  by (simp add: Let_def client_init_def show_screen_def)

text \<open>A name of 50 characters or more is cut and its password is lost. The overlong name sets
  \<open>failbit\<close>, the second \<open>getline\<close> stores nothing, and what is sent, for a login and for a
  registration alike, is the first 49 characters with an empty password.\<close>

theorem long_name_sends_empty_password:
  assumes "newline \<notin> set name" and "50 \<le> length name"
  shows "submit_credentials E m (name @ newline # rest) s =
    (True, drop 49 (name @ newline # rest), send_request E (credentials_request m (c_str (take 49 name), [])) s)"
  using assms by (simp add: submit_credentials_def read_credentials_def getline_long)

theorem long_name_sends_empty_password_witness:
  "\<exists>s. submit_credentials scripted REG_MSG (replicate 60 (CHR ''n'') @ newline # ''secret'' @ [newline]) (client_init, ([], []))
     = (True, replicate 11 (CHR ''n'') @ newline # ''secret'' @ [newline], s) \<and>
     c_sent (fst s) = scripted_dump (credentials_request REG_MSG (c_str (replicate 49 (CHR ''n'')), [])) @ [newline]"
  using long_name_sends_empty_password [of "replicate 60 (CHR ''n'')" scripted REG_MSG "''secret'' @ [newline]" "(client_init, ([], []))"]
  by (simp add: send_request_def send_json_def scripted_def client_init_def)

end
