(* ===== verification/ClientRun.thy ===== *)
theory ClientRun
  imports Client
begin

text \<open>
  \<open>src/client/main.cpp\<close> as a process: how \<open>main\<close> connects to the server, and the interleavings of
  its two threads, one that reads commands and one that receives, in steps of one command and one
  message. \<open>Client.thy\<close> has the steps of each thread; here they share the globals.
\<close>

subsection \<open>Connecting\<close>

record sockaddr_in =
  sin_addr :: "32 word"
  sin_port :: "16 word"

text \<open>
  The calls of the operating system. \<open>net_getaddrinfo\<close> is asked for TCP over IPv4; it gives its return
  code and, unless the result is the null pointer, the list it allocated with the address of its first
  entry. \<open>net_connect\<close>: \<open>True\<close> is a result other than \<open>-1\<close>. \<open>net_thread\<close>: whether the thread starts.
\<close>

record 'd net =
  net_socket :: "'d \<Rightarrow> int \<times> 'd"
  net_getaddrinfo :: "string \<Rightarrow> string \<Rightarrow> 'd \<Rightarrow> (int \<times> (nat \<times> sockaddr_in) option) \<times> 'd"
  net_freeaddrinfo :: "nat \<Rightarrow> 'd \<Rightarrow> 'd"
  net_connect :: "int \<Rightarrow> sockaddr_in \<Rightarrow> 'd \<Rightarrow> bool \<times> 'd"
  net_close :: "int \<Rightarrow> 'd \<Rightarrow> 'd"
  net_thread :: "'d \<Rightarrow> bool \<times> 'd"

text \<open>The pointer \<open>serverAddr\<close> is \<open>None\<close> when it is null, otherwise what it points to.\<close>

definition resolveServerAddress :: "'d net \<Rightarrow> string \<Rightarrow> 16 word \<Rightarrow> sockaddr_in option \<Rightarrow> ('d, bool \<times> sockaddr_in option) state" where
  "resolveServerAddress N host port serverAddr =
     (if serverAddr = None then return (False, serverAddr)
      else do {
        answer \<leftarrow> State (net_getaddrinfo N host (show_nat (unat port)));
        (case answer of
           (rc, None) \<Rightarrow> return (False, serverAddr)
         | (rc, Some (result, addr)) \<Rightarrow> do {
             _ \<leftarrow> modify (net_freeaddrinfo N result);
             return (if rc \<noteq> 0 then (False, serverAddr) else (True, Some addr)) }) })"

text \<open>\<open>main\<close> up to the detached receiving thread: how it ended, or the connected socket.\<close>

definition client_main_start :: "'d net \<Rightarrow> string list \<Rightarrow> ('d, exit_status + int) state" where
  "client_main_start N argv =
     (if length argv < 3 then return (Inl (ExitCode (- 1)))
      else let ip = argv ! 1; port = word_of_int (atoi (argv ! 2)) in do {
        clientfd \<leftarrow> State (net_socket N);
        if clientfd = - 1 then return (Inl (ExitCode (- 1)))
        else do {
          r \<leftarrow> resolveServerAddress N ip port (Some \<lparr>sin_addr = 0, sin_port = 0\<rparr>);
          (case r of
             (True, Some server) \<Rightarrow> do {
               connected \<leftarrow> State (net_connect N clientfd server);
               if \<not> connected then do { _ \<leftarrow> modify (net_close N clientfd); return (Inl (ExitCode (- 1))) }
               else do {
                 started \<leftarrow> State (net_thread N);
                 return (if started then Inr clientfd else Inl UncaughtException) } }
           | _ \<Rightarrow> do { _ \<leftarrow> modify (net_close N clientfd); return (Inl (ExitCode (- 1))) }) } })"

text \<open>
  The documented effect of these calls on the open sockets and the address lists not yet freed:
  a socket is new and not \<open>-1\<close>, an address list is new, and the two releases undo this.
\<close>

definition tracks_sockets :: "'d net \<Rightarrow> ('d \<Rightarrow> int set \<times> nat set) \<Rightarrow> bool" where
  "tracks_sockets N held \<longleftrightarrow>
     (\<forall>d fd d'. net_socket N d = (fd, d') \<longrightarrow> (if fd = - 1 then held d' = held d
        else fd \<notin> fst (held d) \<and> held d' = (insert fd (fst (held d)), snd (held d)))) \<and>
     (\<forall>h p d rc x d'. net_getaddrinfo N h p d = ((rc, x), d') \<longrightarrow> (case x of None \<Rightarrow> held d' = held d
        | Some (a, addr) \<Rightarrow> a \<notin> snd (held d) \<and> held d' = (fst (held d), insert a (snd (held d))))) \<and>
     (\<forall>a d. held (net_freeaddrinfo N a d) = (fst (held d), snd (held d) - {a})) \<and>
     (\<forall>fd a d. held (snd (net_connect N fd a d)) = held d) \<and>
     (\<forall>fd d. held (net_close N fd d) = (fst (held d) - {fd}, snd (held d))) \<and>
     (\<forall>d. held (snd (net_thread N d)) = held d)"

lemma tracks_socketsD:
  assumes "tracks_sockets N held"
  shows "net_socket N d = (fd, d') \<Longrightarrow>
      if fd = - 1 then held d' = held d else fd \<notin> fst (held d) \<and> held d' = (insert fd (fst (held d)), snd (held d))"
    and "net_getaddrinfo N h p d = ((rc, x), d') \<Longrightarrow> case x of None \<Rightarrow> held d' = held d
      | Some (a, addr) \<Rightarrow> a \<notin> snd (held d) \<and> held d' = (fst (held d), insert a (snd (held d)))"
    and "held (net_freeaddrinfo N a d) = (fst (held d), snd (held d) - {a})"
    and "held (snd (net_connect N fd addr d)) = held d"
    and "held (net_close N fd d) = (fst (held d) - {fd}, snd (held d))"
    and "held (snd (net_thread N d)) = held d"
  using assms unfolding tracks_sockets_def by blast+

lemma resolve_outcome:
  assumes "tracks_sockets N held"
    and "run_state (resolveServerAddress N host port (Some a0)) d = ((ok, out), d')"
  shows "held d' = held d \<and>
    (ok \<longrightarrow> (\<exists>a addr. out = Some addr \<and> fst (net_getaddrinfo N host (show_nat (unat port)) d) = (0, Some (a, addr))))"
proof -
  obtain rc x d1 where g: "net_getaddrinfo N host (show_nat (unat port)) d = ((rc, x), d1)" by (metis prod.collapse)
  show ?thesis
    using assms(2) tracks_socketsD(2) [OF assms(1) g] tracks_socketsD(3) [OF assms(1)]
    by (cases x) (auto simp: resolveServerAddress_def g split: if_splits)
qed

text \<open>
  C35: connecting. A start of the client that does not reach its loop leaves no socket open and no
  address list allocated, but for an exception of the thread's constructor, which ends the process. One that does
  holds exactly one socket more and no list, and connected it to the first address found for the
  host and the port it was given, the port taken modulo \<open>2\<^sup>1\<^sup>6\<close>.
\<close>

theorem client_start_cleans_up:
  assumes "tracks_sockets N held" and "run_state (client_main_start N argv) d = (r, d')"
  shows "case r of
      Inl (ExitCode e) \<Rightarrow> e = - 1 \<and> held d' = held d
    | Inl UncaughtException \<Rightarrow> snd (held d') = snd (held d)
    | Inr fd \<Rightarrow> fd \<notin> fst (held d) \<and> held d' = (insert fd (fst (held d)), snd (held d)) \<and>
        (\<exists>d1 a addr d2. 3 \<le> length argv \<and>
           fst (net_getaddrinfo N (argv ! 1) (show_nat (nat (atoi (argv ! 2) mod 2 ^ 16))) d1) = (0, Some (a, addr)) \<and>
           fst (net_connect N fd addr d2))"
proof -
  note t = tracks_socketsD [OF assms(1)]
  let ?port = "word_of_int (atoi (argv ! 2)) :: 16 word" and ?a0 = "\<lparr>sin_addr = 0, sin_port = 0\<rparr>"
  obtain fd d1 where s: "net_socket N d = (fd, d1)" by fastforce
  obtain ok out d2 where rs: "run_state (resolveServerAddress N (argv ! 1) ?port (Some ?a0)) d1 = ((ok, out), d2)"
    by (metis prod.collapse)
  have p: "show_nat (nat (atoi (argv ! 2) mod 2 ^ 16)) = show_nat (unat ?port)"
    by (simp add: unsigned_of_int take_bit_eq_mod)
  consider "length argv < 3" | "3 \<le> length argv" "fd = - 1" | "3 \<le> length argv" "fd \<noteq> - 1" "\<not> (ok \<and> out \<noteq> None)"
    | addr where "3 \<le> length argv" "fd \<noteq> - 1" "ok" "out = Some addr" by fastforce
  then show ?thesis
  proof cases
    case 4
    obtain c d3 where c: "net_connect N fd addr d2 = (c, d3)" by fastforce
    obtain st d4 where th: "net_thread N d3 = (st, d4)" by fastforce
    have h: "fd \<notin> fst (held d)" "held d2 = (insert fd (fst (held d)), snd (held d))" "held d3 = held d2" "held d4 = held d3"
      using t(1) [OF s] 4(2) resolve_outcome [OF assms(1) rs] t(4) [of fd addr d2] t(6) [of d3] by (simp_all add: c th)
    obtain a where a: "fst (net_getaddrinfo N (argv ! 1) (show_nat (unat ?port)) d1) = (0, Some (a, addr))"
      using resolve_outcome [OF assms(1) rs] 4(3,4) by auto
    have f: "fst (net_connect N fd addr d2) = c" by (simp add: c)
    show ?thesis
    proof (cases "c \<and> st")
      case True
      then have "r = Inr fd" "d' = d4" using assms(2) 4 s rs c th by (auto simp: client_main_start_def Let_def)
      then show ?thesis using h a f True 4(1) unfolding p by auto
    next
      case False
      then show ?thesis using assms(2) 4 s rs c th h t(5) [of fd d3]
        by (auto simp: client_main_start_def Let_def split: if_splits)
    qed
  qed (use assms(2) s rs t(1) [OF s] t(5) [of fd d2] resolve_outcome [OF assms(1) rs] in
      \<open>auto simp: client_main_start_def Let_def split: bool.splits option.splits\<close>)
qed

text \<open>
  A system that numbers its sockets and lists upwards and knows one host; a server listens there on
  port 8000.
\<close>

definition numbering_net :: "(int list \<times> nat list) net" where
  "numbering_net = \<lparr>
     net_socket = (\<lambda>(fs, ls). let fd = 1 + sum_list (map abs fs) in (fd, (fd # fs, ls))),
     net_getaddrinfo = (\<lambda>host port (fs, ls). if host = ''localhost''
       then ((0, Some (Suc (sum_list ls), \<lparr>sin_addr = 1, sin_port = word_of_int (atoi port)\<rparr>)), (fs, Suc (sum_list ls) # ls))
       else ((- 2, None), (fs, ls))),
     net_freeaddrinfo = (\<lambda>a (fs, ls). (fs, filter (\<lambda>k. k \<noteq> a) ls)),
     net_connect = (\<lambda>fd addr d. (sin_port addr = 8000, d)),
     net_close = (\<lambda>fd (fs, ls). (filter (\<lambda>k. k \<noteq> fd) fs, ls)),
     net_thread = (\<lambda>d. (True, d))\<rparr>"

lemma numbering_net_tracks: "tracks_sockets numbering_net (\<lambda>(fs, ls). (set fs, set ls))"
proof -
  have 1: "0 \<le> sum_list (map abs fs) \<and> (\<forall>x \<in> set fs. x \<le> sum_list (map abs fs))" for fs :: "int list"
    by (induction fs) auto
  have 1: "1 + sum_list (map abs fs) \<notin> set fs \<and> 1 + sum_list (map abs fs) \<noteq> - 1" for fs :: "int list"
    using 1 [of fs] by fastforce
  have 2: "Suc (sum_list ls) \<notin> set ls" for ls :: "nat list"
    using member_le_sum_list [of _ ls] by fastforce
  show ?thesis using 1 2
    by (auto simp: tracks_sockets_def numbering_net_def Let_def split: prod.splits if_splits)
qed

theorem client_start_cleans_up_witness:
  "(case run_state (client_main_start numbering_net [''client'', ''localhost'', show_int 73536]) ([7], []) of
     (r, d') \<Rightarrow> r = Inr 8 \<and> set (fst d') = {7, 8} \<and> snd d' = []) \<and>
   (\<exists>d1 a addr. fst (net_getaddrinfo numbering_net ''localhost'' ''8000'' d1) = (0, Some (a, addr)))"
proof -
  have d: "show_nat 8000 = ''8000''" by (simp add: show_nat.simps digit_char_def char_of_def bit_0)
  then have e: "atoi ''8000'' = 8000" using atoi_show_int [of 8000] by (simp add: show_int_def int32_range_def)
  have w: "nat (atoi (show_int 73536) mod 2 ^ 16) = 8000" "unat (word_of_int (atoi (show_int 73536)) :: 16 word) = 8000"
    by (simp_all add: int32_range_def unsigned_of_int take_bit_eq_mod)
  have r: "run_state (client_main_start numbering_net [''client'', ''localhost'', show_int 73536]) ([7], []) = (Inr 8, ([8, 7], []))"
    by (simp add: client_main_start_def resolveServerAddress_def numbering_net_def Let_def w d e del: atoi_show_int)
  with client_start_cleans_up [OF numbering_net_tracks r, unfolded nth_Cons_0 nth_Cons_Suc numeral_2_eq_2 One_nat_def w d]
  show ?thesis using w(1) d by (auto simp: numeral_2_eq_2)
qed

subsection \<open>The two threads\<close>

text \<open>
  Where the main thread stands: at the question for a choice; in \<open>sem_wait\<close> after a request of the
  given kind; woken; before a command of the menu; at the end, where the process is over.
\<close>

datatype main_at = AtChoice | AtWait EnMsgType | Woken EnMsgType | AtMenu | Ended

text \<open>\<open>cp_input\<close> is the standard input: whether the stream has failed, and the text still to be read.\<close>

record 'd client_process =
  cp_client :: client
  cp_world :: 'd
  cp_input :: "bool \<times> string"
  cp_at :: main_at

definition client_start :: "string \<Rightarrow> 'd \<Rightarrow> 'd client_process" where
  "client_start inp d = \<lparr>cp_client = client_init, cp_world = d, cp_input = (False, inp), cp_at = AtChoice\<rparr>"

text \<open>One turn of the loop of \<open>mainMenu\<close>: \<open>getline\<close> stores nothing once the stream has failed.\<close>

definition menu_turn :: "'d outside \<Rightarrow> 'd client_process \<Rightarrow> 'd client_process" where
  "menu_turn E p = (let c = cp_client p; (failed, inp) = cp_input p in
     if \<not> isMainMenuRuning c then p\<lparr>cp_at := AtChoice\<rparr>
     else (case (if failed then ([], True, inp) else getline 1024 inp) of (buffer, failed, rest) \<Rightarrow>
       if failed then p\<lparr>cp_client := c\<lparr>isMainMenuRuning := False\<rparr>, cp_input := (True, rest), cp_at := AtChoice\<rparr>
       else (case run_command E buffer (c, cp_world p) of (c, d) \<Rightarrow>
         p\<lparr>cp_client := c, cp_world := d, cp_input := (False, rest)\<rparr>)))"

text \<open>The next step of the main thread; \<open>None\<close>: it waits for a response, or the process is over.\<close>

definition main_thread :: "'d outside \<Rightarrow> 'd client_process \<Rightarrow> 'd client_process option" where
  "main_thread E p = (let c = cp_client p in
     if c_terminated c then None
     else (case cp_at p of
       AtChoice \<Rightarrow> (case main_step E (cp_input p) (c, cp_world p) of (act, inp, c, d) \<Rightarrow>
         Some \<lparr>cp_client = c, cp_world = d, cp_input = inp,
           cp_at = (case act of MainEnds \<Rightarrow> Ended | MainAgain \<Rightarrow> AtChoice | MainWaits m \<Rightarrow> AtWait m)\<rparr>)
     | AtWait m \<Rightarrow>
         (if c_rwsem c = 0 then None else Some (p\<lparr>cp_client := c\<lparr>c_rwsem := c_rwsem c - 1\<rparr>, cp_at := Woken m\<rparr>))
     | Woken m \<Rightarrow>
         Some (if m = LOGIN_MSG \<and> g_isLoginSuccess c
           then p\<lparr>cp_client := show_screen S_Help (c\<lparr>isMainMenuRuning := True\<rparr>), cp_at := AtMenu\<rparr>
           else p\<lparr>cp_at := AtChoice\<rparr>)
     | AtMenu \<Rightarrow> Some (menu_turn E p)
     | Ended \<Rightarrow> None))"

text \<open>
  The receiving thread takes bytes when its buffer holds no whole line, otherwise it handles the
  first line; \<open>recv\<close> may report the end of the connection, and the thread then calls \<open>exit(-1)\<close>. The
  labels say what a step was.
\<close>

datatype client_event = MainTurn | Asked EnMsgType | Awoke | Received string | Handled string | HungUp

definition main_event :: "main_at \<Rightarrow> main_at \<Rightarrow> client_event" where
  "main_event a a' = (case a of AtWait m \<Rightarrow> Awoke | _ \<Rightarrow> (case a' of AtWait m \<Rightarrow> Asked m | _ \<Rightarrow> MainTurn))"

definition listening :: "'d client_process \<Rightarrow> bool" where
  "listening p \<longleftrightarrow> \<not> c_terminated (cp_client p) \<and> cp_at p \<noteq> Ended"

definition on_client :: "(client \<Rightarrow> client) \<Rightarrow> 'd client_process \<Rightarrow> 'd client_process" where
  "on_client f p = p\<lparr>cp_client := f (cp_client p)\<rparr>"

inductive client_step :: "'d outside \<Rightarrow> 'd client_process \<Rightarrow> client_event \<Rightarrow> 'd client_process \<Rightarrow> bool" for E where
  main_steps: "main_thread E p = Some p' \<Longrightarrow> client_step E p (main_event (cp_at p) (cp_at p')) p'"
| receives: "listening p \<Longrightarrow> newline \<notin> set (c_recvbuf (cp_client p)) \<Longrightarrow> bytes \<noteq> [] \<Longrightarrow> length bytes \<le> 1024 \<Longrightarrow>
    client_step E p (Received bytes) (on_client (\<lambda>c. c\<lparr>c_recvbuf := c_recvbuf c @ bytes\<rparr>) p)"
| handles: "listening p \<Longrightarrow> find_char newline (c_recvbuf (cp_client p)) = Some pos \<Longrightarrow>
    l = take pos (c_recvbuf (cp_client p)) \<Longrightarrow>
    client_step E p (Handled l) (on_client (\<lambda>c. snd (client_frame E l (c\<lparr>c_recvbuf := drop (pos + 1) (c_recvbuf c)\<rparr>))) p)"
| hangs_up: "listening p \<Longrightarrow> newline \<notin> set (c_recvbuf (cp_client p)) \<Longrightarrow>
    client_step E p HungUp (on_client (\<lambda>c. c\<lparr>c_terminated := True\<rparr>) p)"

inductive client_run :: "'d outside \<Rightarrow> 'd client_process \<Rightarrow> client_event list \<Rightarrow> 'd client_process \<Rightarrow> bool" for E where
  run_nil: "client_run E p [] p"
| run_snoc: "client_run E p tr p1 \<Longrightarrow> client_step E p1 e p2 \<Longrightarrow> client_run E p (tr @ [e]) p2"

text \<open>Without the receiving thread, turn by turn is what \<open>mainMenu\<close> and \<open>main_resume\<close> do at once.\<close>

inductive main_alone :: "'d outside \<Rightarrow> 'd client_process \<Rightarrow> 'd client_process \<Rightarrow> bool" for E where
  alone_refl: "main_alone E p p"
| alone_step: "main_thread E p = Some p1 \<Longrightarrow> main_alone E p1 p2 \<Longrightarrow> main_alone E p p2"

lemma menu_loop_alone:
  assumes "menu_loop E inp s = (rest, failed, s')" "\<not> c_terminated (fst s')"
  shows "main_alone E \<lparr>cp_client = fst s, cp_world = snd s, cp_input = (False, inp), cp_at = AtMenu\<rparr>
    \<lparr>cp_client = fst s', cp_world = snd s', cp_input = (failed, rest), cp_at = AtChoice\<rparr>"
  using assms
proof (induction E inp s rule: menu_loop.induct)
  case (1 E inp s)
  let ?p = "\<lparr>cp_client = fst s, cp_world = snd s, cp_input = (False, inp), cp_at = AtMenu\<rparr>"
  note l = 1(2) [unfolded menu_loop.simps [of E inp s]]
  have t: "\<not> c_terminated (fst s)" using l 1(3) by (auto split: if_splits)
  then have s: "main_thread E ?p = Some (menu_turn E ?p)" by (simp add: main_thread_def)
  obtain buffer f r where g: "getline 1024 inp = (buffer, f, r)" by (metis prod.collapse)
  show ?case
  proof (cases "isMainMenuRuning (fst s) \<and> \<not> f")
    case False
    with l t g have "menu_turn E ?p = \<lparr>cp_client = fst s', cp_world = snd s', cp_input = (failed, rest), cp_at = AtChoice\<rparr>"
      by (auto simp: menu_turn_def split: if_splits)
    with s show ?thesis by (metis alone_refl alone_step)
  next
    case True
    let ?s = "run_command E buffer s"
    have "menu_turn E ?p = \<lparr>cp_client = fst ?s, cp_world = snd ?s, cp_input = (False, r), cp_at = AtMenu\<rparr>"
      using True g by (simp add: menu_turn_def split: prod.split)
    moreover have "menu_loop E r ?s = (rest, failed, s')" using l t True g by simp
    ultimately show ?thesis using 1(1) [OF _ g [symmetric] refl] True t s 1(3) by (auto intro: alone_step)
  qed
qed

lemma main_resume_alone:
  assumes "main_resume E m (failed, inp) (c, d) = Some ((failed', rest), c', d')"
    and "\<not> c_terminated c" "\<not> c_terminated c'"
  shows "main_alone E \<lparr>cp_client = c, cp_world = d, cp_input = (failed, inp), cp_at = AtWait m\<rparr>
    \<lparr>cp_client = c', cp_world = d', cp_input = (failed', rest), cp_at = AtChoice\<rparr>"
proof -
  let ?c = "c\<lparr>c_rwsem := c_rwsem c - 1\<rparr>"
  let ?woken = "\<lparr>cp_client = ?c, cp_world = d, cp_input = (failed, inp), cp_at = Woken m\<rparr>"
  have w: "c_rwsem c \<noteq> 0" using assms(1) by (auto simp: main_resume_def after_login_def split: if_splits)
  then have s: "main_thread E \<lparr>cp_client = c, cp_world = d, cp_input = (failed, inp), cp_at = AtWait m\<rparr> = Some ?woken"
    using assms(2) by (simp add: main_thread_def)
  show ?thesis
  proof (cases "m = LOGIN_MSG \<and> g_isLoginSuccess c")
    case False
    then have "main_thread E ?woken = Some \<lparr>cp_client = c', cp_world = d', cp_input = (failed', rest), cp_at = AtChoice\<rparr>"
      using assms w by (auto simp: main_thread_def main_resume_def after_login_def Let_def split: if_splits)
    with s show ?thesis by (blast intro: main_alone.intros)
  next
    case True
    let ?h = "show_screen S_Help (?c\<lparr>isMainMenuRuning := True\<rparr>)"
    let ?menu = "\<lparr>cp_client = ?h, cp_world = d, cp_input = (failed, inp), cp_at = AtMenu\<rparr>"
    have m: "main_thread E ?woken = Some ?menu" using True assms(2) by (simp add: main_thread_def)
    have "main_alone E ?menu \<lparr>cp_client = c', cp_world = d', cp_input = (failed', rest), cp_at = AtChoice\<rparr>"
    proof (cases failed)
      case True
      then have "main_thread E ?menu = Some \<lparr>cp_client = c', cp_world = d', cp_input = (failed', rest), cp_at = AtChoice\<rparr>"
        using assms(1,2) w \<open>m = LOGIN_MSG \<and> g_isLoginSuccess c\<close>
        by (auto simp: main_thread_def menu_turn_def main_resume_def after_login_def Let_def show_screen_def)
      then show ?thesis by (blast intro: main_alone.intros)
    next
      case False
      then have "menu_loop E inp (?h, d) = (rest, failed', c', d')"
        using assms(1) w True
        by (auto simp: main_resume_def after_login_def Let_def mainMenu_def help_command_def split: prod.splits)
      from menu_loop_alone [OF this] assms(3) False show ?thesis by simp
    qed
    with s m show ?thesis by (blast intro: main_alone.intros)
  qed
qed

subsection \<open>Who is logged in, and what the main thread waits for\<close>

text \<open>A line that answers a login or a registration; the id and name a successful login brings.\<close>

definition is_answer :: "'d outside \<Rightarrow> string \<Rightarrow> bool" where
  "is_answer E l \<longleftrightarrow> l \<noteq> [] \<and> (case ext_json_parse E l of None \<Rightarrow> False
     | Some js \<Rightarrow> int_field js ''msgid'' \<in> {Inr (msg_id LOG_MSG_ACK), Inr (msg_id REG_MSG_ACK)})"

definition login_of :: "'d outside \<Rightarrow> string \<Rightarrow> (int \<times> string) option" where
  "login_of E l = (case (if l = [] then None else ext_json_parse E l) of None \<Rightarrow> None
     | Some js \<Rightarrow> (case (int_field js ''msgid'', int_field js ''errno'', int_field js ''id'', string_field js ''name'') of
         (Inr m, Inr e, Inr i, Inr n) \<Rightarrow> if m = msg_id LOG_MSG_ACK \<and> e = 0 then Some (i, n) else None
       | _ \<Rightarrow> None))"

fun answers :: "'d outside \<Rightarrow> client_event list \<Rightarrow> nat" where
  "answers E [] = 0"
| "answers E (e # tr) = (case e of Handled l \<Rightarrow> of_bool (is_answer E l) | _ \<Rightarrow> 0) + answers E tr"

fun logins :: "'d outside \<Rightarrow> client_event list \<Rightarrow> (int \<times> string) list" where
  "logins E [] = []"
| "logins E (e # tr) = (case e of Handled l \<Rightarrow> (case login_of E l of None \<Rightarrow> [] | Some u \<Rightarrow> [u]) | _ \<Rightarrow> []) @ logins E tr"

fun asked :: "client_event list \<Rightarrow> nat" where
  "asked [] = 0"
| "asked (e # tr) = (case e of Asked m \<Rightarrow> 1 | _ \<Rightarrow> 0) + asked tr"

lemma trace_append [simp]:
  "answers E (tr @ tr') = answers E tr + answers E tr'" "logins E (tr @ tr') = logins E tr @ logins E tr'"
  "asked (tr @ tr') = asked tr + asked tr'"
  by (induction tr) simp_all

definition who :: "client \<Rightarrow> int \<times> string" where
  "who c = (u_id (g_currentUser c), u_name (g_currentUser c))"

text \<open>What one message does to the globals of the main thread.\<close>

lemma doLoginResponse_who:
  assumes "doLoginResponse E js c = Inr c'"
  shows "c_rwsem c' = c_rwsem c \<and> isMainMenuRuning c' = isMainMenuRuning c \<and>
    (case int_field js ''errno'' of Inl e \<Rightarrow> False
     | Inr e \<Rightarrow> if e = 0 then (\<exists>i n. int_field js ''id'' = Inr i \<and> string_field js ''name'' = Inr n \<and> who c' = (i, n))
         else who c' = who c \<and> \<not> g_isLoginSuccess c')"
  using assms
  by (auto simp: doLoginResponse_def and_then_def who_def show_screen_def Let_def split: sum.splits if_splits)

lemma client_frame_who:
  assumes "client_frame E l c = (False, c')"
  shows "c_rwsem c' = c_rwsem c + of_bool (is_answer E l) \<and> isMainMenuRuning c' = isMainMenuRuning c \<and>
    who c' = (case login_of E l of None \<Rightarrow> who c | Some u \<Rightarrow> u) \<and>
    (g_isLoginSuccess c' \<longrightarrow> g_isLoginSuccess c \<or> login_of E l \<noteq> None)"
proof (cases "l = [] \<or> ext_json_parse E l = None")
  case True
  then show ?thesis using assms by (auto simp: client_frame_def is_answer_def login_of_def who_def show_screen_def)
next
  case False
  then obtain js where js: "ext_json_parse E l = Some js" "l \<noteq> []" by auto
  have h: "handle_message E js c = Inr c'" using assms js by (auto simp: client_frame_def split: sum.splits)
  then obtain m where m: "int_field js ''msgid'' = Inr m" by (auto simp: handle_message_def and_then_def split: sum.splits)
  consider "m = msg_id LOG_MSG_ACK" | "m = msg_id REG_MSG_ACK" | "m \<noteq> msg_id LOG_MSG_ACK" "m \<noteq> msg_id REG_MSG_ACK" by blast
  then show ?thesis
  proof cases
    case 1
    obtain c1 where r: "doLoginResponse E js c = Inr c1" "c' = sem_post c1"
      using h 1 m by (auto simp: handle_message_def and_then_def split: sum.splits)
    then show ?thesis using doLoginResponse_who [OF r(1)] js m 1
      by (auto simp: is_answer_def login_of_def sem_post_def who_def split: sum.splits if_splits)
  next
    case 2
    obtain c1 where r: "doRegResponse js c = Inr c1" "c' = sem_post c1"
      using h 2 m by (auto simp: handle_message_def and_then_def split: sum.splits)
    then show ?thesis using js m 2
      by (auto simp: is_answer_def login_of_def sem_post_def who_def doRegResponse_def and_then_def show_screen_def
          split: sum.splits if_splits)
  next
    case 3
    then show ?thesis using h m js
      by (auto simp: handle_message_def is_answer_def login_of_def who_def and_then_def show_screen_def Let_def
          simp del: msg_id.simps split: sum.splits if_splits)
  qed
qed

text \<open>The main thread does not change who is logged in; only \<open>sem_wait\<close> takes from the semaphore.\<close>

definition same_session :: "client \<Rightarrow> client \<Rightarrow> bool" where
  "same_session c c' \<longleftrightarrow> who c' = who c \<and> g_isLoginSuccess c' = g_isLoginSuccess c \<and> c_rwsem c' = c_rwsem c"

lemma same_session_refl [simp]: "same_session c c"
  by (simp add: same_session_def)

lemma same_session_show [simp]: "same_session c (show_screen e c)"
  by (simp add: same_session_def show_screen_def who_def)

lemma send_session: "same_session (fst s) (fst (snd (send_json E js s)))"
  "isMainMenuRuning (fst (snd (send_json E js s))) = isMainMenuRuning (fst s)"
  by (auto simp: send_json_def same_session_def show_screen_def who_def Let_def split: option.split prod.split)

lemma request_session: "same_session (fst s) (fst (send_request E js s))" "same_session (fst s) (fst (send_silently E js s))"
  using send_session(1) [of s E js]
  by (auto simp: send_request_def send_silently_def split: prod.split)

lemma two_args_session:
  "(\<And>a b s. same_session (fst s) (fst (f a b s))) \<Longrightarrow> same_session (fst s) (fst (two_args f str s))"
  by (simp add: two_args_def split: option.split)

lemma run_command_session: "same_session (fst s) (fst (run_command E commandbuf s))"
proof -
  have h: "same_session (fst s) (fst (h str s))" if "(k, h) \<in> set (commandHandlerMap E)" for k h str
  proof -
    have req: "same_session c (fst (send_request E js (c, d)))" for E js c and d :: 'a
      using request_session(1) [of "(c, d)" E js] by simp
    have chats: "same_session (fst s) (fst (chat E str s))" "same_session (fst s) (fst (groupchat E str s))"
      unfolding chat_def groupchat_def
      by (rule two_args_session, auto simp: req split: prod.split)+
    have leave: "same_session (fst s) (fst (client_loginout E str s))"
    proof -
      let ?js = "JObj [(''msgid'', JInt (msg_id LOGINOUT_MSG)), (''userid'', JInt (u_id (g_currentUser (fst s))))]"
      obtain ok c d where r: "send_json E ?js s = (ok, c, d)" by (metis prod.collapse)
      have "same_session (fst s) c" using send_session(1) [of s E ?js] unfolding r by simp
      then show ?thesis using r by (simp add: client_loginout_def same_session_def who_def)
    qed
    show ?thesis
      using that chats leave
      by (auto simp: request_session req commandHandlerMap_def help_command_def addfriend_def acceptaddfriend_def rejectaddfriend_def
          answer_friend_def creategroup_def addgroup_def acceptaddgroup_def rejectaddgroup_def answer_group_def
          intro!: two_args_session)
  qed
  show ?thesis
    by (auto simp: run_command_def Let_def split: option.split dest!: map_of_SomeD h)
qed

lemma main_thread_session:
  assumes "main_thread E p = Some p'"
  shows "who (cp_client p') = who (cp_client p)" "g_isLoginSuccess (cp_client p') = g_isLoginSuccess (cp_client p)"
    and "c_rwsem (cp_client p) = c_rwsem (cp_client p') + of_bool (\<exists>m. cp_at p = AtWait m)"
    and "cp_at p' = AtMenu \<Longrightarrow> cp_at p = AtMenu \<or> g_isLoginSuccess (cp_client p)"
    and "(\<exists>m. cp_at p = AtWait m) \<Longrightarrow> \<not> (\<exists>m. cp_at p' = AtWait m)"
proof -
  have choice: "same_session (fst s) (fst (snd (snd (main_step E inp s))))" for inp s
  proof -
    have r: "same_session (fst s) (fst (snd (snd (submit_credentials E m rest s))))" for m rest
      by (simp add: submit_credentials_def request_session split: prod.split)
    show ?thesis
    proof (cases "read_choice inp")
      case (Some cr)
      then show ?thesis using r [of LOGIN_MSG "snd cr"] r [of REG_MSG "snd cr"]
        by (cases cr) (simp add: main_step_def Let_def split_beta)
    qed (simp add: main_step_def Let_def)
  qed
  have menu: "same_session (cp_client p) (cp_client (menu_turn E p))"
  proof -
    have r: "same_session (cp_client p) c" if "run_command E b (cp_client p, cp_world p) = (c, d)" for b c d
      using run_command_session [of "(cp_client p, cp_world p)" E b] that by simp
    have "same_session c (c\<lparr>isMainMenuRuning := b\<rparr>)" for c b by (simp add: same_session_def who_def)
    then show ?thesis by (auto simp: menu_turn_def Let_def dest: r split: prod.splits)
  qed
  have at: "cp_at (menu_turn E p) \<in> {AtChoice, cp_at p}"
    by (auto simp: menu_turn_def Let_def split: prod.splits)
  have all: "who (cp_client p') = who (cp_client p) \<and> g_isLoginSuccess (cp_client p') = g_isLoginSuccess (cp_client p) \<and>
    c_rwsem (cp_client p) = c_rwsem (cp_client p') + of_bool (\<exists>m. cp_at p = AtWait m) \<and>
    (cp_at p' = AtMenu \<longrightarrow> cp_at p = AtMenu \<or> g_isLoginSuccess (cp_client p)) \<and>
    ((\<exists>m. cp_at p = AtWait m) \<longrightarrow> \<not> (\<exists>m. cp_at p' = AtWait m))"
  proof (cases "cp_at p")
    case AtChoice
    then show ?thesis using assms choice [of "(cp_client p, cp_world p)" "cp_input p"]
      by (auto simp: main_thread_def same_session_def Let_def split: prod.splits if_splits main_action.splits)
  next
    case AtMenu
    then show ?thesis using assms menu at by (auto simp: main_thread_def same_session_def Let_def split: if_splits)
  qed (use assms in \<open>auto simp: main_thread_def Let_def who_def show_screen_def split: if_splits\<close>)
  then show "who (cp_client p') = who (cp_client p)" "g_isLoginSuccess (cp_client p') = g_isLoginSuccess (cp_client p)"
    "c_rwsem (cp_client p) = c_rwsem (cp_client p') + of_bool (\<exists>m. cp_at p = AtWait m)"
    "cp_at p' = AtMenu \<Longrightarrow> cp_at p = AtMenu \<or> g_isLoginSuccess (cp_client p)"
    "(\<exists>m. cp_at p = AtWait m) \<Longrightarrow> \<not> (\<exists>m. cp_at p' = AtWait m)"
    by blast+
qed

text \<open>The invariant of a run, as long as the process lives.\<close>

definition session_inv :: "'d outside \<Rightarrow> client_event list \<Rightarrow> 'd client_process \<Rightarrow> bool" where
  "session_inv E tr p \<longleftrightarrow>
     asked tr + c_rwsem (cp_client p) = answers E tr + of_bool (\<exists>m. cp_at p = AtWait m) \<and>
     who (cp_client p) = last ((- 1, []) # logins E tr) \<and>
     (g_isLoginSuccess (cp_client p) \<or> cp_at p = AtMenu \<longrightarrow> logins E tr \<noteq> [])"

lemma session_inv_step:
  assumes "session_inv E tr p" "client_step E p e p'" "\<not> c_terminated (cp_client p')"
  shows "session_inv E (tr @ [e]) p'"
  using assms(2)
proof cases
  case main_steps
  note m = main_thread_session [OF main_steps(2)]
  have "asked [e] = of_bool (\<exists>m. cp_at p' = AtWait m)" "answers E [e] = 0" "logins E [e] = []"
    using main_steps(1) m(5) by (auto simp: main_event_def split: main_at.splits)
  with assms(1) m show ?thesis by (auto simp: session_inv_def)
next
  case (receives bytes)
  then show ?thesis using assms(1) by (simp add: session_inv_def on_client_def who_def)
next
  case (handles pos l)
  let ?c = "(cp_client p)\<lparr>c_recvbuf := drop (pos + 1) (c_recvbuf (cp_client p))\<rparr>"
  obtain stop c' where f: "client_frame E l ?c = (stop, c')" by fastforce
  with assms(3) handles(2) have "\<not> stop" by (auto simp: on_client_def client_frame_def split: option.splits sum.splits if_splits)
  then have f: "client_frame E l ?c = (False, c')" using f by simp
  have w: "who ?c = who (cp_client p)" by (simp add: who_def)
  show ?thesis
    using client_frame_who [OF f] assms(1) handles(1,2) f w
    by (cases "login_of E l") (auto simp: session_inv_def on_client_def)
next
  case hangs_up
  then show ?thesis using assms(3) by (simp add: on_client_def)
qed

lemma client_step_alive: "client_step E p e p' \<Longrightarrow> \<not> c_terminated (cp_client p)"
  by (erule client_step.cases) (auto simp: main_thread_def listening_def Let_def split: if_splits)

lemma client_run_inv:
  "client_run E p0 tr p \<Longrightarrow> p0 = client_start inp d \<Longrightarrow> \<not> c_terminated (cp_client p) \<Longrightarrow> session_inv E tr p"
proof (induction rule: client_run.induct)
  case (run_nil p)
  then show ?case by (simp add: session_inv_def client_start_def client_init_def who_def User_def)
next
  case (run_snoc p tr p1 e p2)
  then show ?case using session_inv_step client_step_alive by blast
qed

text \<open>
  C24: the client's session. Whatever is typed, whatever the server sends, however it is cut and however
  the two threads interleave: in the menu, the globals hold the id and name of the last successful
  login response, so no command runs before one has come; and the main thread
  waits exactly while fewer responses to logins and registrations have been handled than asked for.
\<close>

theorem client_session:
  assumes "client_run E (client_start inp d) tr p" and "\<not> c_terminated (cp_client p)"
  shows "(cp_at p = AtMenu \<longrightarrow> logins E tr \<noteq> [] \<and>
      (u_id (g_currentUser (cp_client p)), u_name (g_currentUser (cp_client p))) = last (logins E tr)) \<and>
    (main_thread E p = None \<longleftrightarrow> answers E tr < asked tr \<or> cp_at p = Ended)"
proof -
  have i: "session_inv E tr p" by (rule client_run_inv [OF assms(1) refl assms(2)])
  have "main_thread E p = None \<longleftrightarrow> (\<exists>m. cp_at p = AtWait m) \<and> c_rwsem (cp_client p) = 0 \<or> cp_at p = Ended"
    using assms(2) by (auto simp: main_thread_def Let_def split: main_at.split prod.split)
  moreover have "answers E tr < asked tr \<longleftrightarrow> (\<exists>m. cp_at p = AtWait m) \<and> c_rwsem (cp_client p) = 0"
    using i by (cases "\<exists>m. cp_at p = AtWait m") (auto simp: session_inv_def)
  moreover have "cp_at p = AtMenu \<Longrightarrow> logins E tr \<noteq> [] \<and> who (cp_client p) = last (logins E tr)"
    using i by (simp add: session_inv_def)
  ultimately show ?thesis unfolding who_def by blast
qed

text \<open>A client on which ann logs in: the response arrives in whatever pieces, and the menu opens.\<close>

lemma client_receives:
  assumes "client_run E p0 tr p" "listening p" "newline \<notin> set (c_recvbuf (cp_client p) @ l)"
  shows "\<exists>tr'. client_run E p0 (tr @ tr') (on_client (\<lambda>c. c\<lparr>c_recvbuf := c_recvbuf c @ l @ [newline]\<rparr>) p) \<and> logins E tr' = []"
  using assms
proof (induction l arbitrary: tr p)
  case Nil
  have "client_step E p (Received [newline]) (on_client (\<lambda>c. c\<lparr>c_recvbuf := c_recvbuf c @ [newline]\<rparr>) p)"
    by (rule client_step.receives) (use Nil in auto)
  from client_run.run_snoc [OF Nil(1) this] show ?case by (intro exI [of _ "[Received [newline]]"]) simp
next
  case (Cons ch l)
  let ?p = "on_client (\<lambda>c. c\<lparr>c_recvbuf := c_recvbuf c @ [ch]\<rparr>) p"
  have "client_step E p (Received [ch]) ?p"
    by (rule client_step.receives) (use Cons in auto)
  from Cons.IH [OF client_run.run_snoc [OF Cons(2) this]] Cons(3,4) obtain tr' where
    "client_run E p0 ((tr @ [Received [ch]]) @ tr') (on_client (\<lambda>c. c\<lparr>c_recvbuf := c_recvbuf c @ l @ [newline]\<rparr>) ?p)" "logins E tr' = []"
    by (auto simp: listening_def on_client_def)
  then show ?case by (intro exI [of _ "Received [ch] # tr'"]) (simp add: on_client_def)
qed

definition ann_logged_in :: json where
  "ann_logged_in = JObj [(''msgid'', JInt (msg_id LOG_MSG_ACK)), (''errno'', JInt 0), (''id'', JInt 7), (''name'', JStr ''ann'')]"

definition ann_types :: string where
  "ann_types = ''1'' @ newline # ''ann'' @ newline # ''secret'' @ [newline]"

lemma ann_asks:
  "\<exists>c d. main_thread scripted (client_start ann_types ([], [])) =
     Some \<lparr>cp_client = client_init\<lparr>c_sent := c\<rparr>, cp_world = d, cp_input = (False, []), cp_at = AtWait LOGIN_MSG\<rparr>"
proof -
  define rest where "rest = ''ann'' @ newline # ''secret'' @ [newline]"
  have r: "read_choice (False, ann_types) = Some (''1'', rest)"
    by (simp add: read_choice_def ann_types_def is_space_def Let_def rest_def)
  have g: "read_credentials rest = ((''ann'', ''secret''), False, [])"
    using getline_short [of "''ann''" 50 "''secret'' @ [newline]"] getline_short [of "''secret''" 50 "[]"]
    by (simp add: read_credentials_def rest_def)
  show ?thesis
    by (simp add: main_thread_def client_start_def client_init_def main_step_def r submit_credentials_def g
        send_request_def send_json_def scripted_def Let_def split: prod.split)
qed

theorem client_session_witness:
  "\<exists>tr p. client_run scripted (client_start ann_types ([], [])) tr p \<and> cp_at p = AtMenu \<and>
     logins scripted tr = [(7, ''ann'')] \<and> u_id (g_currentUser (cp_client p)) = 7 \<and> main_thread scripted p \<noteq> None"
proof -
  let ?p0 = "client_start ann_types ([], [])" and ?l = "scripted_dump ann_logged_in"
  obtain sent d where p1: "main_thread scripted ?p0 =
      Some \<lparr>cp_client = client_init\<lparr>c_sent := sent\<rparr>, cp_world = d, cp_input = (False, []), cp_at = AtWait LOGIN_MSG\<rparr>" (is "_ = Some ?p1")
    using ann_asks by blast
  have l: "newline \<notin> set ?l" "?l \<noteq> []"
    by (simp_all add: scripted_dump_def show_nat_chars)
  have "client_step scripted ?p0 (Asked LOGIN_MSG) ?p1"
    using client_step.main_steps [OF p1] by (simp add: main_event_def client_start_def)
  from client_run.run_snoc [OF client_run.run_nil this]
  have r1: "client_run scripted ?p0 ([] @ [Asked LOGIN_MSG]) ?p1" by simp
  let ?p2 = "on_client (\<lambda>c. c\<lparr>c_recvbuf := c_recvbuf c @ ?l @ [newline]\<rparr>) ?p1"
  obtain tr where r2: "client_run scripted ?p0 (([] @ [Asked LOGIN_MSG]) @ tr) ?p2" "logins scripted tr = []"
    using client_receives [OF r1, of ?l] l by (auto simp: listening_def client_init_def)
  let ?user = "User\<lparr>u_id := 7, u_name := ''ann''\<rparr>"
  let ?c3 = "client_init\<lparr>c_sent := sent, g_currentUser := ?user, g_isLoginSuccess := True, c_screen := [S_UserInfo ?user [] []], c_rwsem := 1\<rparr>"
  have p3: "on_client (\<lambda>c. snd (client_frame scripted ?l (c\<lparr>c_recvbuf := drop (length ?l + 1) (c_recvbuf c)\<rparr>))) ?p2 = ?p1\<lparr>cp_client := ?c3\<rparr>"
    using l by (simp add: on_client_def client_frame_def scripted_def handle_message_def doLoginResponse_def ann_logged_in_def
        int32_range_def list_member_def Let_def sem_post_def client_init_def)
  have "client_step scripted ?p2 (Handled ?l) (?p1\<lparr>cp_client := ?c3\<rparr>)"
    unfolding p3 [symmetric] by (rule client_step.handles) (use l in \<open>simp_all add: listening_def on_client_def client_init_def\<close>)
  note r3 = client_run.run_snoc [OF r2(1) this]
  let ?p4 = "?p1\<lparr>cp_client := ?c3\<lparr>c_rwsem := 0\<rparr>, cp_at := Woken LOGIN_MSG\<rparr>"
  have "main_thread scripted (?p1\<lparr>cp_client := ?c3\<rparr>) = Some ?p4" by (simp add: main_thread_def client_init_def)
  from client_run.run_snoc [OF r3 client_step.main_steps [OF this]]
  have r4: "client_run scripted ?p0 (((([] @ [Asked LOGIN_MSG]) @ tr) @ [Handled ?l]) @ [Awoke]) ?p4" by (simp add: main_event_def)
  let ?p5 = "?p4\<lparr>cp_client := show_screen S_Help (?c3\<lparr>c_rwsem := 0, isMainMenuRuning := True\<rparr>), cp_at := AtMenu\<rparr>"
  have "main_thread scripted ?p4 = Some ?p5" by (simp add: main_thread_def client_init_def)
  from client_run.run_snoc [OF r4 client_step.main_steps [OF this]]
  have r5: "client_run scripted ?p0 ((((([] @ [Asked LOGIN_MSG]) @ tr) @ [Handled ?l]) @ [Awoke]) @ [MainTurn]) ?p5"
    by (simp add: main_event_def)
  have "login_of scripted ?l = Some (7, ''ann'')"
    using l by (simp add: login_of_def scripted_def ann_logged_in_def int32_range_def)
  then have s: "logins scripted ((((([] @ [Asked LOGIN_MSG]) @ tr) @ [Handled ?l]) @ [Awoke]) @ [MainTurn]) = [(7, ''ann'')]"
    using r2(2) by simp
  have p5: "cp_at ?p5 = AtMenu" "\<not> c_terminated (cp_client ?p5)" "main_thread scripted ?p5 \<noteq> None"
    by (simp_all add: show_screen_def client_init_def main_thread_def)
  have "(u_id (g_currentUser (cp_client ?p5)), u_name (g_currentUser (cp_client ?p5))) = last [(7, ''ann'')]"
    using client_session [OF r5 p5(2), unfolded s] p5(1) by blast
  then have "u_id (g_currentUser (cp_client ?p5)) = 7" by (simp only: last.simps prod.inject if_True simp_thms)
  with r5 s p5 show ?thesis by blast
qed

end
