(* ===== verification/Services.thy ===== *)
theory Services
  imports Models
begin

text \<open>
  The two RPC services, \<open>src/services/friend_service\<close> and \<open>src/services/offline_message_service\<close>,
  and the wrappers of \<open>src/server/chatservice.cpp\<close> through which the chat server calls them. The
  channel and the controller belong to the mprpc submodule: the fate of a call is a parameter
  (\<open>ext_rpc\<close>), and a call that is carried out runs the service's own code on the same world.
\<close>

subsection \<open>The protocol of the services\<close>

datatype proto_query_status = QS_OK | QS_NOT_FOUND | QS_DB_ERROR

record result_code =
  rc_errcode :: int
  rc_errmsg :: string

record friend_info =
  fi_id :: int
  fi_name :: string
  fi_state :: string

fun toProtoQueryStatus :: "QueryStatus \<Rightarrow> proto_query_status" where
  "toProtoQueryStatus Ok = QS_OK"
| "toProtoQueryStatus NotFound = QS_NOT_FOUND"
| "toProtoQueryStatus DbError = QS_DB_ERROR"

fun fromProtoQueryStatus :: "proto_query_status \<Rightarrow> QueryStatus" where
  "fromProtoQueryStatus QS_OK = Ok"
| "fromProtoQueryStatus QS_NOT_FOUND = NotFound"
| "fromProtoQueryStatus _ = DbError"

definition setResult :: "int \<Rightarrow> string \<Rightarrow> result_code" where
  "setResult errcode errmsg = \<lparr>rc_errcode = errcode, rc_errmsg = errmsg\<rparr>"

subsection \<open>FriendServiceImpl\<close>

definition FriendService_isUserExist :: "'d outside \<Rightarrow> int \<Rightarrow> ('d, proto_query_status \<times> bool) state" where
  "FriendService_isUserExist E friendid = do {
     exists \<leftarrow> FriendModel_isUserExist E friendid;
     return (QS_OK, exists) }"

definition FriendService_isFriend :: "'d outside \<Rightarrow> int \<Rightarrow> int \<Rightarrow> ('d, proto_query_status \<times> bool) state" where
  "FriendService_isFriend E userid friendid = do {
     isFriend \<leftarrow> FriendModel_isFriend E userid friendid;
     return (QS_OK, isFriend) }"

definition FriendService_insertFriend :: "'d outside \<Rightarrow> int \<Rightarrow> int \<Rightarrow> ('d, result_code) state" where
  "FriendService_insertFriend E userid friendid = do {
     _ \<leftarrow> FriendModel_insert E userid friendid;
     return (setResult 0 []) }"

definition FriendService_queryFriends ::
  "'d outside \<Rightarrow> int \<Rightarrow> ('d, result_code \<times> friend_info list) state" where
  "FriendService_queryFriends E userid = do {
     friends \<leftarrow> FriendModel_query E userid;
     return (setResult 0 [],
       map (\<lambda>u. \<lparr>fi_id = u_id u, fi_name = u_name u, fi_state = u_state u\<rparr>) friends) }"

definition FriendService_addFriendRequest :: "'d outside \<Rightarrow> int \<Rightarrow> int \<Rightarrow> ('d, result_code) state" where
  "FriendService_addFriendRequest E userid targetid = do {
     ok \<leftarrow> FriendRequestModel_addFriendRequest E userid targetid;
     return (setResult (if ok then 0 else 1) (if ok then [] else ''addFriendRequest failed'')) }"

definition FriendService_isPendingRequest ::
  "'d outside \<Rightarrow> int \<Rightarrow> int \<Rightarrow> ('d, proto_query_status \<times> bool) state" where
  "FriendService_isPendingRequest E userid targetid = do {
     r \<leftarrow> FriendRequestModel_isPendingRequest E userid targetid;
     return (toProtoQueryStatus (fst r), snd r) }"

definition FriendService_updateRequestStatus ::
  "'d outside \<Rightarrow> int \<Rightarrow> int \<Rightarrow> string \<Rightarrow> ('d, result_code) state" where
  "FriendService_updateRequestStatus E userid targetid status = do {
     ok \<leftarrow> FriendRequestModel_updateRequestStatus E userid targetid status;
     return (setResult (if ok then 0 else 1) (if ok then [] else ''updateRequestStatus failed'')) }"

definition FriendService_queryRequestStatus ::
  "'d outside \<Rightarrow> int \<Rightarrow> int \<Rightarrow> ('d, proto_query_status \<times> string) state" where
  "FriendService_queryRequestStatus E userid targetid = do {
     r \<leftarrow> FriendRequestModel_queryRequestStatus E userid targetid;
     return (toProtoQueryStatus (fst r), snd r) }"

subsection \<open>OfflineMessageServiceImpl\<close>

definition OfflineService_insert :: "'d outside \<Rightarrow> int \<Rightarrow> string \<Rightarrow> ('d, result_code) state" where
  "OfflineService_insert E userid msg = do {
     _ \<leftarrow> OfflineMsgModel_insert E userid msg; return (setResult 0 []) }"

definition OfflineService_query :: "'d outside \<Rightarrow> int \<Rightarrow> ('d, result_code \<times> string list) state" where
  "OfflineService_query E userid = do {
     messages \<leftarrow> OfflineMsgModel_query E userid; return (setResult 0 [], messages) }"

definition OfflineService_remove :: "'d outside \<Rightarrow> int \<Rightarrow> ('d, result_code) state" where
  "OfflineService_remove E userid = do {
     _ \<leftarrow> OfflineMsgModel_remove E userid; return (setResult 0 []) }"

subsection \<open>The wrappers of the chat server\<close>

text \<open>\<open>None\<close> is \<open>controller.Failed()\<close>.\<close>

definition call_rpc :: "'d outside \<Rightarrow> string \<Rightarrow> ('d, 'r) state \<Rightarrow> ('d, 'r option) state" where
  "call_rpc E name impl = do {
     fate \<leftarrow> State (ext_rpc E name);
     (case fate of
        RpcAnswered \<Rightarrow> do { r \<leftarrow> impl; return (Some r) }
      | RpcNotCarriedOut \<Rightarrow> return None
      | RpcAnswerLost \<Rightarrow> do { _ \<leftarrow> impl; return None }) }"

definition insertOfflineMessageByRpc :: "'d outside \<Rightarrow> int \<Rightarrow> string \<Rightarrow> ('d, bool) state" where
  "insertOfflineMessageByRpc E userid msg = do {
     response \<leftarrow> call_rpc E ''insert'' (OfflineService_insert E userid msg);
     return (case response of None \<Rightarrow> False | Some code \<Rightarrow> rc_errcode code = 0) }"

definition queryOfflineMessagesByRpc :: "'d outside \<Rightarrow> int \<Rightarrow> ('d, string list) state" where
  "queryOfflineMessagesByRpc E userid = do {
     response \<leftarrow> call_rpc E ''query'' (OfflineService_query E userid);
     return (case response of None \<Rightarrow> [] | Some (code, messages) \<Rightarrow> messages) }"

definition removeOfflineMessagesByRpc :: "'d outside \<Rightarrow> int \<Rightarrow> ('d, bool) state" where
  "removeOfflineMessagesByRpc E userid = do {
     response \<leftarrow> call_rpc E ''remove'' (OfflineService_remove E userid);
     return (case response of None \<Rightarrow> False | Some code \<Rightarrow> rc_errcode code = 0) }"

definition isUserExistByRpc :: "'d outside \<Rightarrow> int \<Rightarrow> ('d, bool) state" where
  "isUserExistByRpc E friendid = do {
     response \<leftarrow> call_rpc E ''isUserExist'' (FriendService_isUserExist E friendid);
     return (case response of None \<Rightarrow> False | Some (status, value) \<Rightarrow> status = QS_OK \<and> value) }"

definition isFriendByRpc :: "'d outside \<Rightarrow> int \<Rightarrow> int \<Rightarrow> ('d, bool) state" where
  "isFriendByRpc E userid friendid = do {
     response \<leftarrow> call_rpc E ''isFriend'' (FriendService_isFriend E userid friendid);
     return (case response of None \<Rightarrow> False | Some (status, value) \<Rightarrow> status = QS_OK \<and> value) }"

definition insertFriendByRpc :: "'d outside \<Rightarrow> int \<Rightarrow> int \<Rightarrow> ('d, unit) state" where
  "insertFriendByRpc E userid friendid = do {
     _ \<leftarrow> call_rpc E ''insertFriend'' (FriendService_insertFriend E userid friendid); return () }"

definition queryFriendsByRpc :: "'d outside \<Rightarrow> int \<Rightarrow> ('d, user list) state" where
  "queryFriendsByRpc E userid = do {
     response \<leftarrow> call_rpc E ''queryFriends'' (FriendService_queryFriends E userid);
     return (case response of None \<Rightarrow> []
       | Some (code, friends) \<Rightarrow>
           map (\<lambda>i. \<lparr>u_id = fi_id i, u_name = fi_name i, u_password = [], u_state = fi_state i\<rparr>) friends) }"

definition addFriendRequestByRpc :: "'d outside \<Rightarrow> int \<Rightarrow> int \<Rightarrow> ('d, bool) state" where
  "addFriendRequestByRpc E userid targetid = do {
     response \<leftarrow> call_rpc E ''addFriendRequest'' (FriendService_addFriendRequest E userid targetid);
     return (case response of None \<Rightarrow> False | Some code \<Rightarrow> rc_errcode code = 0) }"

definition isPendingRequestByRpc :: "'d outside \<Rightarrow> int \<Rightarrow> int \<Rightarrow> ('d, bool_query_result) state" where
  "isPendingRequestByRpc E userid targetid = do {
     response \<leftarrow> call_rpc E ''isPendingRequest'' (FriendService_isPendingRequest E userid targetid);
     return (case response of None \<Rightarrow> (DbError, False)
       | Some (status, value) \<Rightarrow> (fromProtoQueryStatus status, value)) }"

definition updateRequestStatusByRpc :: "'d outside \<Rightarrow> int \<Rightarrow> int \<Rightarrow> string \<Rightarrow> ('d, bool) state" where
  "updateRequestStatusByRpc E userid targetid status = do {
     response \<leftarrow> call_rpc E ''updateRequestStatus'' (FriendService_updateRequestStatus E userid targetid status);
     return (case response of None \<Rightarrow> False | Some code \<Rightarrow> rc_errcode code = 0) }"

definition queryRequestStatusByRpc :: "'d outside \<Rightarrow> int \<Rightarrow> int \<Rightarrow> ('d, request_status_result) state" where
  "queryRequestStatusByRpc E userid targetid = do {
     response \<leftarrow> call_rpc E ''queryRequestStatus'' (FriendService_queryRequestStatus E userid targetid);
     return (case response of None \<Rightarrow> (DbError, [])
       | Some (status, value) \<Rightarrow> (fromProtoQueryStatus status, value)) }"

subsection \<open>A remote call is the local call, or a failure\<close>

lemma fromProto_toProto [simp]: "fromProtoQueryStatus (toProtoQueryStatus s) = s"
  by (cases s) simp_all

lemma setResult_errcode [simp]: "rc_errcode (setResult c m) = c"
  by (simp add: setResult_def)

text \<open>
  \<open>remote E name impl failed d\<close> is what a wrapper does when the service's own answer is passed on
  unchanged: the local operation, with \<open>failed\<close> in place of the answer when none arrived.
\<close>

definition remote :: "'d outside \<Rightarrow> string \<Rightarrow> ('d, 'r) state \<Rightarrow> 'r \<Rightarrow> 'd \<Rightarrow> 'r \<times> 'd" where
  "remote E name impl failed d = (let (fate, d) = ext_rpc E name d in
     case fate of
       RpcAnswered \<Rightarrow> run_state impl d
     | RpcNotCarriedOut \<Rightarrow> (failed, d)
     | RpcAnswerLost \<Rightarrow> (failed, snd (run_state impl d)))"

lemmas rpc_defs = call_rpc_def remote_def Let_def

lemma run_queryOfflineMessagesByRpc:
  "run_state (queryOfflineMessagesByRpc E u) d = remote E ''query'' (OfflineMsgModel_query E u) [] d"
  by (auto simp: queryOfflineMessagesByRpc_def OfflineService_query_def rpc_defs split: prod.split rpc_fate.split)

lemma run_isUserExistByRpc:
  "run_state (isUserExistByRpc E u) d = remote E ''isUserExist'' (FriendModel_isUserExist E u) False d"
  by (auto simp: isUserExistByRpc_def FriendService_isUserExist_def rpc_defs split: prod.split rpc_fate.split)

lemma run_isFriendByRpc:
  "run_state (isFriendByRpc E u f) d = remote E ''isFriend'' (FriendModel_isFriend E u f) False d"
  by (auto simp: isFriendByRpc_def FriendService_isFriend_def rpc_defs split: prod.split rpc_fate.split)

lemma run_addFriendRequestByRpc:
  "run_state (addFriendRequestByRpc E u t) d =
     remote E ''addFriendRequest'' (FriendRequestModel_addFriendRequest E u t) False d"
  by (auto simp: addFriendRequestByRpc_def FriendService_addFriendRequest_def rpc_defs
      split: prod.split rpc_fate.split)

lemma run_updateRequestStatusByRpc:
  "run_state (updateRequestStatusByRpc E u t s) d =
     remote E ''updateRequestStatus'' (FriendRequestModel_updateRequestStatus E u t s) False d"
  by (auto simp: updateRequestStatusByRpc_def FriendService_updateRequestStatus_def rpc_defs
      split: prod.split rpc_fate.split)

lemma run_isPendingRequestByRpc:
  "run_state (isPendingRequestByRpc E u t) d =
     remote E ''isPendingRequest'' (FriendRequestModel_isPendingRequest E u t) (DbError, False) d"
  by (auto simp: isPendingRequestByRpc_def FriendService_isPendingRequest_def rpc_defs
      split: prod.split rpc_fate.split)

lemma run_queryRequestStatusByRpc:
  "run_state (queryRequestStatusByRpc E u t) d =
     remote E ''queryRequestStatus'' (FriendRequestModel_queryRequestStatus E u t) (DbError, []) d"
  by (auto simp: queryRequestStatusByRpc_def FriendService_queryRequestStatus_def rpc_defs
      split: prod.split rpc_fate.split)

lemmas run_wrappers = run_queryOfflineMessagesByRpc run_isUserExistByRpc run_isFriendByRpc
  run_addFriendRequestByRpc run_updateRequestStatusByRpc run_isPendingRequestByRpc
  run_queryRequestStatusByRpc

text \<open>
  The offline insert alone answers success whatever the database did: the model class drops the
  result of the update.
\<close>

lemma run_insertOfflineMessageByRpc:
  "run_state (insertOfflineMessageByRpc E u m) d = (let (fate, d) = ext_rpc E ''insert'' d in
     case fate of
       RpcAnswered \<Rightarrow> (True, snd (sql_update E (sql_offline_insert u m) d))
     | RpcNotCarriedOut \<Rightarrow> (False, d)
     | RpcAnswerLost \<Rightarrow> (False, snd (sql_update E (sql_offline_insert u m) d)))"
  by (auto simp: insertOfflineMessageByRpc_def OfflineService_insert_def OfflineMsgModel_insert_def
      call_rpc_def Let_def split: prod.split rpc_fate.split)

text \<open>The friend-service round trip is transparent. For the two operations the friend
  workflow decides on, what the chat server gets back from the wrapper is exactly what the model
  class of the service returned, status and value, or the documented failure value when no answer
  arrived; the conversion of the status to the protocol and back loses nothing.\<close>

theorem friend_rpc_transparent:
  "run_state (isPendingRequestByRpc E u t) d =
     remote E ''isPendingRequest'' (FriendRequestModel_isPendingRequest E u t) (DbError, False) d
   \<and> run_state (queryRequestStatusByRpc E u t) d =
     remote E ''queryRequestStatus'' (FriendRequestModel_queryRequestStatus E u t) (DbError, []) d"
  by (simp add: run_isPendingRequestByRpc run_queryRequestStatusByRpc)

text \<open>An answered \<open>insert\<close> of an offline message reports success whatever the database did
  with the statement, so the caller's error branch for a message that was not stored is reached
  only when the remote call itself fails.\<close>

theorem offline_insert_hides_db_failure:
  assumes "ext_rpc E ''insert'' d = (RpcAnswered, d')"
  shows "run_state (insertOfflineMessageByRpc E u m) d =
           (True, snd (sql_update E (sql_offline_insert u m) d'))"
  using assms by (simp add: run_insertOfflineMessageByRpc)

text \<open>The scripted world with a database that refuses every statement.\<close>

definition refusing :: "script outside" where
  "refusing = scripted\<lparr>ext_mysql_query := \<lambda>sql d. (True, d)\<rparr>"

theorem offline_insert_hides_db_failure_witness:
  "run_state (insertOfflineMessageByRpc refusing 7 ''hello'') ([], []) = (True, ([], []))
   \<and> fst (sql_update refusing (sql_offline_insert 7 ''hello'') ([], [])) = False"
  using offline_insert_hides_db_failure [of refusing "([], [])" "([], [])" 7 "''hello''"]
  by (simp add: refusing_def scripted_def sql_update_def)

end
