(* ===== verification/Redis.thy ===== *)
theory Redis
  imports Outside
begin

text \<open>
  \<open>src/server/redis/redis.cpp\<close>: the cross-node channel. Any thread publishes on one context; the
  other context belongs to the listener thread, which the others reach through a command queue and
  a pipe that wakes it from \<open>poll\<close>. A pointer or file descriptor is whether it is valid, the pipe
  the number of bytes in it; hiredis and the system calls are parameters (\<open>Outside.thy\<close>).
\<close>

datatype CommandType = Subscribe | Unsubscribe | StopCommand

type_synonym Command = "CommandType \<times> int"

record RedisConfig =
  redis_host :: string
  redis_port :: int
  redis_password :: string

record redis =
  r_publishContext :: bool
  r_subscribeContext :: bool
  r_wakeupFds :: "bool \<times> bool"
  r_wakeupBytes :: nat
  r_running :: bool
  r_listenerThread :: bool
  r_commandQueue :: "Command list"
  r_subscribedChannels :: "int set"
  r_messageHandler :: bool

definition Redis_new :: redis where
  "Redis_new = \<lparr>r_publishContext = False, r_subscribeContext = False, r_wakeupFds = (False, False),
     r_wakeupBytes = 0, r_running = False, r_listenerThread = False, r_commandQueue = [],
     r_subscribedChannels = {}, r_messageHandler = False\<rparr>"

subsection \<open>Configuration\<close>

definition getEnvOrDefault_redis :: "(string \<Rightarrow> string option) \<Rightarrow> string \<Rightarrow> string \<Rightarrow> string" where
  "getEnvOrDefault_redis env name defaultValue = (case env name of
     None \<Rightarrow> defaultValue
   | Some value \<Rightarrow> if value = [] then defaultValue else value)"

definition getEnvPortOrDefault :: "(string \<Rightarrow> string option) \<Rightarrow> string \<Rightarrow> int \<Rightarrow> int" where
  "getEnvPortOrDefault env name defaultValue = (let value = getEnvOrDefault_redis env name [] in
     if value = [] then defaultValue
     else (case stoi value of
             Some (port, _) \<Rightarrow> if port > 0 \<and> port \<le> 65535 then port else defaultValue
           | None \<Rightarrow> defaultValue))"

definition loadRedisConfig :: "(string \<Rightarrow> string option) \<Rightarrow> RedisConfig" where
  "loadRedisConfig env = \<lparr>redis_host = getEnvOrDefault_redis env ''REDIS_HOST'' ''127.0.0.1'',
     redis_port = getEnvPortOrDefault env ''REDIS_PORT'' 6379,
     redis_password = getEnvOrDefault_redis env ''REDIS_PASSWORD'' []\<rparr>"

subsection \<open>Start and reset\<close>

text \<open>The module's operations work on the module and the outside world, \<open>redis \<times> 'd\<close>.\<close>

definition on_world :: "('d, 'a) state \<Rightarrow> (redis \<times> 'd, 'a) state" where
  "on_world m = State (\<lambda>(r, d). let (a, d') = run_state m d in (a, (r, d')))"

definition on_redis :: "(redis \<Rightarrow> redis) \<Rightarrow> (redis \<times> 'd, unit) state" where
  "on_redis f = State (\<lambda>(r, d). ((), (f r, d)))"

lemma run_on_world [simp]:
  "run_state (on_world m) (r, d) = (fst (run_state m d), (r, snd (run_state m d)))"
  by (simp add: on_world_def split_beta)

lemma run_on_redis [simp]: "run_state (on_redis f) (r, d) = ((), (f r, d))"
  by (simp add: on_redis_def)

definition authRedisContext :: "'d outside \<Rightarrow> redis_context \<Rightarrow> RedisConfig \<Rightarrow> ('d, bool) state" where
  "authRedisContext E ctx config =
     (if redis_password config = [] then return True
      else do {
        reply \<leftarrow> State (ext_redis_command E ctx [''AUTH'', c_str (redis_password config)]);
        return (case reply of None \<Rightarrow> False | Some (RedisReplyError _) \<Rightarrow> False | Some _ \<Rightarrow> True) })"

definition initPublishContext :: "'d outside \<Rightarrow> (redis \<times> 'd, bool) state" where
  "initPublishContext E = (let config = loadRedisConfig (ext_getenv E) in do {
     context \<leftarrow> on_world (State (ext_redis_connect E PublishContext (c_str (redis_host config)) (redis_port config)));
     _ \<leftarrow> on_redis (r_publishContext_update (\<lambda>_. \<not> Option.is_none context));
     if context = None then return False
     else if the context then return False
     else do {
       ok \<leftarrow> on_world (authRedisContext E PublishContext config);
       if \<not> ok then do { _ \<leftarrow> on_redis (r_publishContext_update (\<lambda>_. False)); return False }
       else return True } })"

definition initSubscribeContext :: "'d outside \<Rightarrow> (redis \<times> 'd, bool) state" where
  "initSubscribeContext E = (let config = loadRedisConfig (ext_getenv E) in do {
     context \<leftarrow> on_world (State (ext_redis_connect E SubscribeContext (c_str (redis_host config)) (redis_port config)));
     _ \<leftarrow> on_redis (r_subscribeContext_update (\<lambda>_. \<not> Option.is_none context));
     if context = None then return False
     else if the context then return False
     else do {
       ok \<leftarrow> on_world (authRedisContext E SubscribeContext config);
       if \<not> ok then do { _ \<leftarrow> on_redis (r_subscribeContext_update (\<lambda>_. False)); return False }
       else return True } })"

definition Redis_reset :: "redis \<Rightarrow> redis" where
  "Redis_reset r = r\<lparr>r_publishContext := False, r_subscribeContext := False,
     r_wakeupFds := (False, False), r_wakeupBytes := 0, r_commandQueue := [],
     r_subscribedChannels := {}, r_messageHandler := False, r_running := False\<rparr>"

text \<open>\<open>handler\<close> is whether the \<open>std::function\<close> passed in holds a target.\<close>

definition Redis_start :: "'d outside \<Rightarrow> bool \<Rightarrow> (redis \<times> 'd, bool) state" where
  "Redis_start E handler = do {
     running \<leftarrow> gets (\<lambda>s. r_running (fst s));
     if running then return False
     else if \<not> handler then return False
     else do {
       _ \<leftarrow> on_redis (r_messageHandler_update (\<lambda>_. True));
       published \<leftarrow> initPublishContext E;
       if \<not> published then do { _ \<leftarrow> on_redis Redis_reset; return False }
       else do {
         subscribed \<leftarrow> initSubscribeContext E;
         if \<not> subscribed then do { _ \<leftarrow> on_redis Redis_reset; return False }
         else do {
           piped \<leftarrow> on_world (State (ext_pipe E));
           if \<not> piped then do { _ \<leftarrow> on_redis Redis_reset; return False }
           else do {
             _ \<leftarrow> on_redis (\<lambda>r. r\<lparr>r_wakeupFds := (True, True), r_wakeupBytes := 0, r_running := True\<rparr>);
             started \<leftarrow> on_world (State (ext_thread E));
             if \<not> started then do { _ \<leftarrow> on_redis Redis_reset; return False }
             else do { _ \<leftarrow> on_redis (r_listenerThread_update (\<lambda>_. True)); return True } } } } } }"

subsection \<open>Calls from other threads\<close>

definition enqueueCommand :: "Command \<Rightarrow> redis \<Rightarrow> bool \<times> redis" where
  "enqueueCommand command r = (True, r\<lparr>r_commandQueue := r_commandQueue r @ [command]\<rparr>)"

definition wakeupListener :: "'d outside \<Rightarrow> (redis \<times> 'd, bool) state" where
  "wakeupListener E = do {
     valid \<leftarrow> gets (\<lambda>s. snd (r_wakeupFds (fst s)));
     if \<not> valid then return False
     else do {
       written \<leftarrow> on_world (State (ext_write E));
       if \<not> written then return False
       else do { _ \<leftarrow> on_redis (\<lambda>r. r\<lparr>r_wakeupBytes := r_wakeupBytes r + 1\<rparr>); return True } } }"

definition send_command :: "'d outside \<Rightarrow> Command \<Rightarrow> (redis \<times> 'd, bool) state" where
  "send_command E command = do {
     running \<leftarrow> gets (\<lambda>s. r_running (fst s));
     if \<not> running then return False
     else do {
       queued \<leftarrow> State (\<lambda>(r, d). let (ok, r') = enqueueCommand command r in (ok, (r', d)));
       if \<not> queued then return False else wakeupListener E } }"

definition Redis_subscribe :: "'d outside \<Rightarrow> int \<Rightarrow> (redis \<times> 'd, bool) state" where
  "Redis_subscribe E channel = send_command E (Subscribe, channel)"

definition Redis_unsubscribe :: "'d outside \<Rightarrow> int \<Rightarrow> (redis \<times> 'd, bool) state" where
  "Redis_unsubscribe E channel = send_command E (Unsubscribe, channel)"

definition Redis_publish :: "'d outside \<Rightarrow> int \<Rightarrow> string \<Rightarrow> (redis \<times> 'd, bool) state" where
  "Redis_publish E channel message = do {
     r \<leftarrow> gets fst;
     if \<not> r_running r then return False
     else if \<not> r_publishContext r then return False
     else do {
       reply \<leftarrow> on_world (State (ext_redis_command E PublishContext
                  [''PUBLISH'', show_int channel, c_str message]));
       return (case reply of None \<Rightarrow> False | Some (RedisReplyError _) \<Rightarrow> False | Some _ \<Rightarrow> True) } }"

text \<open>\<open>stop\<close> up to the \<open>join\<close>, and what follows once the listener is gone.\<close>

definition Redis_stop_request :: "'d outside \<Rightarrow> (redis \<times> 'd, unit) state" where
  "Redis_stop_request E = do {
     running \<leftarrow> gets (\<lambda>s. r_running (fst s));
     if running then do {
       _ \<leftarrow> on_redis (\<lambda>r. snd (enqueueCommand (StopCommand, 0) r));
       _ \<leftarrow> wakeupListener E;
       return () }
     else return () }"

definition Redis_stop_finish :: "redis \<Rightarrow> redis" where
  "Redis_stop_finish r = Redis_reset (r\<lparr>r_listenerThread := False\<rparr>)"

subsection \<open>The listener\<close>

text \<open>\<open>while (!done) redisBufferWrite(...)\<close>: \<open>None\<close> when the network never takes the rest.\<close>

partial_function (option) write_all :: "'d outside \<Rightarrow> 'd \<Rightarrow> (bool \<times> 'd) option" where
  "write_all E d = (case ext_redis_write E d of
     (w, d') \<Rightarrow> (case w of
        WriteError \<Rightarrow> Some (False, d')
      | WriteMore \<Rightarrow> write_all E d'
      | WriteDone \<Rightarrow> Some (True, d')))"

definition sendSubscribeCommand :: "'d outside \<Rightarrow> int \<Rightarrow> redis \<times> 'd \<Rightarrow> (bool \<times> redis \<times> 'd) option" where
  "sendSubscribeCommand E channel = (\<lambda>(r, d).
     if \<not> r_subscribeContext r then Some (False, r, d)
     else if channel \<in> r_subscribedChannels r then Some (True, r, d)
     else (case ext_redis_append E [''SUBSCRIBE'', show_int channel] d of
             (True, d') \<Rightarrow> Some (False, r, d')
           | (False, d') \<Rightarrow> map_option (\<lambda>(ok, d''). (ok, r, d'')) (write_all E d')))"

definition sendUnsubscribeCommand :: "'d outside \<Rightarrow> int \<Rightarrow> redis \<times> 'd \<Rightarrow> (bool \<times> redis \<times> 'd) option" where
  "sendUnsubscribeCommand E channel = (\<lambda>(r, d).
     if \<not> r_subscribeContext r then Some (False, r, d)
     else (case ext_redis_append E [''UNSUBSCRIBE'', show_int channel] d of
             (True, d') \<Rightarrow> Some (False, r, d')
           | (False, d') \<Rightarrow> map_option (\<lambda>(ok, d''). (ok, r, d'')) (write_all E d')))"

definition handleCommand :: "'d outside \<Rightarrow> Command \<Rightarrow> redis \<times> 'd \<Rightarrow> (redis \<times> 'd) option" where
  "handleCommand E command s = (case fst command of
     Subscribe \<Rightarrow> map_option snd (sendSubscribeCommand E (snd command) s)
   | Unsubscribe \<Rightarrow> map_option snd (sendUnsubscribeCommand E (snd command) s)
   | StopCommand \<Rightarrow> Some ((fst s)\<lparr>r_running := False\<rparr>, snd s))"

fun handle_all :: "'d outside \<Rightarrow> Command list \<Rightarrow> redis \<times> 'd \<Rightarrow> (redis \<times> 'd) option" where
  "handle_all E [] s = Some s"
| "handle_all E (command # pending) s = Option.bind (handleCommand E command s) (handle_all E pending)"

definition handlePendingCommands :: "'d outside \<Rightarrow> redis \<times> 'd \<Rightarrow> (redis \<times> 'd) option" where
  "handlePendingCommands E = (\<lambda>(r, d). handle_all E (r_commandQueue r) (r\<lparr>r_commandQueue := []\<rparr>, d))"

text \<open>
  \<open>handleRedisReply\<close>: the module afterwards, and the call of the message handler it makes, if any.
  \<open>reply_str\<close> is the string of an element that is there and has one.
\<close>

definition reply_str :: "string option option list \<Rightarrow> nat \<Rightarrow> string option" where
  "reply_str elements i = (case elements ! i of None \<Rightarrow> None | Some s \<Rightarrow> s)"

definition handleRedisReply :: "redis_reply option \<Rightarrow> redis \<Rightarrow> redis \<times> (int \<times> string) option" where
  "handleRedisReply reply r = (case reply of
     None \<Rightarrow> (r, None)
   | Some (RedisReplyError _) \<Rightarrow> (r, None)
   | Some RedisReplyOther \<Rightarrow> (r, None)
   | Some (RedisReplyArray elements) \<Rightarrow>
       if length elements < 3 then (r, None)
       else (case reply_str elements 0 of
          None \<Rightarrow> (r, None)
        | Some replyType \<Rightarrow>
            if replyType = ''subscribe'' then
              (case reply_str elements 1 of
                 Some s \<Rightarrow> (r\<lparr>r_subscribedChannels := insert (atoi s) (r_subscribedChannels r)\<rparr>, None)
               | None \<Rightarrow> (r, None))
            else if replyType = ''unsubscribe'' then
              (case reply_str elements 1 of
                 Some s \<Rightarrow> (r\<lparr>r_subscribedChannels := r_subscribedChannels r - {atoi s}\<rparr>, None)
               | None \<Rightarrow> (r, None))
            else if replyType = ''message'' then
              (if \<not> r_messageHandler r then (r, None)
               else (case reply_str elements 1 of
                  None \<Rightarrow> (r, None)
                | Some s \<Rightarrow> (case reply_str elements 2 of
                    None \<Rightarrow> (r, None)
                  | Some message \<Rightarrow> (r, Some (atoi s, message)))))
            else (r, None)))"

text \<open>
  One turn of \<open>listenerLoop\<close>. What the system calls deliver is its argument: whether \<open>poll\<close>
  failed, which descriptors are readable, whether the \<open>read\<close> succeeded, and what \<open>redisGetReply\<close>
  returned (\<open>None\<close>: not \<open>REDIS_OK\<close>). The result is the state, and the message handed on.
\<close>

record poll_result =
  poll_failed :: bool
  poll_wakeup :: bool
  poll_message :: bool
  read_ok :: bool
  get_reply :: "redis_reply option option"

definition listener_read :: "redis \<Rightarrow> redis" where
  "listener_read r = r\<lparr>r_wakeupBytes := r_wakeupBytes r - min 64 (r_wakeupBytes r)\<rparr>"

definition listener_receive :: "redis_reply option option \<Rightarrow> redis \<Rightarrow> redis \<times> (int \<times> string) option" where
  "listener_receive got r = (case got of
     None \<Rightarrow> (r\<lparr>r_running := False\<rparr>, None)
   | Some reply \<Rightarrow> handleRedisReply reply r)"

definition listener_turn :: "'d outside \<Rightarrow> poll_result \<Rightarrow> redis \<times> 'd \<Rightarrow>
    ((redis \<times> 'd) \<times> (int \<times> string) option) option" where
  "listener_turn E p = (\<lambda>(r, d).
     if poll_failed p then Some ((r\<lparr>r_running := False\<rparr>, d), None)
     else if poll_wakeup p \<and> \<not> read_ok p then Some ((r\<lparr>r_running := False\<rparr>, d), None)
     else (case (if poll_wakeup p then handlePendingCommands E (listener_read r, d) else Some (r, d)) of
             None \<Rightarrow> None
           | Some (r1, d1) \<Rightarrow>
               if \<not> r_running r1 then Some ((r1, d1), None)
               else if poll_message p
               then (case listener_receive (get_reply p) r1 of (r2, call) \<Rightarrow> Some ((r2, d1), call))
               else Some ((r1, d1), None)))"

text \<open>The loop, over the turns \<open>poll\<close> gives it; it returns the messages it handed on.\<close>

fun listenerLoop :: "'d outside \<Rightarrow> poll_result list \<Rightarrow> redis \<times> 'd \<Rightarrow>
    ((redis \<times> 'd) \<times> (int \<times> string) list) option" where
  "listenerLoop E [] s = Some (s, [])"
| "listenerLoop E (p # ps) s =
     (if \<not> r_subscribeContext (fst s) then Some (((fst s)\<lparr>r_running := False\<rparr>, snd s), [])
      else if \<not> r_running (fst s) then Some (s, [])
      else (case listener_turn E p s of
              None \<Rightarrow> None
            | Some (s1, call) \<Rightarrow> map_option (\<lambda>(s2, calls). (s2, (case call of None \<Rightarrow> [] | Some c \<Rightarrow> [c]) @ calls))
                (listenerLoop E ps s1)))"

subsection \<open>Starting and stopping\<close>

lemma run_wakeupListener:
  "run_state (wakeupListener E) (r, d) =
     (if \<not> snd (r_wakeupFds r) then (False, (r, d))
      else if fst (ext_write E d)
      then (True, (r\<lparr>r_wakeupBytes := r_wakeupBytes r + 1\<rparr>, snd (ext_write E d)))
      else (False, (r, snd (ext_write E d))))"
  by (simp add: wakeupListener_def split: prod.split)

lemma run_send_command:
  "run_state (send_command E c) (r, d) =
     (if \<not> r_running r then (False, (r, d))
      else run_state (wakeupListener E) (snd (enqueueCommand c r), d))"
  by (simp add: send_command_def enqueueCommand_def)

lemma initPublishContext_run:
  obtains ok b d' where "run_state (initPublishContext E) (r, d) = (ok, (r\<lparr>r_publishContext := b\<rparr>, d'))"
    and "ok \<longrightarrow> b"
proof -
  let ?out = "run_state (initPublishContext E) (r, d)"
  have "\<exists>b. fst (snd ?out) = r\<lparr>r_publishContext := b\<rparr> \<and> (fst ?out \<longrightarrow> b)"
    by (auto simp: initPublishContext_def Let_def split_beta)
  with that show ?thesis by (metis prod.collapse)
qed

lemma initSubscribeContext_run:
  obtains ok b d' where "run_state (initSubscribeContext E) (r, d) = (ok, (r\<lparr>r_subscribeContext := b\<rparr>, d'))"
    and "ok \<longrightarrow> b"
proof -
  let ?out = "run_state (initSubscribeContext E) (r, d)"
  have "\<exists>b. fst (snd ?out) = r\<lparr>r_subscribeContext := b\<rparr> \<and> (fst ?out \<longrightarrow> b)"
    by (auto simp: initSubscribeContext_def Let_def split_beta)
  with that show ?thesis by (metis prod.collapse)
qed

lemma Redis_start_spec:
  assumes "run_state (Redis_start E handler) (r, d) = (ok, (r', d'))"
  shows "(ok \<longrightarrow> \<not> r_running r \<and> handler \<and> r_running r' \<and> r_publishContext r' \<and> r_subscribeContext r' \<and>
            r_wakeupFds r' = (True, True) \<and> r_messageHandler r' \<and> r_listenerThread r' \<and>
            r_commandQueue r' = r_commandQueue r) \<and>
         (\<not> ok \<longrightarrow> r' = (if r_running r \<or> \<not> handler then r else Redis_reset r))"
proof (cases "r_running r \<or> \<not> handler")
  case True
  then have "run_state (Redis_start E handler) (r, d) = (False, (r, d))"
    by (cases "r_running r") (simp_all add: Redis_start_def)
  with assms True show ?thesis by simp
next
  case False
  obtain ok1 b1 d1 where 1: "run_state (initPublishContext E) (r\<lparr>r_messageHandler := True\<rparr>, d) =
      (ok1, (r\<lparr>r_messageHandler := True, r_publishContext := b1\<rparr>, d1))" "ok1 \<longrightarrow> b1"
    by (rule initPublishContext_run) auto
  obtain ok2 b2 d2 where 2: "run_state (initSubscribeContext E)
      (r\<lparr>r_messageHandler := True, r_publishContext := b1\<rparr>, d1) =
      (ok2, (r\<lparr>r_messageHandler := True, r_publishContext := b1, r_subscribeContext := b2\<rparr>, d2))" "ok2 \<longrightarrow> b2"
    by (rule initSubscribeContext_run) auto
  obtain p3 d3 where 3: "ext_pipe E d2 = (p3, d3)" by fastforce
  obtain p4 d4 where 4: "ext_thread E d3 = (p4, d4)" by fastforce
  show ?thesis
    using assms False 1 2
    by (cases ok1; cases ok2; cases p3; cases p4) (auto simp: Redis_start_def Redis_reset_def 3 4)
qed

text \<open>C31: starting the module is all or nothing. If \<open>start\<close> reports success, the module runs with
  both contexts, the pipe, the handler and the listener thread in place; if it reports failure, a
  running module is untouched and one that was not running is either untouched (no handler) or
  completely reset, whichever step failed.\<close>

theorem start_all_or_nothing:
  assumes "run_state (Redis_start E handler) (r, d) = (ok, (r', d'))"
  shows "(ok \<longrightarrow> \<not> r_running r \<and> handler \<and> r_running r' \<and> r_publishContext r' \<and> r_subscribeContext r' \<and>
            r_wakeupFds r' = (True, True) \<and> r_messageHandler r' \<and> r_listenerThread r' \<and>
            r_commandQueue r' = r_commandQueue r) \<and>
         (\<not> ok \<longrightarrow> r' = (if r_running r \<or> \<not> handler then r else Redis_reset r))"
  using assms by (rule Redis_start_spec)

theorem start_all_or_nothing_witness:
  "run_state (Redis_start (scripted\<lparr>ext_pipe := \<lambda>d. (False, d)\<rparr>) True) (Redis_new, ([], [])) =
     (False, (Redis_new, ([], [])))
   \<and> Redis_new = Redis_reset Redis_new"
proof -
  let ?E = "scripted\<lparr>ext_pipe := \<lambda>d. (False, d)\<rparr>"
  have run: "run_state (Redis_start ?E True) (Redis_new, ([], [])) =
      (False, (Redis_new, ([], [])))"
    by (simp add: Redis_start_def initPublishContext_def initSubscribeContext_def Let_def
        authRedisContext_def loadRedisConfig_def getEnvOrDefault_redis_def scripted_def Redis_new_def Redis_reset_def)
  from start_all_or_nothing [OF run] run show ?thesis
    by (simp add: Redis_new_def Redis_reset_def)
qed

subsection \<open>The listener's commands\<close>

lemma send_frame:
  "sendSubscribeCommand E ch (r, d) = Some (ok, s) \<Longrightarrow> fst s = r"
  "sendUnsubscribeCommand E ch (r, d) = Some (ok, s) \<Longrightarrow> fst s = r"
  by (auto simp: sendSubscribeCommand_def sendUnsubscribeCommand_def split: if_splits prod.splits bool.splits)

lemma handleCommand_frame:
  assumes "handleCommand E c s = Some s'"
  shows "fst s' = (if fst c = StopCommand then (fst s)\<lparr>r_running := False\<rparr> else fst s)"
  using assms by (cases s) (auto simp: handleCommand_def dest: send_frame split: CommandType.splits)

lemma handle_all_frame:
  assumes "handle_all E cs s = Some s'"
  shows "fst s' = (if StopCommand \<in> fst ` set cs then (fst s)\<lparr>r_running := False\<rparr> else fst s)"
  using assms
proof (induction cs arbitrary: s)
  case Nil
  then show ?case by simp
next
  case (Cons c cs)
  then obtain s1 where 1: "handleCommand E c s = Some s1" and 2: "handle_all E cs s1 = Some s'"
    by (auto simp: bind_eq_Some_conv)
  show ?case
    using Cons.IH [OF 2] handleCommand_frame [OF 1] by auto
qed

lemma handlePendingCommands_frame:
  assumes "handlePendingCommands E (r, d) = Some (r', d')"
  shows "r' = r\<lparr>r_commandQueue := [],
           r_running := r_running r \<and> StopCommand \<notin> fst ` set (r_commandQueue r)\<rparr>"
  using handle_all_frame [of E "r_commandQueue r"] assms by (fastforce simp: handlePendingCommands_def)

text \<open>C39: a user who logs out and in again before the listener has seen Redis confirm the
  unsubscription ends up unsubscribed. When both commands wait in the queue, the listener sends the
  UNSUBSCRIBE only: it takes the channel for subscribed and skips the SUBSCRIBE, and the
  confirmation it then receives removes the channel, with nothing left to ask for it again.\<close>

theorem resubscribe_is_dropped:
  assumes "r_subscribeContext r" and "int32_range ch" and "ch \<in> r_subscribedChannels r"
    and "r_commandQueue r = [(Unsubscribe, ch), (Subscribe, ch)]"
    and "sendUnsubscribeCommand E ch (r\<lparr>r_commandQueue := []\<rparr>, d) = Some (ok, s)"
  shows "handlePendingCommands E (r, d) = Some (r\<lparr>r_commandQueue := []\<rparr>, snd s) \<and>
         ch \<notin> r_subscribedChannels (fst (handleRedisReply
           (Some (RedisReplyArray [Some (Some ''unsubscribe''), Some (Some (show_int ch)), Some None]))
           (r\<lparr>r_commandQueue := []\<rparr>)))"
proof -
  obtain d' where s: "s = (r\<lparr>r_commandQueue := []\<rparr>, d')"
    using send_frame(2) [OF assms(5)] by (cases s) auto
  then have "sendSubscribeCommand E ch s = Some (True, s)"
    using assms(1,3) by (simp add: sendSubscribeCommand_def)
  then show ?thesis
    using assms by (simp add: handlePendingCommands_def handleCommand_def handleRedisReply_def reply_str_def s)
qed

text \<open>A module as it runs, with one user's channel subscribed.\<close>

definition Redis_running :: redis where
  "Redis_running = Redis_new\<lparr>r_publishContext := True, r_subscribeContext := True,
     r_wakeupFds := (True, True), r_running := True, r_listenerThread := True, r_messageHandler := True\<rparr>"

theorem resubscribe_is_dropped_witness:
  "handlePendingCommands scripted
     (Redis_running\<lparr>r_subscribedChannels := {7}, r_commandQueue := [(Unsubscribe, 7), (Subscribe, 7)]\<rparr>, ([], []))
   = Some (Redis_running\<lparr>r_subscribedChannels := {7}\<rparr>, ([], []))"
proof -
  let ?r = "Redis_running\<lparr>r_subscribedChannels := {7}, r_commandQueue := [(Unsubscribe, 7), (Subscribe, 7)]\<rparr>"
  have "sendUnsubscribeCommand scripted 7 (?r\<lparr>r_commandQueue := []\<rparr>, ([], [])) =
      Some (True, (?r\<lparr>r_commandQueue := []\<rparr>, ([], [])))"
    by (simp add: sendUnsubscribeCommand_def Redis_running_def scripted_def write_all.simps)
  from resubscribe_is_dropped [OF _ _ _ _ this] show ?thesis
    by (simp add: Redis_running_def Redis_new_def int32_range_def)
qed

subsection \<open>Waking the listener\<close>

text \<open>
  The threads that call \<open>subscribe\<close>, \<open>unsubscribe\<close> or \<open>stop\<close>, and the listener. \<open>w_checked\<close> of the
  callers have seen the module run and are about to enqueue, \<open>w_inflight\<close> have enqueued and are about
  to write the wake-up byte. The listener is in \<open>poll\<close>, or past its \<open>read\<close> and about to take the queue
  (\<open>w_drained\<close>). The rest is history: the commands accepted and handled so far, and how many callers
  \<open>wakeupListener\<close> has told of a failure since the listener last took the queue.
\<close>

record 'd wake_state =
  w_redis :: redis
  w_world :: 'd
  w_checked :: nat
  w_inflight :: nat
  w_drained :: bool
  w_failed :: nat
  w_accepted :: "Command list"
  w_handled :: "Command list"

inductive wake_step :: "'d outside \<Rightarrow> 'd wake_state \<Rightarrow> 'd wake_state \<Rightarrow> bool" for E where
  check: "r_running (w_redis s) \<Longrightarrow> wake_step E s (s\<lparr>w_checked := Suc (w_checked s)\<rparr>)"
| enqueue: "w_checked s = Suc n \<Longrightarrow>
    wake_step E s (s\<lparr>w_redis := snd (enqueueCommand c (w_redis s)), w_checked := n, w_inflight := Suc (w_inflight s),
      w_accepted := w_accepted s @ [c]\<rparr>)"
| wake: "w_inflight s = Suc n \<Longrightarrow> run_state (wakeupListener E) (w_redis s, w_world s) = (ok, (r, d)) \<Longrightarrow>
    wake_step E s (s\<lparr>w_redis := r, w_world := d, w_inflight := n, w_failed := w_failed s + (if ok then 0 else 1)\<rparr>)"
| read: "r_running (w_redis s) \<Longrightarrow> \<not> w_drained s \<Longrightarrow> 0 < r_wakeupBytes (w_redis s) \<Longrightarrow>
    wake_step E s (s\<lparr>w_redis := listener_read (w_redis s), w_drained := True\<rparr>)"
| fail: "r_running (w_redis s) \<Longrightarrow> \<not> w_drained s \<Longrightarrow> wake_step E s (s\<lparr>w_redis := (w_redis s)\<lparr>r_running := False\<rparr>\<rparr>)"
| take: "w_drained s \<Longrightarrow> handlePendingCommands E (w_redis s, w_world s) = Some (r, d) \<Longrightarrow>
    wake_step E s (s\<lparr>w_redis := r, w_world := d, w_drained := False, w_failed := 0,
      w_handled := w_handled s @ r_commandQueue (w_redis s)\<rparr>)"

definition wake_start :: "redis \<Rightarrow> 'd \<Rightarrow> 'd wake_state" where
  "wake_start r d = \<lparr>w_redis = r, w_world = d, w_checked = 0, w_inflight = 0, w_drained = False, w_failed = 0,
     w_accepted = r_commandQueue r, w_handled = []\<rparr>"

inductive wake_reachable :: "'d outside \<Rightarrow> 'd wake_state \<Rightarrow> 'd wake_state \<Rightarrow> bool" for E s0 where
  start: "wake_reachable E s0 s0"
| more: "wake_reachable E s0 s \<Longrightarrow> wake_step E s s' \<Longrightarrow> wake_reachable E s0 s'"

definition wake_inv :: "'d wake_state \<Rightarrow> bool" where
  "wake_inv s \<longleftrightarrow> w_accepted s = w_handled s @ r_commandQueue (w_redis s) \<and>
     (r_commandQueue (w_redis s) \<noteq> [] \<longrightarrow>
        0 < r_wakeupBytes (w_redis s) \<or> 0 < w_inflight s \<or> w_drained s \<or> 0 < w_failed s)"

lemma wake_step_inv: "wake_step E s s' \<Longrightarrow> wake_inv s \<Longrightarrow> wake_inv s'"
proof (induction rule: wake_step.induct)
  case (wake s n ok r d)
  then show ?case by (auto simp: wake_inv_def run_wakeupListener split: if_splits)
next
  case (take s r d)
  then show ?case
    using handlePendingCommands_frame [OF take.hyps(2)] by (simp add: wake_inv_def)
qed (auto simp: wake_inv_def enqueueCommand_def listener_read_def)

lemma wake_reachable_inv: "wake_reachable E s0 s \<Longrightarrow> wake_inv s0 \<Longrightarrow> wake_inv s"
  by (induction rule: wake_reachable.induct) (auto intro: wake_step_inv)

text \<open>C15: no command sleeps unnoticed. Whatever the interleaving of the threads that enqueue commands
  and of the listener, with writes to the pipe that may fail, the commands are handled in the order
  they were accepted, each once. When all callers have returned and the listener of a running module
  is in \<open>poll\<close>, every accepted command has been handled, or a wake-up byte waits that lets the
  listener go on, or the write of some caller has failed since the listener last took the queue:
  only then can a command wait for the next wake-up, and that caller got \<open>false\<close>.\<close>

theorem no_command_sleeps:
  assumes "r_commandQueue r = []" and "wake_reachable E (wake_start r d) s"
  shows "w_accepted s = w_handled s @ r_commandQueue (w_redis s) \<and>
    (w_inflight s = 0 \<and> \<not> w_drained s \<and> w_failed s = 0 \<and> w_handled s \<noteq> w_accepted s \<longrightarrow>
       0 < r_wakeupBytes (w_redis s) \<and>
       (r_running (w_redis s) \<longrightarrow> wake_step E s (s\<lparr>w_redis := listener_read (w_redis s), w_drained := True\<rparr>)))"
proof -
  have "wake_inv (wake_start r d)" using assms(1) by (simp add: wake_inv_def wake_start_def)
  with assms(2) have "wake_inv s" by (rule wake_reachable_inv)
  then show ?thesis by (auto simp: wake_inv_def intro: wake_step.read)
qed

text \<open>A caller whose command is handled, and one whose write fails, which leaves its command waiting.\<close>

lemma wake_enqueue:
  assumes "wake_reachable E s0 s" "r_running (w_redis s)" "w_checked s = 0"
  shows "wake_reachable E s0 (s\<lparr>w_redis := snd (enqueueCommand c (w_redis s)), w_inflight := Suc (w_inflight s),
      w_accepted := w_accepted s @ [c]\<rparr>)"
proof -
  have "wake_step E (s\<lparr>w_checked := Suc (w_checked s)\<rparr>) (s\<lparr>w_redis := snd (enqueueCommand c (w_redis s)),
      w_inflight := Suc (w_inflight s), w_accepted := w_accepted s @ [c]\<rparr>)"
    using wake_step.enqueue [of "s\<lparr>w_checked := Suc (w_checked s)\<rparr>" "w_checked s" E c] assms(3) by (cases s) simp
  from wake_reachable.more [OF wake_reachable.more [OF assms(1) wake_step.check [OF assms(2)]] this] show ?thesis .
qed

lemma failed_wake_leaves_command:
  "\<exists>s. wake_reachable (scripted\<lparr>ext_write := \<lambda>d. (False, d)\<rparr>) (wake_start Redis_running ([], [])) s \<and>
     w_inflight s = 0 \<and> w_checked s = 0 \<and> w_handled s = [] \<and> w_accepted s = [(Subscribe, 7)] \<and> r_wakeupBytes (w_redis s) = 0"
proof -
  let ?E = "scripted\<lparr>ext_write := \<lambda>d. (False, d)\<rparr>" and ?s0 = "wake_start Redis_running (([], []) :: script)"
  let ?s1 = "?s0\<lparr>w_redis := snd (enqueueCommand (Subscribe, 7) (w_redis ?s0)), w_inflight := Suc (w_inflight ?s0),
      w_accepted := w_accepted ?s0 @ [(Subscribe, 7)]\<rparr>"
  note d = Redis_running_def Redis_new_def wake_start_def
  have "wake_reachable ?E ?s0 ?s1" by (rule wake_enqueue [OF wake_reachable.start]) (simp_all add: d)
  moreover have "wake_step ?E ?s1 (?s1\<lparr>w_inflight := 0, w_failed := 1\<rparr>)"
    using wake_step.wake [of ?s1 0 ?E False "w_redis ?s1" "([], [])"]
    by (simp add: d run_wakeupListener enqueueCommand_def scripted_def)
  ultimately show ?thesis
    by (intro exI [of _ "?s1\<lparr>w_inflight := 0, w_failed := 1\<rparr>"] conjI, rule wake_reachable.more) (simp_all add: d enqueueCommand_def)
qed

theorem no_command_sleeps_witness:
  "\<exists>s. wake_reachable scripted (wake_start Redis_running ([], [])) s \<and> w_accepted s = [(Subscribe, 7)] \<and>
     w_handled s = [(Subscribe, 7)]"
proof -
  let ?s0 = "wake_start Redis_running ([], [])"
  let ?s1 = "?s0\<lparr>w_redis := Redis_running\<lparr>r_commandQueue := [(Subscribe, 7)]\<rparr>, w_inflight := 1,
    w_accepted := [(Subscribe, 7)]\<rparr>"
  let ?s2 = "?s1\<lparr>w_redis := Redis_running\<lparr>r_commandQueue := [(Subscribe, 7)], r_wakeupBytes := 1\<rparr>, w_inflight := 0\<rparr>"
  let ?s3 = "?s2\<lparr>w_redis := Redis_running\<lparr>r_commandQueue := [(Subscribe, 7)]\<rparr>, w_drained := True\<rparr>"
  let ?s4 = "?s3\<lparr>w_redis := Redis_running, w_drained := False, w_handled := [(Subscribe, 7)]\<rparr>"
  note d = Redis_running_def Redis_new_def wake_start_def
  have 1: "wake_reachable scripted ?s0 ?s1"
    using wake_enqueue [OF wake_reachable.start [of scripted ?s0], of "(Subscribe, 7)"] by (simp add: d enqueueCommand_def)
  have 2: "wake_step scripted ?s1 ?s2"
    using wake_step.wake [of ?s1 0 scripted] by (simp add: d run_wakeupListener scripted_def)
  have 3: "wake_step scripted ?s2 ?s3"
    using wake_step.read [of ?s2 scripted] by (simp add: d listener_read_def)
  have "handlePendingCommands scripted (w_redis ?s3, w_world ?s3) = Some (Redis_running, ([], []))"
    by (simp add: d handlePendingCommands_def handleCommand_def sendSubscribeCommand_def scripted_def write_all.simps)
  from wake_step.take [OF _ this] have 4: "wake_step scripted ?s3 ?s4" by (simp add: d)
  have r: "wake_reachable scripted ?s0 ?s4"
    by (rule wake_reachable.more [OF wake_reachable.more [OF wake_reachable.more [OF 1 2] 3] 4])
  have "r_commandQueue Redis_running = []" by (simp add: d)
  from no_command_sleeps [OF this r] r show ?thesis by (intro exI [of _ ?s4]) (simp add: d)
qed

end
