(* ===== verification/ChatService.thy ===== *)
theory ChatService
  imports Services Redis Protocol
begin

text \<open>
  \<open>src/server/chatservice.cpp\<close>: the handlers of the chat server. The state is the table of the
  users connected to this node, the Redis module, the outside world and the bytes handed to
  \<open>conn->send\<close>, in order; a handler is one computation on it whose value is the exception that ends
  it, if any: what the handler does when no other thread comes between its steps. \<open>_connMutex\<close> protects
  each access of the table, but nothing protects a whole handler; \<open>Threads.thy\<close> has the handlers as
  threads that interleave.

  A connection is a number, the identity of the \<open>TcpConnectionPtr\<close>. \<open>userConnMap\<close> is an association
  list, a new entry in front; the search of a closed connection goes through it in this order. The
  hash table of the source may be iterated in any order. This matters only where one connection
  has several users: \<open>clientCloseException\<close> removes one of them, here the one that logged in last.
\<close>

type_synonym conn = nat

record 'd svc =
  userConnMap :: "(int \<times> conn) list"
  s_redis :: redis
  s_world :: 'd
  s_sent :: "(conn \<times> string) list"

type_synonym ('d, 'a) svc_op = "('d svc, 'a) state"
type_synonym 'd handler = "conn \<Rightarrow> json \<Rightarrow> ('d svc, exn option) state"

definition on_db :: "('d, 'a) state \<Rightarrow> ('d, 'a) svc_op" where
  "on_db m = State (\<lambda>s. let (a, d) = run_state m (s_world s) in (a, s\<lparr>s_world := d\<rparr>))"

definition on_rd :: "(redis \<times> 'd, 'a) state \<Rightarrow> ('d, 'a) svc_op" where
  "on_rd m = State (\<lambda>s. let (a, (r, d)) = run_state m (s_redis s, s_world s)
     in (a, s\<lparr>s_redis := r, s_world := d\<rparr>))"

lemma run_on_db [simp]:
  "run_state (on_db m) s = (val_of m (s_world s), s\<lparr>s_world := st_after m (s_world s)\<rparr>)"
  by (simp add: on_db_def split_beta)

lemma run_on_rd [simp]:
  "run_state (on_rd m) s = (val_of m (s_redis s, s_world s),
     s\<lparr>s_redis := fst (st_after m (s_redis s, s_world s)), s_world := snd (st_after m (s_redis s, s_world s))\<rparr>)"
  by (simp add: on_rd_def split_beta)

subsection \<open>Routing\<close>

definition findLocalConnection :: "int \<Rightarrow> 'd svc \<Rightarrow> conn option" where
  "findLocalConnection targetId s = map_of (userConnMap s) targetId"

definition markUserOffline :: "'d outside \<Rightarrow> int \<Rightarrow> ('d, unit) svc_op" where
  "markUserOffline E userid = do {
     _ \<leftarrow> on_rd (Redis_unsubscribe E userid);
     _ \<leftarrow> on_db (UserModel_updateState E
            \<lparr>u_id = userid, u_name = [], u_password = [], u_state = ''offline''\<rparr>);
     return () }"

definition sendPayload :: "conn \<Rightarrow> string \<Rightarrow> ('d, unit) svc_op" where
  "sendPayload conn payload = modify (\<lambda>s. s\<lparr>s_sent := s_sent s @ [(conn, payload @ [newline])]\<rparr>)"

definition sendJson :: "'d outside \<Rightarrow> conn \<Rightarrow> json \<Rightarrow> ('d, exn option) svc_op" where
  "sendJson E conn response = require (json_dump E response) (\<lambda>payload. do {
     _ \<leftarrow> sendPayload conn payload; return None })"

definition deliverMessage :: "'d outside \<Rightarrow> int \<Rightarrow> string \<Rightarrow> ('d, unit) svc_op" where
  "deliverMessage E targetId payload = do {
     connection \<leftarrow> gets (findLocalConnection targetId);
     (case connection of
        Some c \<Rightarrow> sendPayload c payload
      | None \<Rightarrow> do {
          user \<leftarrow> on_db (UserModel_query_id E targetId);
          if u_state user = ''online'' then do {
            _ \<leftarrow> on_rd (Redis_publish E targetId payload); return () }
          else do {
            _ \<leftarrow> on_db (insertOfflineMessageByRpc E targetId payload); return () } }) }"

text \<open>\<open>deliverMessage(targetId, js.dump())\<close>: the argument is evaluated first and may throw.\<close>

definition deliverDump :: "'d outside \<Rightarrow> int \<Rightarrow> json \<Rightarrow> ('d, exn option) svc_op" where
  "deliverDump E targetId js = require (json_dump E js) (\<lambda>payload. do {
     _ \<leftarrow> deliverMessage E targetId payload; return None })"

definition ChatService_reset :: "'d outside \<Rightarrow> ('d, unit) svc_op" where
  "ChatService_reset E = on_db (UserModel_resetState E)"

subsection \<open>Login, logout, registration\<close>

text \<open>A response with a kind, an \<open>errno\<close> and a text.\<close>

definition response3 :: "EnMsgType \<Rightarrow> int \<Rightarrow> string \<Rightarrow> json" where
  "response3 m errno errmsg =
     JObj [(''msgid'', JInt (msg_id m)), (''errno'', JInt errno), (''errmsg'', JStr errmsg)]"

text \<open>The text of a successful login, in UTF-8.\<close>

definition login_ok_text :: string where
  "login_ok_text = [CHR 0xE7, CHR 0x99, CHR 0xBB, CHR 0xE9, CHR 0x99, CHR 0x86, CHR 0xE6, CHR 0x88,
     CHR 0x90, CHR 0xE5, CHR 0x8A, CHR 0x9F, CHR 0xEF, CHR 0xBC, CHR 0x81, newline]"

fun dump_list :: "'d outside \<Rightarrow> json list \<Rightarrow> exn + string list" where
  "dump_list E [] = Inr []"
| "dump_list E (j # js) = (case json_dump E j of Inl e \<Rightarrow> Inl e | Inr s \<Rightarrow>
     (case dump_list E js of Inl e \<Rightarrow> Inl e | Inr ss \<Rightarrow> Inr (s # ss)))"

definition friend_json :: "user \<Rightarrow> json" where
  "friend_json u = JObj [(''id'', JInt (u_id u)), (''name'', JStr (u_name u)), (''state'', JStr (u_state u))]"

definition member_json :: "group_user \<Rightarrow> json" where
  "member_json u = JObj [(''id'', JInt (u_id u)), (''name'', JStr (u_name u)),
     (''state'', JStr (u_state u)), (''role'', JStr (gu_role u))]"

fun dump_groups :: "'d outside \<Rightarrow> chat_group list \<Rightarrow> exn + string list" where
  "dump_groups E [] = Inr []"
| "dump_groups E (g # gs) = (case dump_list E (map member_json (g_users g)) of Inl e \<Rightarrow> Inl e | Inr uservec \<Rightarrow>
     (case json_dump E (JObj [(''id'', JInt (g_id g)), (''name'', JStr (g_name g)),
         (''desc'', JStr (g_desc g)), (''users'', JArr (map JStr uservec))]) of Inl e \<Rightarrow> Inl e | Inr s \<Rightarrow>
       (case dump_groups E gs of Inl e \<Rightarrow> Inl e | Inr ss \<Rightarrow> Inr (s # ss))))"

text \<open>\<open>response[key] = list\<close>, when the list is not empty.\<close>

definition add_list :: "string \<Rightarrow> string list \<Rightarrow> json \<Rightarrow> json" where
  "add_list key ss response = (if ss = [] then response else set_member response key (JArr (map JStr ss)))"

definition login_response :: "user \<Rightarrow> json" where
  "login_response user = JObj [(''msgid'', JInt (msg_id LOG_MSG_ACK)), (''errno'', JInt 0),
     (''id'', JInt (u_id user)), (''name'', JStr (u_name user)), (''errmsg'', JStr login_ok_text)]"

text \<open>\<open>unordered_map::insert\<close> leaves an entry that is there alone.\<close>

definition insert_conn :: "int \<Rightarrow> conn \<Rightarrow> (int \<times> conn) list \<Rightarrow> (int \<times> conn) list" where
  "insert_conn userid conn m = (if map_of m userid = None then (userid, conn) # m else m)"

definition erase_conn :: "int \<Rightarrow> (int \<times> conn) list \<Rightarrow> (int \<times> conn) list" where
  "erase_conn userid m = filter (\<lambda>e. fst e \<noteq> userid) m"

definition login_success :: "'d outside \<Rightarrow> conn \<Rightarrow> user \<Rightarrow> ('d, exn option) svc_op" where
  "login_success E conn user = do {
     _ \<leftarrow> on_db (UserModel_updateState E user);
     _ \<leftarrow> modify (userConnMap_update (insert_conn (u_id user) conn));
     _ \<leftarrow> on_rd (Redis_subscribe E (u_id user));
     offlineMsgs \<leftarrow> on_db (queryOfflineMessagesByRpc E (u_id user));
     response \<leftarrow> (if offlineMsgs \<noteq> [] then do {
         _ \<leftarrow> on_db (removeOfflineMessagesByRpc E (u_id user));
         return (add_list ''offlinemsg'' offlineMsgs (login_response user)) }
       else return (login_response user));
     friends \<leftarrow> on_db (queryFriendsByRpc E (u_id user));
     require (dump_list E (map friend_json friends)) (\<lambda>friendJsonList. do {
       let response = add_list ''friends'' friendJsonList response;
       groups \<leftarrow> on_db (GroupModel_queryGroup E (u_id user));
       require (dump_groups E groups) (\<lambda>groupJsonList.
         sendJson E conn (add_list ''groups'' groupJsonList response)) }) }"

definition login :: "'d outside \<Rightarrow> 'd handler" where
  "login E conn js = require (string_field js ''name'') (\<lambda>name.
     require (string_field js ''password'') (\<lambda>password. do {
       user \<leftarrow> on_db (UserModel_query_name E name);
       if u_name user = [] then
         sendJson E conn (response3 LOG_MSG_ACK 3 (''User does not exist. Please register first.'' @ [newline]))
       else if u_password user \<noteq> password then
         sendJson E conn (response3 LOG_MSG_ACK 2 (''Incorrect password. Please try again.'' @ [newline]))
       else if u_state user = ''online'' then
         sendJson E conn (response3 LOG_MSG_ACK 1 (''this account is using, input another!'' @ [newline]))
       else login_success E conn (user\<lparr>u_state := ''online''\<rparr>) }))"

definition loginout :: "'d outside \<Rightarrow> 'd handler" where
  "loginout E conn js = require (int_field js ''userid'') (\<lambda>userid. do {
     _ \<leftarrow> modify (userConnMap_update (erase_conn userid));
     _ \<leftarrow> markUserOffline E userid;
     return None })"

definition reg :: "'d outside \<Rightarrow> 'd handler" where
  "reg E conn js = require (string_field js ''name'') (\<lambda>name.
     require (string_field js ''password'') (\<lambda>password. do {
       r \<leftarrow> on_db (UserModel_insert E (User\<lparr>u_name := name, u_password := password\<rparr>));
       if fst r then
         sendJson E conn (JObj [(''msgid'', JInt (msg_id REG_MSG_ACK)), (''errno'', JInt 0),
           (''id'', JInt (u_id (snd r)))])
       else sendJson E conn (JObj [(''msgid'', JInt (msg_id REG_MSG_ACK)), (''errno'', JInt 1)]) }))"

text \<open>The loop over the table takes the first entry with this connection, in iteration order.\<close>

definition clientCloseException :: "'d outside \<Rightarrow> conn \<Rightarrow> ('d, unit) svc_op" where
  "clientCloseException E conn = do {
     entry \<leftarrow> gets (\<lambda>s. find (\<lambda>e. snd e = conn) (userConnMap s));
     let userid = (case entry of None \<Rightarrow> - 1 | Some e \<Rightarrow> fst e);
     _ \<leftarrow> (case entry of
            None \<Rightarrow> return ()
          | Some e \<Rightarrow> modify (userConnMap_update (erase_conn (fst e))));
     if userid \<noteq> - 1 then markUserOffline E userid else return () }"

subsection \<open>Chat\<close>

definition oneChat :: "'d outside \<Rightarrow> 'd handler" where
  "oneChat E conn js = require (int_field js ''userid'') (\<lambda>userid.
     require (int_field js ''to'') (\<lambda>toid. do {
       isFriend \<leftarrow> on_db (isFriendByRpc E userid toid);
       if \<not> isFriend then
         sendJson E conn (JObj [(''errno'', JInt 1), (''msgid'', JInt (msg_id ONE_CHAT_MSG_ACK)),
           (''errmsg'', JStr ''You are not friends with this user. Message cannot be sent!'')])
       else deliverDump E toid js }))"

definition groupChat :: "'d outside \<Rightarrow> 'd handler" where
  "groupChat E conn js = require (int_field js ''userid'') (\<lambda>userid.
     require (int_field js ''groupid'') (\<lambda>groupid. do {
       name \<leftarrow> on_db (GroupModel_queryGroupName E groupid);
       let js = set_member js ''groupname'' (JStr name);
       useridVec \<leftarrow> on_db (GroupModel_queryGroupUsers E userid groupid);
       require (json_dump E js) (\<lambda>payload. do {
         _ \<leftarrow> for_each (\<lambda>i. deliverMessage E i payload) useridVec; return None }) }))"

definition handleRedisSubscribeMessage :: "'d outside \<Rightarrow> int \<Rightarrow> string \<Rightarrow> ('d, unit) svc_op" where
  "handleRedisSubscribeMessage E userid msg = do {
     connection \<leftarrow> gets (findLocalConnection userid);
     (case connection of
        Some c \<Rightarrow> sendPayload c msg
      | None \<Rightarrow> do { _ \<leftarrow> on_db (insertOfflineMessageByRpc E userid msg); return () }) }"

subsection \<open>Friend requests\<close>

definition busy_text :: string where
  "busy_text = ''System busy, please try again later.''"

definition addFriend :: "'d outside \<Rightarrow> 'd handler" where
  "addFriend E conn js = require (int_field js ''userid'') (\<lambda>userid.
     require (int_field js ''friendid'') (\<lambda>friendid.
       if userid = friendid then sendJson E conn (response3 ADD_FRIEND_RESPONSE 1 ''You cannot add yourself!'')
       else do {
         exists \<leftarrow> on_db (isUserExistByRpc E friendid);
         if \<not> exists then sendJson E conn (response3 ADD_FRIEND_RESPONSE 1 ''User does not exist!'')
         else do {
           isFriend \<leftarrow> on_db (isFriendByRpc E userid friendid);
           if isFriend then
             sendJson E conn (response3 ADD_FRIEND_RESPONSE 2 ''This user is already your friend!'')
           else do {
             r \<leftarrow> on_db (queryRequestStatusByRpc E userid friendid);
             (case fst r of
                DbError \<Rightarrow> sendJson E conn (response3 ADD_FRIEND_RESPONSE 2 busy_text)
              | NotFound \<Rightarrow> do {
                  ok \<leftarrow> on_db (addFriendRequestByRpc E userid friendid);
                  if \<not> ok then sendJson E conn (response3 ADD_FRIEND_RESPONSE 5 busy_text)
                  else deliverDump E friendid js }
              | Ok \<Rightarrow>
                  if snd r = ''pending'' then
                    sendJson E conn (response3 ADD_FRIEND_RESPONSE 2 ''The request has been sent!'')
                  else if snd r = ''rejected'' then do {
                    ok \<leftarrow> on_db (updateRequestStatusByRpc E userid friendid ''pending'');
                    if \<not> ok then sendJson E conn (response3 ADD_FRIEND_RESPONSE 5 busy_text)
                  else deliverDump E friendid js }
                  else return None) } } }))"

definition addFriendHandle :: "'d outside \<Rightarrow> 'd handler" where
  "addFriendHandle E conn js = require (int_field js ''userid'') (\<lambda>userid.
     require (int_field js ''friendid'') (\<lambda>friendid.
     require (string_field js ''action'') (\<lambda>action. do {
       r \<leftarrow> on_db (isPendingRequestByRpc E userid friendid);
       (case fst r of
          DbError \<Rightarrow> sendJson E conn (response3 ADD_FRIEND_RESPONSE 2 busy_text)
        | NotFound \<Rightarrow>
            sendJson E conn (response3 ADD_FRIEND_RESPONSE 4 ''The user has not sent a friend request to you!'')
        | Ok \<Rightarrow>
            if action = ''accept'' then do {
              ok \<leftarrow> on_db (updateRequestStatusByRpc E userid friendid ''accepted'');
              if \<not> ok then sendJson E conn (response3 ADD_FRIEND_RESPONSE 5 busy_text)
              else do {
                _ \<leftarrow> on_db (insertFriendByRpc E userid friendid);
                _ \<leftarrow> on_db (insertFriendByRpc E friendid userid);
                deliverDump E userid (response3 ADD_FRIEND_RESPONSE 0
                  ''The user has accepted your friend request. You can now chat!'') } }
            else do {
              _ \<leftarrow> on_db (updateRequestStatusByRpc E userid friendid ''rejected'');
              deliverDump E userid (response3 ADD_FRIEND_RESPONSE 3
                ''The user has declined your friend request.'') }) })))"

subsection \<open>Groups\<close>

definition createGroup :: "'d outside \<Rightarrow> 'd handler" where
  "createGroup E conn js = require (int_field js ''userid'') (\<lambda>userid.
     require (string_field js ''groupname'') (\<lambda>name.
     require (string_field js ''groupdesc'') (\<lambda>groupdesc. do {
       r \<leftarrow> on_db (GroupModel_isGroupExist_name E name);
       (case fst r of
          DbError \<Rightarrow> sendJson E conn (response3 CREATE_GROUP_MSG_ACK 2 busy_text)
        | NotFound \<Rightarrow> do {
            c \<leftarrow> on_db (GroupModel_createGroup E (Group (- 1) name groupdesc));
            if fst c then do {
              _ \<leftarrow> on_db (GroupModel_addGroup E userid (g_id (snd c)) ''creator'');
              sendJson E conn (response3 CREATE_GROUP_MSG_ACK 0
                (''Create group success! Your groupid is '' @ show_int (g_id (snd c)))) }
            else sendJson E conn (response3 CREATE_GROUP_MSG_ACK 1 ''Create group failed!'') }
        | Ok \<Rightarrow> sendJson E conn (response3 CREATE_GROUP_MSG_ACK 2 ''Group name exists!'')) })))"

definition notify_owner :: "'d outside \<Rightarrow> conn \<Rightarrow> json \<Rightarrow> int \<Rightarrow> ('d, exn option) svc_op" where
  "notify_owner E conn js groupid = do {
     ownerResult \<leftarrow> on_db (GroupModel_queryGroupOwnerId E groupid);
     (case fst ownerResult of
        DbError \<Rightarrow> sendJson E conn (response3 ADD_GROUP_RESPONSE 3 busy_text)
      | NotFound \<Rightarrow> sendJson E conn (response3 ADD_GROUP_RESPONSE 1 ''The group owner does not exist.'')
      | Ok \<Rightarrow> deliverDump E (snd ownerResult) js) }"

definition addGroup :: "'d outside \<Rightarrow> 'd handler" where
  "addGroup E conn js = require (int_field js ''userid'') (\<lambda>userid.
     require (int_field js ''groupid'') (\<lambda>groupid. do {
       inGroupResult \<leftarrow> on_db (GroupModel_isUserInGroup E userid groupid);
       (case fst inGroupResult of
          DbError \<Rightarrow> sendJson E conn (response3 ADD_GROUP_RESPONSE 2 busy_text)
        | Ok \<Rightarrow> sendJson E conn (response3 ADD_GROUP_RESPONSE 1 ''You are already in this group!'')
        | NotFound \<Rightarrow> do {
            groupExistResult \<leftarrow> on_db (GroupModel_isGroupExist_id E groupid);
            (case fst groupExistResult of
               DbError \<Rightarrow> sendJson E conn (response3 ADD_GROUP_RESPONSE 1 busy_text)
             | NotFound \<Rightarrow> sendJson E conn (response3 ADD_GROUP_RESPONSE 1 ''The group is not exist'')
             | Ok \<Rightarrow> do {
                 r \<leftarrow> on_db (GroupRequestModel_queryRequestStatus E userid groupid);
                 (case fst r of
                    DbError \<Rightarrow> sendJson E conn (response3 ADD_GROUP_RESPONSE 1 busy_text)
                  | NotFound \<Rightarrow> do {
                      ok \<leftarrow> on_db (GroupRequestModel_addGroupRequest E userid groupid);
                      if \<not> ok then sendJson E conn (response3 ADD_GROUP_RESPONSE 3 busy_text)
                      else notify_owner E conn js groupid }
                  | Ok \<Rightarrow>
                      if snd r = ''pending'' then
                        sendJson E conn (response3 ADD_GROUP_RESPONSE 1
                          ''The request has been sent, please wait for approval!'')
                      else if snd r = ''rejected'' then do {
                        ok \<leftarrow> on_db (GroupRequestModel_updateRequestStatus E userid groupid ''pending'');
                        if \<not> ok then sendJson E conn (response3 ADD_GROUP_RESPONSE 3 busy_text)
                        else notify_owner E conn js groupid }
                      else return None) }) }) }))"

definition addGroupHandle :: "'d outside \<Rightarrow> 'd handler" where
  "addGroupHandle E conn js = require (int_field js ''userid'') (\<lambda>userid.
     require (int_field js ''groupid'') (\<lambda>groupid. do {
       pending \<leftarrow> on_db (GroupRequestModel_isPendingRequest E userid groupid);
       if pending then require (string_field js ''action'') (\<lambda>action. do {
         response \<leftarrow> (if action = ''accept'' then do {
             _ \<leftarrow> on_db (GroupRequestModel_updateRequestStatus E userid groupid ''accepted'');
             _ \<leftarrow> on_db (GroupModel_addGroup E userid groupid ''normal'');
             return (response3 ADD_GROUP_RESPONSE 0
               ''Your request to join the group has been accepted. You can now chat!'') }
           else do {
             _ \<leftarrow> on_db (GroupRequestModel_updateRequestStatus E userid groupid ''rejected'');
             return (response3 ADD_GROUP_RESPONSE 1
               ''Your request to join the group has been rejected. You can not chat!'') });
         deliverDump E userid response })
       else sendJson E conn (response3 ADD_GROUP_RESPONSE 2 ''You have no request to join the group!'') }))"

subsection \<open>Construction and dispatch\<close>

definition msgHandlerMap :: "'d outside \<Rightarrow> (int \<times> 'd handler) list" where
  "msgHandlerMap E = [
     (msg_id LOGIN_MSG, login E), (msg_id LOGINOUT_MSG, loginout E), (msg_id REG_MSG, reg E),
     (msg_id ONE_CHAT_MSG, oneChat E), (msg_id ADD_FRIEND_REQUEST, addFriend E),
     (msg_id ADD_FRIEND_HANDLE, addFriendHandle E), (msg_id CREATE_GROUP_MSG, createGroup E),
     (msg_id ADD_GROUP_MSG, addGroup E), (msg_id ADD_GROUP_HANDLE, addGroupHandle E),
     (msg_id GROUP_CHAT_MSG, groupChat E)]"

text \<open>The empty handler of an unknown number only writes a log line.\<close>

definition getHandler :: "'d outside \<Rightarrow> int \<Rightarrow> 'd handler" where
  "getHandler E msgid = (case map_of (msgHandlerMap E) msgid of
     None \<Rightarrow> (\<lambda>conn js. return None)
   | Some h \<Rightarrow> h)"

text \<open>The constructor: \<open>None\<close> is \<open>exit(EXIT_FAILURE)\<close>.\<close>

definition ChatService_new :: "'d outside \<Rightarrow> 'd \<Rightarrow> 'd svc option" where
  "ChatService_new E d = (case run_state (Redis_start E True) (Redis_new, d) of
     (True, (r, d')) \<Rightarrow> Some \<lparr>userConnMap = [], s_redis = r, s_world = d', s_sent = []\<rparr>
   | (False, _) \<Rightarrow> None)"

subsection \<open>What the operations leave alone\<close>

lemma keeps_case_status [keeps_rules]:
  "keeps P a \<Longrightarrow> keeps P b \<Longrightarrow> keeps P c \<Longrightarrow>
     keeps P (case q of Ok \<Rightarrow> a | NotFound \<Rightarrow> b | DbError \<Rightarrow> c)"
  by (cases q) auto

text \<open>
  Most handlers reach the outside world only through the database and through \<open>publish\<close>, which
  leave the table of users and the Redis module alone: they preserve every predicate that does not
  look at the world and is preserved by sending. Subscribing and unsubscribing change the module
  too, and preserve what does not look at it either.
\<close>

definition ignores_world :: "('d svc \<Rightarrow> bool) \<Rightarrow> bool" where
  "ignores_world P \<longleftrightarrow> (\<forall>s d. P (s\<lparr>s_world := d\<rparr>) = P s)"

definition ignores_redis :: "('d svc \<Rightarrow> bool) \<Rightarrow> bool" where
  "ignores_redis P \<longleftrightarrow> (\<forall>s r. P (s\<lparr>s_redis := r\<rparr>) = P s)"

lemma keeps_on_db [keeps_rules]: "ignores_world P \<Longrightarrow> keeps P (on_db m)"
  by (rule keepsI) (simp add: ignores_world_def)

lemma keeps_on_rd:
  assumes "ignores_world P" "ignores_redis P"
  shows "keeps P (on_rd m)"
proof (rule keepsI)
  fix s assume "P s"
  let ?r = "fst (st_after m (s_redis s, s_world s))" and ?d = "snd (st_after m (s_redis s, s_world s))"
  have "P (s\<lparr>s_redis := ?r\<rparr>)" using \<open>P s\<close> assms(2) by (simp add: ignores_redis_def)
  then have "P ((s\<lparr>s_redis := ?r\<rparr>)\<lparr>s_world := ?d\<rparr>)" using assms(1) by (simp only: ignores_world_def)
  then show "P (st_after (on_rd m) s)" by simp
qed

lemma publish_module [simp]: "fst (st_after (Redis_publish E ch p) (r, d)) = r"
  by (simp add: Redis_publish_def split_beta)

lemma keeps_publish [keeps_rules]: "ignores_world P \<Longrightarrow> keeps P (on_rd (Redis_publish E ch p))"
  by (rule keepsI) (simp add: ignores_world_def)

lemma keeps_subscribe [keeps_rules]:
  "ignores_world P \<Longrightarrow> ignores_redis P \<Longrightarrow> keeps P (on_rd (Redis_subscribe E ch))"
  by (rule keeps_on_rd)

lemma keeps_markUserOffline [keeps_rules]:
  "ignores_world P \<Longrightarrow> ignores_redis P \<Longrightarrow> keeps P (markUserOffline E u)"
  unfolding markUserOffline_def by (intro keeps_rules keeps_on_rd)

lemma keeps_sendJson [keeps_rules]:
  "(\<And>p. json_dump E j = Inr p \<Longrightarrow> keeps P (sendPayload c p)) \<Longrightarrow> keeps P (sendJson E c j)"
  unfolding sendJson_def by (intro keeps_rules)

lemma keeps_deliverMessage [keeps_rules]:
  "ignores_world P \<Longrightarrow> (\<And>c. keeps P (sendPayload c p)) \<Longrightarrow> keeps P (deliverMessage E t p)"
  unfolding deliverMessage_def by (intro keeps_rules)

lemma keeps_deliverDump [keeps_rules]:
  "ignores_world P \<Longrightarrow> (\<And>c p. json_dump E j = Inr p \<Longrightarrow> keeps P (sendPayload c p)) \<Longrightarrow>
     keeps P (deliverDump E t j)"
  unfolding deliverDump_def by (intro keeps_rules)

subsection \<open>The handlers that neither log in nor out\<close>

text \<open>
  \<open>sends_ok E P\<close>: sending any payload preserves \<open>P\<close> (the payloads are dumps, except the ones that
  come from Redis).
\<close>

definition sends_ok :: "'d outside \<Rightarrow> ('d svc \<Rightarrow> bool) \<Rightarrow> bool" where
  "sends_ok E P \<longleftrightarrow> ignores_world P \<and> (\<forall>c j p. json_dump E j = Inr p \<longrightarrow> keeps P (sendPayload c p))"

lemma sends_okD:
  "sends_ok E P \<Longrightarrow> ignores_world P"
  "sends_ok E P \<Longrightarrow> json_dump E j = Inr p \<Longrightarrow> keeps P (sendPayload c p)"
  by (auto simp: sends_ok_def)

lemma keeps_reg: "sends_ok E P \<Longrightarrow> keeps P (reg E c js)"
  unfolding reg_def by (intro keeps_rules sends_okD)

lemma keeps_oneChat: "sends_ok E P \<Longrightarrow> keeps P (oneChat E c js)"
  unfolding oneChat_def by (intro keeps_rules sends_okD)

lemma keeps_groupChat: "sends_ok E P \<Longrightarrow> keeps P (groupChat E c js)"
  unfolding groupChat_def by (intro keeps_rules sends_okD)

lemma keeps_addFriend: "sends_ok E P \<Longrightarrow> keeps P (addFriend E c js)"
  unfolding addFriend_def by (intro keeps_rules sends_okD)

lemma keeps_addFriendHandle: "sends_ok E P \<Longrightarrow> keeps P (addFriendHandle E c js)"
  unfolding addFriendHandle_def by (intro keeps_rules sends_okD)

lemma keeps_createGroup: "sends_ok E P \<Longrightarrow> keeps P (createGroup E c js)"
  unfolding createGroup_def by (intro keeps_rules sends_okD)

lemma keeps_addGroup: "sends_ok E P \<Longrightarrow> keeps P (addGroup E c js)"
  unfolding addGroup_def notify_owner_def by (intro keeps_rules sends_okD)

lemma keeps_addGroupHandle: "sends_ok E P \<Longrightarrow> keeps P (addGroupHandle E c js)"
  unfolding addGroupHandle_def by (intro keeps_rules sends_okD)

lemmas keeps_handlers = keeps_reg keeps_oneChat keeps_groupChat keeps_addFriend
  keeps_addFriendHandle keeps_createGroup keeps_addGroup keeps_addGroupHandle

lemma getHandler_cases:
  obtains "getHandler E m = login E" "m = msg_id LOGIN_MSG"
    | "getHandler E m = loginout E" "m = msg_id LOGINOUT_MSG"
    | h where "getHandler E m = h" "m \<noteq> msg_id LOGIN_MSG" "m \<noteq> msg_id LOGINOUT_MSG"
        "h = (\<lambda>c js. return None) \<or> h \<in> {reg E, oneChat E, addFriend E, addFriendHandle E,
           createGroup E, addGroup E, addGroupHandle E, groupChat E}"
proof (cases "m = msg_id LOGIN_MSG \<or> m = msg_id LOGINOUT_MSG")
  case True
  with that(1,2) show ?thesis by (auto simp: getHandler_def msgHandlerMap_def)
next
  case False
  then have "getHandler E m = (\<lambda>c js. return None) \<or> getHandler E m \<in> {reg E, oneChat E, addFriend E,
      addFriendHandle E, createGroup E, addGroup E, addGroupHandle E, groupChat E}"
    by (simp add: getHandler_def msgHandlerMap_def split: option.split)
  with that(3) False show ?thesis by blast
qed

lemma keeps_other_handlers:
  assumes "m \<noteq> msg_id LOGIN_MSG" "m \<noteq> msg_id LOGINOUT_MSG" "sends_ok E P"
  shows "keeps P (getHandler E m c js)"
proof (cases rule: getHandler_cases [of E m])
  case (3 h)
  with assms(3) show ?thesis
    by (auto intro: keeps_handlers keeps_rules)
qed (use assms in auto)

lemma keeps_login:
  assumes "sends_ok E P" "ignores_redis P"
    and "\<And>u. keeps P (modify (userConnMap_update (insert_conn u c)))"
  shows "keeps P (login E c js)"
  unfolding login_def login_success_def by (intro keeps_rules sends_okD [OF assms(1)] assms(2,3))

lemma keeps_loginout:
  assumes "ignores_world P" "ignores_redis P"
    and "\<And>u. keeps P (modify (userConnMap_update (erase_conn u)))"
  shows "keeps P (loginout E c js)"
  unfolding loginout_def by (intro keeps_rules assms)

lemma keeps_clientClose:
  assumes "ignores_world P" "ignores_redis P"
    and "\<And>u. keeps P (modify (userConnMap_update (erase_conn u)))"
  shows "keeps P (clientCloseException E c)"
  unfolding clientCloseException_def by (intro keeps_rules assms)

lemma keeps_redisMessage:
  assumes "ignores_world P" "\<And>c. keeps P (sendPayload c p)"
  shows "keeps P (handleRedisSubscribeMessage E u p)"
  unfolding handleRedisSubscribeMessage_def by (intro keeps_rules assms)

text \<open>A predicate that every operation of the node preserves.\<close>

lemma keeps_any_handler:
  assumes "sends_ok E P" "ignores_redis P"
    and "\<And>u. keeps P (modify (userConnMap_update (insert_conn u c)))"
    and "\<And>u. keeps P (modify (userConnMap_update (erase_conn u)))"
  shows "keeps P (getHandler E m c js)"
proof (cases rule: getHandler_cases [of E m])
  case 1
  with assms show ?thesis by (auto intro: keeps_login)
next
  case 2
  with assms show ?thesis by (auto intro: keeps_loginout sends_okD)
next
  case (3 h)
  with assms(1) show ?thesis by (intro keeps_other_handlers)
qed

end
