(* ===== verification/Sessions.thy ===== *)
theory Sessions
  imports ChatService
begin

text \<open>
  The table of the users connected to this node: which handlers touch it, what login demands before
  it enters a connection, and what logging out and closing a connection leave behind.
\<close>

subsection \<open>Handlers that do not touch the table\<close>

lemma ignores_table [simp]:
  "ignores_world (\<lambda>s. Q (userConnMap s))" "ignores_redis (\<lambda>s. Q (userConnMap s))"
  by (simp_all add: ignores_world_def ignores_redis_def)

lemma ignores_routing [simp]: "ignores_world (\<lambda>s. Q (userConnMap s) (s_redis s))"
  by (simp add: ignores_world_def)

lemma sends_ok_table [simp]: "sends_ok E (\<lambda>s. Q (userConnMap s))"
  by (auto simp: sends_ok_def sendPayload_def intro: keepsI)

lemma sends_ok_routing [simp]: "sends_ok E (\<lambda>s. Q (userConnMap s) (s_redis s))"
  by (auto simp: sends_ok_def sendPayload_def intro: keepsI)

lemma routing_frame:
  assumes "m \<noteq> msg_id LOGIN_MSG" "m \<noteq> msg_id LOGINOUT_MSG"
  shows "userConnMap (st_after (getHandler E m c js) s) = userConnMap s"
    and "s_redis (st_after (getHandler E m c js) s) = s_redis s"
  using keepsD [OF keeps_other_handlers [OF assms
      sends_ok_routing [where Q = "\<lambda>m r. m = userConnMap s \<and> r = s_redis s" and E = E]], of s c js]
  by auto

subsection \<open>Login\<close>

lemma subscribe_queue:
  assumes "r_running r"
  shows "r_commandQueue (fst (st_after (Redis_subscribe E u) (r, d))) = r_commandQueue r @ [(Subscribe, u)]"
    and "r_running (fst (st_after (Redis_subscribe E u) (r, d)))"
    and "r_commandQueue (fst (st_after (Redis_unsubscribe E u) (r, d))) = r_commandQueue r @ [(Unsubscribe, u)]"
    and "r_running (fst (st_after (Redis_unsubscribe E u) (r, d)))"
  using assms
  by (simp_all add: Redis_subscribe_def Redis_unsubscribe_def run_send_command run_wakeupListener enqueueCommand_def)

lemma sessions_login_success:
  "userConnMap (st_after (login_success E c u) s) = insert_conn (u_id u) c (userConnMap s)"
proof -
  let ?P = "\<lambda>t. userConnMap t = userConnMap s"
  let ?Q = "\<lambda>t. userConnMap t = insert_conn (u_id u) c (userConnMap s)"
  have "triple ?P (login_success E c u) (\<lambda>_. ?Q)"
    unfolding login_success_def
  proof (rule triple_bind [OF triple_keeps triple_bind [OF triple_modify [where Q = "\<lambda>_. ?Q"] triple_keeps]])
  qed (simp | intro keeps_rules ignores_table sends_okD(2) [OF sends_ok_table])+
  then show ?thesis by (rule tripleD) (rule refl)
qed

text \<open>The table and the queue of routing commands after a login that succeeds.\<close>

lemma routing_login_success:
  fixes s :: "'d svc"
  assumes "r_running (s_redis s)"
  shows "userConnMap (st_after (login_success E c u) s) = insert_conn (u_id u) c (userConnMap s) \<and>
    r_commandQueue (s_redis (st_after (login_success E c u) s)) =
      r_commandQueue (s_redis s) @ [(Subscribe, u_id u)] \<and>
    r_running (s_redis (st_after (login_success E c u) s))"
proof -
  let ?P = "\<lambda>m q (t :: 'd svc). userConnMap t = m \<and> r_commandQueue (s_redis t) = q \<and> r_running (s_redis t)"
  let ?m = "insert_conn (u_id u) c (userConnMap s)"
  let ?q = "r_commandQueue (s_redis s)"
  have "triple (?P (userConnMap s) ?q) (login_success E c u) (\<lambda>_. ?P ?m (?q @ [(Subscribe, u_id u)]))"
    unfolding login_success_def
  proof (rule triple_bind [OF triple_keeps triple_bind [OF triple_modify [where Q = "\<lambda>_. ?P ?m ?q"]
        triple_bind [OF tripleI [where Q = "\<lambda>_. ?P ?m (?q @ [(Subscribe, u_id u)])"] triple_keeps]]])
    fix t :: "'d svc" assume "?P ?m ?q t"
    then show "?P ?m (?q @ [(Subscribe, u_id u)]) (st_after (on_rd (Redis_subscribe E (u_id u))) t)"
      by (simp add: subscribe_queue)
  qed (simp | intro keeps_rules sends_okD(2) [OF sends_ok_routing
        [where Q = "\<lambda>m r. m = ?m \<and> r_commandQueue r = ?q @ [(Subscribe, u_id u)] \<and> r_running r"]]
      ignores_routing [where Q = "\<lambda>m r. m = ?m \<and> r_commandQueue r = ?q @ [(Subscribe, u_id u)] \<and> r_running r"]
      ignores_routing [where Q = "\<lambda>m r. m = userConnMap s \<and> r_commandQueue r = ?q \<and> r_running r"])+
  then have "?P ?m (?q @ [(Subscribe, u_id u)]) (st_after (login_success E c u) s)"
    by (rule tripleD) (simp add: assms)
  then show ?thesis .
qed

text \<open>The number login answers with, in the order of its tests.\<close>

definition login_errno :: "user \<Rightarrow> string \<Rightarrow> int" where
  "login_errno user password = (if u_name user = [] then 3
     else if u_password user \<noteq> password then 2
     else if u_state user = ''online'' then 1 else 0)"

definition login_refusal :: "int \<Rightarrow> string" where
  "login_refusal e = (if e = 3 then ''User does not exist. Please register first.'' @ [newline]
     else if e = 2 then ''Incorrect password. Please try again.'' @ [newline]
     else ''this account is using, input another!'' @ [newline])"

lemma run_login:
  assumes "string_field js ''name'' = Inr name" "string_field js ''password'' = Inr password"
    and "run_state (UserModel_query_name E name) (s_world s) = (user, d)"
  shows "run_state (login E c js) s =
    (if login_errno user password = 0
     then run_state (login_success E c (user\<lparr>u_state := ''online''\<rparr>)) (s\<lparr>s_world := d\<rparr>)
     else run_state (sendJson E c (response3 LOG_MSG_ACK (login_errno user password)
            (login_refusal (login_errno user password)))) (s\<lparr>s_world := d\<rparr>))"
  using assms by (simp add: login_def login_errno_def login_refusal_def)

lemma run_sendJson:
  "run_state (sendJson E c j) s = (case json_dump E j of
     Inl e \<Rightarrow> (Some e, s)
   | Inr p \<Rightarrow> (None, s\<lparr>s_sent := s_sent s @ [(c, p @ [newline])]\<rparr>))"
  by (simp add: sendJson_def sendPayload_def split: sum.split)

lemma login_throws:
  assumes "\<not> (\<exists>name password. string_field js ''name'' = Inr name \<and> string_field js ''password'' = Inr password)"
  shows "st_after (login E c js) s = s"
  using assms by (cases "string_field js ''name''"; cases "string_field js ''password''") (auto simp: login_def)

text \<open>A refused login changes nothing. When the account does not exist, the password is wrong
  or the account is in use, tested in this order, the only effects of the handler are the one query
  for the user and the one reply on the same connection, with \<open>errno\<close> 3, 2 or 1: no session, no
  subscription, no statement that writes.\<close>

theorem refused_login_changes_nothing:
  assumes "string_field js ''name'' = Inr name" and "string_field js ''password'' = Inr password"
    and "run_state (UserModel_query_name E name) (s_world s) = (user, d)"
    and "login_errno user password \<noteq> 0"
    and "ext_json_dump E (response3 LOG_MSG_ACK (login_errno user password)
           (login_refusal (login_errno user password))) = Some reply"
  shows "run_state (login E c js) s =
    (None, s\<lparr>s_world := d, s_sent := s_sent s @ [(c, reply @ [newline])]\<rparr>)"
  using assms by (simp add: run_login run_sendJson json_dump_def)

text \<open>A node of the scripted world, just started.\<close>

definition scripted_node :: "row list list \<Rightarrow> script svc" where
  "scripted_node rows = \<lparr>userConnMap = [], s_redis = Redis_running, s_world = (rows, []), s_sent = []\<rparr>"

definition login_js :: "string \<Rightarrow> string \<Rightarrow> json" where
  "login_js name password = JObj [(''msgid'', JInt 1), (''name'', JStr name), (''password'', JStr password)]"

definition user_row :: "int \<Rightarrow> string \<Rightarrow> string \<Rightarrow> string \<Rightarrow> row" where
  "user_row i name password state = [Some (show_int i), Some name, Some password, Some state]"

lemma scripted_query_name:
  assumes "CHR 0x00 \<notin> set name" "CHR 0x00 \<notin> set password" "CHR 0x00 \<notin> set state" "int32_range i"
  shows "run_state (UserModel_query_name scripted n) ([user_row i name password state] # rest, log) =
    (\<lparr>u_id = i, u_name = name, u_password = password, u_state = state\<rparr>,
     (rest, log @ [c_str (sql_user_by_name n)]))"
  using assms
  by (simp add: UserModel_query_name_def sql_query_def scripted_def user_row_def read_user_def User_def
      QueryResult_getInt_def QueryResult_getString_def column_def show_int_chars)

theorem refused_login_changes_nothing_witness:
  "let s = scripted_node [[user_row 7 ''ann'' ''secret'' ''offline'']];
       s' = st_after (login scripted 4 (login_js ''ann'' ''guess'')) s
   in userConnMap s' = [] \<and> s_redis s' = Redis_running \<and> length (s_sent s') = 1"
proof -
  let ?s = "scripted_node [[user_row 7 ''ann'' ''secret'' ''offline'']]"
  let ?u = "\<lparr>u_id = 7, u_name = ''ann'', u_password = ''secret'', u_state = ''offline''\<rparr>"
  have q: "run_state (UserModel_query_name scripted ''ann'') (s_world ?s) =
      (?u, ([], [c_str (sql_user_by_name ''ann'')]))"
    using scripted_query_name [of "''ann''" "''secret''" "''offline''" 7 "''ann''" "[]" "[]"]
    by (simp add: scripted_node_def int32_range_def)
  have "run_state (login scripted 4 (login_js ''ann'' ''guess'')) ?s = (None, ?s\<lparr>
      s_world := ([], [c_str (sql_user_by_name ''ann'')]),
      s_sent := s_sent ?s @ [(4, scripted_dump (response3 LOG_MSG_ACK (login_errno ?u ''guess'')
         (login_refusal (login_errno ?u ''guess''))) @ [newline])]\<rparr>)"
    by (rule refused_login_changes_nothing [OF _ _ q])
      (simp add: login_js_def login_errno_def scripted_def, simp add: login_js_def login_errno_def scripted_def,
 simp add: login_errno_def, simp add: login_errno_def scripted_def)
  then show ?thesis by (simp add: scripted_node_def)
qed

text \<open>C1: nobody gets a session without the password. Whatever message a connection sends, an entry
  that is new in the table of connected users afterwards names that connection, and the message was
  a login whose name the database answered with an account of that id, with exactly the password
  supplied and not marked online.\<close>

theorem session_requires_password:
  assumes "(u, c') \<in> set (userConnMap (st_after (getHandler E m c js) s))"
    and "(u, c') \<notin> set (userConnMap s)"
  shows "m = msg_id LOGIN_MSG \<and> c' = c \<and>
    (\<exists>name password user. string_field js ''name'' = Inr name \<and> string_field js ''password'' = Inr password \<and>
       user = val_of (UserModel_query_name E name) (s_world s) \<and>
       u_id user = u \<and> u_name user \<noteq> [] \<and> u_password user = password \<and> u_state user \<noteq> ''online'')"
proof (cases rule: getHandler_cases [of E m])
  case 1
  show ?thesis
  proof (cases "\<exists>name password. string_field js ''name'' = Inr name \<and> string_field js ''password'' = Inr password")
    case False
    with assms 1 show ?thesis by (simp add: login_throws)
  next
    case True
    then obtain name password where n: "string_field js ''name'' = Inr name"
      and p: "string_field js ''password'' = Inr password" by blast
    obtain user d where q: "run_state (UserModel_query_name E name) (s_world s) = (user, d)"
      by fastforce
    show ?thesis
    proof (cases "login_errno user password = 0")
      case True
      with assms 1 n p q have "(u, c') = (u_id user, c)"
        by (auto simp: run_login sessions_login_success insert_conn_def split: if_splits)
      with True 1 n p q show ?thesis
        by (auto simp: login_errno_def split: if_splits)
    next
      case False
      with assms 1 n p q show ?thesis
        by (simp add: run_login run_sendJson split: sum.splits)
    qed
  qed
next
  case 2
  with assms have "(u, c') \<in> set (userConnMap (st_after (loginout E c js) s))" by simp
  moreover have "keeps (\<lambda>t. set (userConnMap t) \<subseteq> set (userConnMap s)) (loginout E c js)"
    unfolding loginout_def
    by (intro keeps_rules ignores_table [where Q = "\<lambda>m. set m \<subseteq> set (userConnMap s)"])
      (auto intro!: keepsI simp: erase_conn_def)
  ultimately show ?thesis using assms(2) by (meson keepsD subsetD subset_refl)
next
  case (3 h)
  with assms routing_frame(1) [OF 3(2,3), of E c js s] show ?thesis by simp
qed

theorem session_requires_password_witness:
  "let s = scripted_node [[user_row 7 ''ann'' ''secret'' ''offline'']];
       s' = st_after (getHandler scripted 1 4 (login_js ''ann'' ''secret'')) s
   in (7, 4) \<in> set (userConnMap s') \<and>
      u_password (val_of (UserModel_query_name scripted ''ann'') (s_world s)) = ''secret''"
proof -
  let ?s = "scripted_node [[user_row 7 ''ann'' ''secret'' ''offline'']]"
  let ?u = "\<lparr>u_id = 7, u_name = ''ann'', u_password = ''secret'', u_state = ''offline''\<rparr>"
  have q: "run_state (UserModel_query_name scripted ''ann'') (s_world ?s) =
      (?u, ([], [c_str (sql_user_by_name ''ann'')]))"
    using scripted_query_name [of "''ann''" "''secret''" "''offline''" 7 "''ann''" "[]" "[]"]
    by (simp add: scripted_node_def int32_range_def)
  have f: "string_field (login_js ''ann'' ''secret'') ''name'' = Inr ''ann''"
      "string_field (login_js ''ann'' ''secret'') ''password'' = Inr ''secret''"
    by (simp_all add: login_js_def)
  have h: "getHandler scripted 1 = login scripted"
    by (simp add: getHandler_def msgHandlerMap_def)
  have e: "login_errno ?u ''secret'' = 0" by (simp add: login_errno_def)
  have in': "(7, 4) \<in> set (userConnMap (st_after (getHandler scripted 1 4 (login_js ''ann'' ''secret'')) ?s))"
    unfolding h run_login [OF f q] using e
    by (simp add: sessions_login_success insert_conn_def scripted_node_def)
  have "(7, 4) \<notin> set (userConnMap ?s)" by (simp add: scripted_node_def)
  from session_requires_password [OF in' this] f(1,2) in' show ?thesis by auto
qed

subsection \<open>Runs of a node\<close>

text \<open>
  What reaches the service: a message for a handler, the end of a connection, a message from Redis.
\<close>

datatype svc_event = Message int conn json | Closed conn | FromRedis int string

fun svc_step :: "'d outside \<Rightarrow> svc_event \<Rightarrow> 'd svc \<Rightarrow> 'd svc" where
  "svc_step E (Message m c js) s = st_after (getHandler E m c js) s"
| "svc_step E (Closed c) s = st_after (clientCloseException E c) s"
| "svc_step E (FromRedis u p) s = st_after (handleRedisSubscribeMessage E u p) s"

definition svc_run :: "'d outside \<Rightarrow> svc_event list \<Rightarrow> 'd svc \<Rightarrow> 'd svc" where
  "svc_run E evs s = fold (svc_step E) evs s"

lemma svc_run_simps [simp]:
  "svc_run E [] s = s"
  "svc_run E (ev # evs) s = svc_run E evs (svc_step E ev s)"
  by (simp_all add: svc_run_def)

lemma svc_run_invariant:
  assumes "P s" and "\<And>ev s. P s \<Longrightarrow> P (svc_step E ev s)"
  shows "P (svc_run E evs s)"
  using assms(1) by (induction evs arbitrary: s) (simp_all add: assms(2))

text \<open>The last routing command queued for a user's channel.\<close>

definition commanded :: "Command list \<Rightarrow> int \<Rightarrow> CommandType option" where
  "commanded q u = map_of (rev (map (\<lambda>(t, ch). (ch, t)) q)) u"

lemma commanded_snoc [simp]:
  "commanded (q @ [(t, ch)]) u = (if u = ch then Some t else commanded q u)"
  by (simp add: commanded_def)

lemma commanded_Nil [simp]: "commanded [] u = None"
  by (simp add: commanded_def)

text \<open>The node's routing follows its sessions.\<close>

definition routed :: "(int \<times> conn) list \<Rightarrow> redis \<Rightarrow> bool" where
  "routed m r \<longleftrightarrow> distinct (map fst m) \<and> r_running r \<and>
     (\<forall>u. u \<noteq> - 1 \<longrightarrow> (u \<in> fst ` set m \<longleftrightarrow> commanded (r_commandQueue r) u = Some Subscribe))"

lemma keys_insert_conn [simp]: "fst ` set (insert_conn u c m) = insert u (fst ` set m)"
  by (auto simp: insert_conn_def map_of_eq_None_iff split: option.splits)

lemma keys_erase_conn [simp]: "fst ` set (erase_conn u m) = fst ` set m - {u}"
  by (auto simp: erase_conn_def)

lemma distinct_insert_conn: "distinct (map fst m) \<Longrightarrow> distinct (map fst (insert_conn u c m))"
  by (simp add: insert_conn_def map_of_eq_None_iff)

lemma distinct_erase_conn: "distinct (map fst m) \<Longrightarrow> distinct (map fst (erase_conn u m))"
  by (simp add: erase_conn_def distinct_map_filter)

lemma routing_markUserOffline:
  assumes "r_running (s_redis s)"
  shows "userConnMap (st_after (markUserOffline E u) s) = userConnMap s"
    and "r_commandQueue (s_redis (st_after (markUserOffline E u) s)) = r_commandQueue (s_redis s) @ [(Unsubscribe, u)]"
    and "r_running (s_redis (st_after (markUserOffline E u) s))"
  using assms by (simp_all add: markUserOffline_def subscribe_queue)

lemma run_clientClose:
  "st_after (clientCloseException E c) s = (case find (\<lambda>e. snd e = c) (userConnMap s) of
     None \<Rightarrow> s
   | Some e \<Rightarrow> let s1 = userConnMap_update (erase_conn (fst e)) s in
       if fst e \<noteq> - 1 then st_after (markUserOffline E (fst e)) s1 else s1)"
  by (simp add: clientCloseException_def Let_def split: option.split)

lemma routed_step:
  assumes "routed (userConnMap s) (s_redis s)"
  shows "routed (userConnMap (svc_step E ev s)) (s_redis (svc_step E ev s))"
proof (cases ev)
  case (Message m c js)
  have run: "r_running (s_redis s)" using assms by (simp add: routed_def)
  show ?thesis
  proof (cases rule: getHandler_cases [of E m])
    case 1
    show ?thesis
    proof (cases "\<exists>name password. string_field js ''name'' = Inr name \<and> string_field js ''password'' = Inr password")
      case False
      with assms Message 1 show ?thesis by (simp add: login_throws)
    next
      case True
      then obtain name password where f: "string_field js ''name'' = Inr name" "string_field js ''password'' = Inr password"
        by blast
      obtain user d where q: "run_state (UserModel_query_name E name) (s_world s) = (user, d)" by fastforce
      show ?thesis
      proof (cases "login_errno user password = 0")
        case True
        with assms Message 1 show ?thesis
          using routing_login_success [of "s\<lparr>s_world := d\<rparr>" E c "user\<lparr>u_state := ''online''\<rparr>"]
          by (auto simp: run_login [OF f q] routed_def distinct_insert_conn)
      next
        case False
        with assms Message 1 show ?thesis
          by (simp add: run_login [OF f q] run_sendJson split: sum.split)
      qed
    qed
  next
    case 2
    with assms Message run show ?thesis
      by (cases "int_field js ''userid''") (auto simp: loginout_def routing_markUserOffline routed_def distinct_erase_conn split_beta)
  next
    case (3 h)
    with assms Message routing_frame [OF 3(2,3), of E c js s] show ?thesis by simp
  qed
next
  case (Closed c)
  show ?thesis
  proof (cases "find (\<lambda>e. snd e = c) (userConnMap s)")
    case None
    with assms Closed show ?thesis by (simp add: run_clientClose)
  next
    case (Some e)
    with assms Closed show ?thesis
      by (cases "fst e = - 1")
        (auto simp: run_clientClose routed_def routing_markUserOffline distinct_erase_conn)
  qed
next
  case (FromRedis u p)
  with assms show ?thesis
    by (simp add: handleRedisSubscribeMessage_def findLocalConnection_def sendPayload_def split: option.split)
qed

text \<open>Routing follows the sessions as long as handlers do not overlap. When a freshly started node
  handles its events one after another, before the listener takes its first turn, each user has at
  most one connection in the table, and a user (other than -1, which the code uses for nobody) is in
  the table exactly when the last routing command queued for his channel is the subscription. A
  login and a logout that overlap break this: see \<open>login_logout_race\<close> in \<open>Threads.thy\<close>.\<close>

theorem routing_follows_sessions:
  assumes "ChatService_new E d = Some s0"
  shows "let s = svc_run E evs s0 in
    distinct (map fst (userConnMap s)) \<and>
    (\<forall>u. u \<noteq> - 1 \<longrightarrow> (u \<in> fst ` set (userConnMap s)
       \<longleftrightarrow> commanded (r_commandQueue (s_redis s)) u = Some Subscribe))"
proof -
  obtain r d' where run: "run_state (Redis_start E True) (Redis_new, d) = (True, (r, d'))"
    and s0: "s0 = \<lparr>userConnMap = [], s_redis = r, s_world = d', s_sent = []\<rparr>"
    using assms by (auto simp: ChatService_new_def split: prod.splits bool.splits)
  have "r_running r \<and> r_commandQueue r = []"
    using Redis_start_spec [OF run] by (simp add: Redis_new_def)
  then have "routed (userConnMap s0) (s_redis s0)"
    by (simp add: s0 routed_def)
  then have "routed (userConnMap (svc_run E evs s0)) (s_redis (svc_run E evs s0))"
    by (rule svc_run_invariant) (rule routed_step)
  then show ?thesis by (simp add: routed_def Let_def)
qed

definition started_node :: "row list list \<Rightarrow> script svc" where
  "started_node rows = \<lparr>userConnMap = [], s_redis = Redis_running, s_world = (rows, []), s_sent = []\<rparr>"

lemma scripted_start: "ChatService_new scripted (rows, []) = Some (started_node rows)"
  by (simp add: ChatService_new_def Redis_start_def initPublishContext_def initSubscribeContext_def Let_def
      authRedisContext_def loadRedisConfig_def getEnvOrDefault_redis_def scripted_def Redis_new_def
      Redis_running_def started_node_def)

theorem routing_follows_sessions_witness:
  "let s = svc_run scripted [Message 1 4 (login_js ''ann'' ''secret'')]
       (started_node [[user_row 7 ''ann'' ''secret'' ''offline'']])
   in commanded (r_commandQueue (s_redis s)) 7 = Some Subscribe"
proof -
  let ?rows = "[[user_row 7 ''ann'' ''secret'' ''offline'']]"
  let ?u = "\<lparr>u_id = 7, u_name = ''ann'', u_password = ''secret'', u_state = ''offline''\<rparr>"
  have q: "run_state (UserModel_query_name scripted ''ann'') (s_world (started_node ?rows)) =
      (?u, ([], [c_str (sql_user_by_name ''ann'')]))"
    using scripted_query_name [of "''ann''" "''secret''" "''offline''" 7 "''ann''" "[]" "[]"]
    by (simp add: started_node_def int32_range_def)
  have f: "string_field (login_js ''ann'' ''secret'') ''name'' = Inr ''ann''"
      "string_field (login_js ''ann'' ''secret'') ''password'' = Inr ''secret''"
    by (simp_all add: login_js_def)
  have h: "getHandler scripted 1 = login scripted"
    by (simp add: getHandler_def msgHandlerMap_def)
  have e: "login_errno ?u ''secret'' = 0" by (simp add: login_errno_def)
  have "7 \<in> fst ` set (userConnMap (svc_run scripted [Message 1 4 (login_js ''ann'' ''secret'')] (started_node ?rows)))"
    using e by (simp add: h run_login [OF f q] sessions_login_success)
  with routing_follows_sessions [OF scripted_start [of ?rows], of "[Message 1 4 (login_js ''ann'' ''secret'')]"]
  show ?thesis by (simp add: Let_def)
qed

subsection \<open>Where the table goes wrong\<close>

text \<open>Closing a connection logs out one of its users only. The service does not refuse a second
  login on a connection, and the close handler stops at the first entry it finds: when two users are
  connected through the same connection, one of them keeps an entry that names the closed connection.\<close>

theorem close_leaves_second_user:
  assumes "(u, c) \<in> set (userConnMap s)" and "(v, c) \<in> set (userConnMap s)" and "u \<noteq> v"
  shows "\<exists>w. (w, c) \<in> set (userConnMap (st_after (clientCloseException E c) s))"
proof -
  obtain e where e: "find (\<lambda>e. snd e = c) (userConnMap s) = Some e"
    using assms(1) by (cases "find (\<lambda>e. snd e = c) (userConnMap s)") (auto simp: find_None_iff)
  define w where "w = (if fst e = u then v else u)"
  have "(w, c) \<in> set (userConnMap s)" "w \<noteq> fst e"
    using assms by (auto simp: w_def)
  then have "(w, c) \<in> set (erase_conn (fst e) (userConnMap s))"
    by (simp add: erase_conn_def)
  moreover have "userConnMap (st_after (clientCloseException E c) s) = erase_conn (fst e) (userConnMap s)"
    by (simp add: run_clientClose e Let_def markUserOffline_def)
  ultimately show ?thesis by (intro exI [of _ w]) simp
qed

theorem close_leaves_second_user_witness:
  "\<exists>w. (w, 4) \<in> set (userConnMap (st_after (clientCloseException scripted 4)
     ((scripted_node [])\<lparr>userConnMap := [(7, 4), (8, 4)]\<rparr>)))"
  by (rule close_leaves_second_user [of 7 4 _ 8]) simp_all

text \<open>A login does not replace a connection the table still holds. If the account was put
  offline in the database behind the node's back (another node's reset does that to every account),
  the user's next login succeeds, but everything addressed to him still goes to the old connection.\<close>

theorem login_keeps_stale_connection:
  assumes "string_field js ''name'' = Inr name" and "string_field js ''password'' = Inr password"
    and "run_state (UserModel_query_name E name) (s_world s) = (user, d)"
    and "login_errno user password = 0"
    and "findLocalConnection (u_id user) s = Some old"
  shows "findLocalConnection (u_id user) (st_after (login E c js) s) = Some old"
  using assms
  by (simp add: run_login sessions_login_success findLocalConnection_def insert_conn_def)

theorem login_keeps_stale_connection_witness:
  "findLocalConnection 7 (st_after (login scripted 4 (login_js ''ann'' ''secret''))
     ((scripted_node [[user_row 7 ''ann'' ''secret'' ''offline'']])\<lparr>userConnMap := [(7, 3)]\<rparr>)) = Some 3"
proof -
  let ?s = "(scripted_node [[user_row 7 ''ann'' ''secret'' ''offline'']])\<lparr>userConnMap := [(7, 3)]\<rparr>"
  let ?u = "\<lparr>u_id = 7, u_name = ''ann'', u_password = ''secret'', u_state = ''offline''\<rparr>"
  have q: "run_state (UserModel_query_name scripted ''ann'') (s_world ?s) =
      (?u, ([], [c_str (sql_user_by_name ''ann'')]))"
    using scripted_query_name [of "''ann''" "''secret''" "''offline''" 7 "''ann''" "[]" "[]"]
    by (simp add: scripted_node_def int32_range_def)
  have "findLocalConnection (u_id ?u) (st_after (login scripted 4 (login_js ''ann'' ''secret'')) ?s) = Some 3"
    by (rule login_keeps_stale_connection [OF _ _ q])
      (simp_all add: login_js_def login_errno_def findLocalConnection_def)
  then show ?thesis by simp
qed

end
