(* ===== verification/Delivery.thy ===== *)
theory Delivery
  imports Sessions
begin

text \<open>
  Where a message goes: the three routes of \<open>deliverMessage\<close>, the fan-out of a group chat, the
  arrival of a message from another node, and the framing of everything the node sends.
\<close>

subsection \<open>One message\<close>

lemma run_deliverMessage:
  "run_state (deliverMessage E t p) s = ((), case findLocalConnection t s of
     Some c \<Rightarrow> s\<lparr>s_sent := s_sent s @ [(c, p @ [newline])]\<rparr>
   | None \<Rightarrow> (case run_state (UserModel_query_id E t) (s_world s) of (user, d) \<Rightarrow>
       if u_state user = ''online''
       then s\<lparr>s_world := snd (st_after (Redis_publish E t p) (s_redis s, d))\<rparr>
       else s\<lparr>s_world := st_after (insertOfflineMessageByRpc E t p) d\<rparr>))"
  by (simp add: deliverMessage_def sendPayload_def split_beta split: option.split)

lemma run_redisMessage:
  "run_state (handleRedisSubscribeMessage E u p) s = ((), case findLocalConnection u s of
     Some c \<Rightarrow> s\<lparr>s_sent := s_sent s @ [(c, p @ [newline])]\<rparr>
   | None \<Rightarrow> s\<lparr>s_world := st_after (insertOfflineMessageByRpc E u p) (s_world s)\<rparr>)"
  by (simp add: handleRedisSubscribeMessage_def sendPayload_def split: option.split)

subsection \<open>Group chat\<close>

text \<open>What a list of deliveries writes to connections: one copy per receiver connected here.\<close>

definition local_copies :: "(int \<times> conn) list \<Rightarrow> string \<Rightarrow> int list \<Rightarrow> (conn \<times> string) list" where
  "local_copies m p us = concat (map (\<lambda>u. case map_of m u of None \<Rightarrow> [] | Some c \<Rightarrow> [(c, p @ [newline])]) us)"

lemma deliver_each:
  "userConnMap (st_after (for_each (\<lambda>u. deliverMessage E u p) us) s) = userConnMap s \<and>
   s_redis (st_after (for_each (\<lambda>u. deliverMessage E u p) us) s) = s_redis s \<and>
   s_sent (st_after (for_each (\<lambda>u. deliverMessage E u p) us) s) = s_sent s @ local_copies (userConnMap s) p us"
proof (induction us arbitrary: s)
  case Nil
  then show ?case by (simp add: local_copies_def)
next
  case (Cons u us)
  let ?s = "st_after (deliverMessage E u p) s"
  have "userConnMap ?s = userConnMap s \<and> s_redis ?s = s_redis s \<and>
      s_sent ?s = s_sent s @ (case map_of (userConnMap s) u of None \<Rightarrow> [] | Some c \<Rightarrow> [(c, p @ [newline])])"
    by (simp add: run_deliverMessage findLocalConnection_def split: option.split prod.split)
  with Cons.IH [of ?s] show ?case by (simp add: local_copies_def split_beta)
qed

definition member_ids :: "row list option \<Rightarrow> int list" where
  "member_ids rows = (case rows of None \<Rightarrow> [] | Some rs \<Rightarrow> map (\<lambda>r. QueryResult_getInt (at_row r) 0) rs)"

lemma reads_getInt [simp]: "reads_row (\<lambda>r. QueryResult_getInt r i)"
  by (simp add: reads_row_def QueryResult_getInt_def column_def at_row_def)

lemma reads_getString [simp]: "reads_row (\<lambda>r. QueryResult_getString r i)"
  by (simp add: reads_row_def QueryResult_getString_def column_def at_row_def)

lemma run_queryGroupUsers:
  "run_state (GroupModel_queryGroupUsers E u g) d =
     (let (rows, d') = sql_query E (sql_group_other_users u g) d in (member_ids rows, d'))"
  by (simp add: GroupModel_queryGroupUsers_def member_ids_def fetch_loop_rows split: prod.split option.split)

text \<open>C20: group fan-out. A group message is written once to the connection of every member the
  database lists that is connected to this node, in that order, with the group's name added and
  otherwise unchanged; members elsewhere get none of these copies, and neither does the sender
  unless the database lists him.\<close>

theorem group_fanout:
  assumes "int_field js ''userid'' = Inr u" and "int_field js ''groupid'' = Inr g"
    and "run_state (GroupModel_queryGroupName E g) (s_world s) = (name, d)"
    and "sql_query E (sql_group_other_users u g) d = (rows, d')"
    and "ext_json_dump E (set_member js ''groupname'' (JStr name)) = Some p"
  shows "s_sent (st_after (groupChat E c js) s) = s_sent s @ local_copies (userConnMap s) p (member_ids rows) \<and>
    userConnMap (st_after (groupChat E c js) s) = userConnMap s"
  using assms
  by (simp add: groupChat_def run_queryGroupUsers json_dump_def deliver_each split_beta)

lemma scripted_sql_query:
  "sql_query scripted sql (r # rs, log) = (Some r, (rs, log @ [c_str sql]))"
  "sql_query scripted sql ([], log) = (None, ([], log @ [c_str sql]))"
  "sql_update scripted sql (rows, log) = (True, (rows, log @ [c_str sql]))"
  by (simp_all add: sql_query_def sql_update_def scripted_def)

lemma scripted_dump [simp]: "ext_json_dump scripted j = Some (scripted_dump j)"
  by (simp add: scripted_def)

definition group_js :: json where
  "group_js = JObj [(''msgid'', JInt 16), (''userid'', JInt 7), (''groupid'', JInt 3), (''msg'', JStr ''hi'')]"

theorem group_fanout_witness:
  "let s = (scripted_node [[[Some ''club'']], [[Some ''8''], [Some ''9''], [Some ''10'']]])
         \<lparr>userConnMap := [(7, 4), (8, 5), (10, 6)]\<rparr>;
       p = scripted_dump (set_member group_js ''groupname'' (JStr ''club'')) @ [newline]
   in s_sent (st_after (groupChat scripted 4 group_js) s) = [(5, p), (6, p)]"
proof -
  let ?s = "(scripted_node [[[Some ''club'']], [[Some ''8''], [Some ''9''], [Some ''10'']]])
         \<lparr>userConnMap := [(7, 4), (8, 5), (10, 6)]\<rparr>"
  let ?d = "([[[Some ''8''], [Some ''9''], [Some ''10'']]], [c_str (sql_group_name 3)])"
  let ?d' = "([], [c_str (sql_group_name 3), c_str (sql_group_other_users 7 3)]) :: script"
  have n: "run_state (GroupModel_queryGroupName scripted 3) (s_world ?s) = (''club'', ?d)"
    by (simp add: scripted_node_def GroupModel_queryGroupName_def scripted_sql_query
        QueryResult_getString_def column_def)
  have r: "sql_query scripted (sql_group_other_users 7 3) ?d =
      (Some [[Some ''8''], [Some ''9''], [Some ''10'']], ?d')"
    by (simp add: scripted_sql_query)
  have f: "int_field group_js ''userid'' = Inr 7" "int_field group_js ''groupid'' = Inr 3"
    by (simp_all add: group_js_def int32_range_def)
  have "atoi ''8'' = 8" "atoi ''9'' = 9" "atoi ''10'' = 10"
    by (simp_all add: atoi_def scan_int_def scan_sign_def is_space_def is_digit_def signed_val_def
        digits_val_def digit_val_def clamp64_def int32_range_def)
  then have m: "member_ids (Some [[Some ''8''], [Some ''9''], [Some ''10'']]) = [8, 9, 10]"
    by (simp add: member_ids_def QueryResult_getInt_def)
  show ?thesis
    using group_fanout [OF f n r scripted_dump, of 4]
    by (simp add: Let_def m local_copies_def scripted_node_def)
qed

subsection \<open>Framing\<close>

text \<open>Every chunk handed to a connection is one non-empty line.\<close>

definition framed :: "(conn \<times> string) list \<Rightarrow> bool" where
  "framed out \<longleftrightarrow> (\<forall>(c, p) \<in> set out. \<exists>line. p = line @ [newline] \<and> newline \<notin> set line \<and> line \<noteq> [])"

lemma framed_append [simp]: "framed (a @ b) \<longleftrightarrow> framed a \<and> framed b"
  by (simp only: framed_def set_append ball_Un)

lemma framed_Nil [simp]: "framed []"
  by (simp add: framed_def)

lemma framed_line: "newline \<notin> set p \<Longrightarrow> p \<noteq> [] \<Longrightarrow> framed [(c, p @ [newline])]"
  by (simp add: framed_def)

lemma ignores_sent [simp]:
  "ignores_world (\<lambda>s. Q (s_sent s))" "ignores_redis (\<lambda>s. Q (s_sent s))"
  by (simp_all add: ignores_world_def ignores_redis_def)

lemma keeps_framed_send:
  "newline \<notin> set p \<Longrightarrow> p \<noteq> [] \<Longrightarrow> keeps (\<lambda>s. framed (s_sent s)) (sendPayload c p)"
  by (rule keepsI) (simp add: sendPayload_def framed_line)

lemma sends_ok_framed:
  assumes "json_one_line E"
  shows "sends_ok E (\<lambda>s. framed (s_sent s))"
proof -
  have "newline \<notin> set p \<and> p \<noteq> []" if "json_dump E j = Inr p" for j p
    using that assms by (auto simp: json_dump_def json_one_line_def split: option.splits)
  then show ?thesis by (simp add: sends_ok_def keeps_framed_send)
qed

definition clean_event :: "svc_event \<Rightarrow> bool" where
  "clean_event ev \<longleftrightarrow> (case ev of FromRedis u p \<Rightarrow> newline \<notin> set p \<and> p \<noteq> [] | _ \<Rightarrow> True)"

lemma framed_step:
  assumes "json_one_line E" "clean_event ev" "framed (s_sent s)"
  shows "framed (s_sent (svc_step E ev s))"
proof (cases ev)
  case (Message m c js)
  have "keeps (\<lambda>s. framed (s_sent s)) (modify (userConnMap_update f))" for f
    by (rule keepsI) simp
  with keeps_any_handler [OF sends_ok_framed [OF assms(1)] ignores_sent(2), of c m js]
  show ?thesis using assms(3) Message by (auto dest: keepsD)
next
  case (Closed c)
  have "keeps (\<lambda>s. framed (s_sent s)) (modify (userConnMap_update f))" for f
    by (rule keepsI) simp
  with keeps_clientClose [OF ignores_sent [where Q = framed], where E = E and c = c]
  show ?thesis using assms(3) Closed by (auto dest: keepsD)
next
  case (FromRedis u p)
  with assms have "newline \<notin> set p" "p \<noteq> []" by (simp_all add: clean_event_def)
  with keeps_redisMessage [OF ignores_sent(1) [where Q = framed], where p = p and E = E and u = u] keeps_framed_send
  show ?thesis using assms(3) FromRedis by (auto dest: keepsD)
qed

text \<open>C21: the node never breaks its own framing. Through any run of events, as long as what arrives from Redis
  is itself one line, everything handed to a client connection is exactly one non-empty line ended
  by the newline the receiver splits at, whichever handler wrote it.\<close>

theorem output_is_framed:
  assumes "json_one_line E" and "\<forall>ev \<in> set evs. clean_event ev" and "framed (s_sent s)"
  shows "framed (s_sent (svc_run E evs s))"
  using assms(2,3)
  by (induction evs arbitrary: s) (simp_all add: framed_step [OF assms(1)])

theorem output_is_framed_witness:
  "let s = svc_run scripted [Message 1 4 (login_js ''ann'' ''guess''), FromRedis 7 ''hello'']
       ((scripted_node [])\<lparr>userConnMap := [(7, 5)]\<rparr>)
   in framed (s_sent s) \<and> (5, ''hello'' @ [newline]) \<in> set (s_sent s)"
proof -
  let ?evs = "[Message 1 4 (login_js ''ann'' ''guess''), FromRedis 7 ''hello'']"
  let ?s = "(scripted_node [])\<lparr>userConnMap := [(7, 5)]\<rparr>"
  have "framed (s_sent (svc_run scripted ?evs ?s))"
    by (rule output_is_framed) (simp_all add: clean_event_def scripted_node_def)
  moreover have "(5, ''hello'' @ [newline]) \<in> set (s_sent (svc_run scripted ?evs ?s))"
    by (simp add: getHandler_def msgHandlerMap_def login_def login_js_def UserModel_query_name_def
        scripted_sql_query scripted_node_def User_def run_sendJson json_dump_def run_redisMessage
        findLocalConnection_def)
  ultimately show ?thesis by (simp only: Let_def)
qed

end
