(* ===== verification/ThreadPool.thy ===== *)
theory ThreadPool
  imports Prelude "HOL-Library.Multiset"
begin

text \<open>
  \<open>include/common/concurrency/ThreadPool.hpp\<close> and \<open>src/common/concurrency/ThreadPool.cpp\<close>: the
  bounded pool that runs the business handlers. A worker is waiting in \<open>condition.wait\<close>, running
  the task it took, or has returned. What a thread does under \<open>queue_mutex\<close> is one function on the
  state; the interleavings of the threads are the relation \<open>tp_step\<close>, whose events name what
  happened, and \<open>tp_run\<close> its runs. \<open>condition.wait\<close> returns when its predicate holds: \<open>stop\<close> and
  \<open>tasks\<close> only change under the mutex and every change is notified, so no wake-up is lost.
\<close>

datatype tp_error = InvalidThreadCount | InvalidQueueSize | ThreadCreationFailed
  | EnqueueOnStopped | TaskQueueFull | ShutdownFromWorker

datatype 'a worker = Waiting | Running 'a | Returned

record tp_config =
  thread_count :: nat
  max_queue_size :: nat

record 'a thread_pool =
  tp_workers :: "'a worker list"
  tp_tasks :: "'a list"
  tp_stopped :: bool
  tp_config :: tp_config

text \<open>
  The constructor. \<open>created\<close> is the number of threads the system lets it create: with fewer than
  \<open>thread_count\<close> it stops and joins those it has and throws again.
\<close>

definition ThreadPool_new :: "tp_config \<Rightarrow> nat \<Rightarrow> tp_error + 'a thread_pool" where
  "ThreadPool_new config created =
     (if thread_count config = 0 then Inl InvalidThreadCount
      else if max_queue_size config = 0 then Inl InvalidQueueSize
      else if created < thread_count config then Inl ThreadCreationFailed
      else Inr \<lparr>tp_workers = replicate (thread_count config) Waiting, tp_tasks = [],
                tp_stopped = False, tp_config = config\<rparr>)"

definition enqueue :: "'a \<Rightarrow> 'a thread_pool \<Rightarrow> tp_error + 'a thread_pool" where
  "enqueue task p =
     (if tp_stopped p then Inl EnqueueOnStopped
      else if length (tp_tasks p) \<ge> max_queue_size (tp_config p) then Inl TaskQueueFull
      else Inr (p\<lparr>tp_tasks := tp_tasks p @ [task]\<rparr>))"

text \<open>
  A worker at the top of its loop: it stays in the wait, returns, or takes the front task.
\<close>

datatype 'a wake = StillWaiting | WorkerReturns "'a thread_pool" | TakesTask 'a "'a thread_pool"

definition worker_wait :: "nat \<Rightarrow> 'a thread_pool \<Rightarrow> 'a wake" where
  "worker_wait i p =
     (if \<not> (tp_stopped p \<or> tp_tasks p \<noteq> []) then StillWaiting
      else if tp_stopped p \<and> tp_tasks p = []
      then WorkerReturns (p\<lparr>tp_workers := (tp_workers p)[i := Returned]\<rparr>)
      else TakesTask (hd (tp_tasks p))
             (p\<lparr>tp_workers := (tp_workers p)[i := Running (hd (tp_tasks p))], tp_tasks := tl (tp_tasks p)\<rparr>))"

definition worker_done :: "nat \<Rightarrow> 'a thread_pool \<Rightarrow> 'a thread_pool" where
  "worker_done i p = p\<lparr>tp_workers := (tp_workers p)[i := Waiting]\<rparr>"

text \<open>
  \<open>shutdown\<close> up to its \<open>notify_all\<close>; \<open>caller\<close> is the worker that calls it, \<open>None\<close> for any other
  thread. The Boolean says whether it goes on to join the workers. \<open>joined\<close> is the condition under
  which the joins return.
\<close>

definition shutdown_begin :: "nat option \<Rightarrow> 'a thread_pool \<Rightarrow> tp_error + bool \<times> 'a thread_pool" where
  "shutdown_begin caller p =
     (if tp_stopped p then Inr (False, p)
      else case caller of
             Some i \<Rightarrow> if i < length (tp_workers p) then Inl ShutdownFromWorker
                       else Inr (True, p\<lparr>tp_stopped := True\<rparr>)
           | None \<Rightarrow> Inr (True, p\<lparr>tp_stopped := True\<rparr>))"

definition joined :: "'a thread_pool \<Rightarrow> bool" where
  "joined p \<longleftrightarrow> (\<forall>w \<in> set (tp_workers p). w = Returned)"

subsection \<open>Interleavings\<close>

datatype 'a tp_event = Enqueued 'a | Took nat 'a | Finished nat 'a | WorkerReturned nat | StopSet

inductive tp_step :: "'a thread_pool \<Rightarrow> 'a tp_event \<Rightarrow> 'a thread_pool \<Rightarrow> bool" where
  enqueues: "enqueue t p = Inr p' \<Longrightarrow> tp_step p (Enqueued t) p'"
| takes: "i < length (tp_workers p) \<Longrightarrow> tp_workers p ! i = Waiting \<Longrightarrow> worker_wait i p = TakesTask t p' \<Longrightarrow>
    tp_step p (Took i t) p'"
| returns: "i < length (tp_workers p) \<Longrightarrow> tp_workers p ! i = Waiting \<Longrightarrow> worker_wait i p = WorkerReturns p' \<Longrightarrow>
    tp_step p (WorkerReturned i) p'"
| finishes: "i < length (tp_workers p) \<Longrightarrow> tp_workers p ! i = Running t \<Longrightarrow>
    tp_step p (Finished i t) (worker_done i p)"
| stops: "shutdown_begin None p = Inr (True, p') \<Longrightarrow> tp_step p StopSet p'"

inductive tp_run :: "'a thread_pool \<Rightarrow> 'a tp_event list \<Rightarrow> 'a thread_pool \<Rightarrow> bool" where
  run_refl: "tp_run p [] p"
| run_snoc: "tp_run p es q \<Longrightarrow> tp_step q e r \<Longrightarrow> tp_run p (es @ [e]) r"

inductive_cases tp_stepE: "tp_step p e p'"
inductive_cases tp_run_NilE: "tp_run p [] q"

text \<open>What a run has enqueued, started and finished, in order.\<close>

fun enqueued :: "'a tp_event list \<Rightarrow> 'a list" where
  "enqueued [] = []"
| "enqueued (Enqueued t # es) = t # enqueued es"
| "enqueued (_ # es) = enqueued es"

fun started :: "'a tp_event list \<Rightarrow> 'a list" where
  "started [] = []"
| "started (Took i t # es) = t # started es"
| "started (_ # es) = started es"

fun finished :: "'a tp_event list \<Rightarrow> 'a list" where
  "finished [] = []"
| "finished (Finished i t # es) = t # finished es"
| "finished (_ # es) = finished es"

lemma projections_append [simp]:
  "enqueued (xs @ ys) = enqueued xs @ enqueued ys"
  "started (xs @ ys) = started xs @ started ys"
  "finished (xs @ ys) = finished xs @ finished ys"
proof -
  show "enqueued (xs @ ys) = enqueued xs @ enqueued ys"
    by (induction xs rule: enqueued.induct) auto
  show "started (xs @ ys) = started xs @ started ys"
    by (induction xs rule: started.induct) auto
  show "finished (xs @ ys) = finished xs @ finished ys"
    by (induction xs rule: finished.induct) auto
qed

text \<open>The tasks workers are running, as a multiset.\<close>

fun running_of :: "'a worker \<Rightarrow> 'a multiset" where
  "running_of (Running t) = {#t#}"
| "running_of _ = {#}"

definition running :: "'a thread_pool \<Rightarrow> 'a multiset" where
  "running p = sum_list (map running_of (tp_workers p))"

lemma running_update:
  assumes "i < length ws"
  shows "sum_list (map running_of (ws[i := w])) + running_of (ws ! i) =
    sum_list (map running_of ws) + running_of w"
  using assms
proof (induction ws arbitrary: i)
  case Nil
  then show ?case by simp
next
  case (Cons x ws)
  then show ?case by (cases i) (auto simp: ac_simps)
qed

subsection \<open>Invariants of runs\<close>

definition tp_inv :: "'a thread_pool \<Rightarrow> bool" where
  "tp_inv p \<longleftrightarrow> length (tp_tasks p) \<le> max_queue_size (tp_config p) \<and>
     (Returned \<in> set (tp_workers p) \<longrightarrow> tp_stopped p \<and> tp_tasks p = [])"

lemmas tp_defs = enqueue_def worker_wait_def worker_done_def shutdown_begin_def

lemma tp_step_cases:
  assumes "tp_step p e p'"
  obtains (enqueues) t where "e = Enqueued t" "\<not> tp_stopped p"
      "length (tp_tasks p) < max_queue_size (tp_config p)" "p' = p\<lparr>tp_tasks := tp_tasks p @ [t]\<rparr>"
  | (takes) i t ts where "e = Took i t" "i < length (tp_workers p)" "tp_workers p ! i = Waiting"
      "tp_tasks p = t # ts" "p' = p\<lparr>tp_workers := (tp_workers p)[i := Running t], tp_tasks := ts\<rparr>"
  | (returns) i where "e = WorkerReturned i" "i < length (tp_workers p)" "tp_workers p ! i = Waiting"
      "tp_stopped p" "tp_tasks p = []" "p' = p\<lparr>tp_workers := (tp_workers p)[i := Returned]\<rparr>"
  | (finishes) i t where "e = Finished i t" "i < length (tp_workers p)" "tp_workers p ! i = Running t"
      "p' = p\<lparr>tp_workers := (tp_workers p)[i := Waiting]\<rparr>"
  | (stops) "e = StopSet" "\<not> tp_stopped p" "p' = p\<lparr>tp_stopped := True\<rparr>"
  using assms
proof cases
  case (takes i t)
  then show ?thesis
    by (cases "tp_tasks p") (auto simp: worker_wait_def split: if_splits intro: that(2))
qed (auto simp: tp_defs split: if_splits intro: that)

lemma tp_step_config: "tp_step p e p' \<Longrightarrow> tp_config p' = tp_config p"
  and tp_step_workers: "tp_step p e p' \<Longrightarrow> length (tp_workers p') = length (tp_workers p)"
  by (auto elim!: tp_step_cases)

lemma tp_step_inv:
  assumes "tp_step p e p'" "tp_inv p"
  shows "tp_inv p'"
  using assms(1)
proof (cases rule: tp_step_cases)
  case (takes i t ts)
  with assms(2) show ?thesis
    by (auto simp: tp_inv_def dest!: set_update_subset_insert [THEN subsetD])
next
  case (finishes i t)
  with assms(2) show ?thesis
    by (auto simp: tp_inv_def dest!: set_update_subset_insert [THEN subsetD])
qed (use assms(2) in \<open>auto simp: tp_inv_def dest!: set_update_subset_insert [THEN subsetD]\<close>)

lemma tp_run_inv: "tp_run p es q \<Longrightarrow> tp_inv p \<Longrightarrow> tp_inv q \<and> tp_config q = tp_config p"
  by (induction rule: tp_run.induct) (auto intro: tp_step_inv simp: tp_step_config)

lemma ThreadPool_new_inv: "ThreadPool_new c n = Inr p \<Longrightarrow> tp_inv p"
  by (auto simp: ThreadPool_new_def tp_inv_def split: if_splits)

lemma tp_step_fifo:
  "tp_step p e p' \<Longrightarrow> tp_tasks p @ enqueued [e] = started [e] @ tp_tasks p'"
  by (auto elim!: tp_step_cases)

lemma tp_run_fifo: "tp_run p es q \<Longrightarrow> tp_tasks p @ enqueued es = started es @ tp_tasks q"
proof (induction rule: tp_run.induct)
  case (run_refl p)
  then show ?case by simp
next
  case (run_snoc p es q e r)
  have "tp_tasks p @ enqueued (es @ [e]) = started es @ tp_tasks q @ enqueued [e]"
    using run_snoc.IH by simp
  with tp_step_fifo [OF run_snoc.hyps(2)] show ?case by simp
qed

lemma tp_step_running:
  assumes "tp_step p e p'"
  shows "running p + mset (started [e]) = running p' + mset (finished [e])"
  using assms
proof (cases rule: tp_step_cases)
  case (takes i t ts)
  then show ?thesis using running_update [of i "tp_workers p" "Running t"] by (simp add: running_def)
next
  case (returns i)
  then show ?thesis using running_update [of i "tp_workers p" Returned] by (simp add: running_def)
next
  case (finishes i t)
  then show ?thesis using running_update [of i "tp_workers p" Waiting] by (simp add: running_def)
qed (simp_all add: running_def)

lemma tp_run_running:
  "tp_run p es q \<Longrightarrow> running p + mset (started es) = running q + mset (finished es)"
proof (induction rule: tp_run.induct)
  case (run_refl p)
  then show ?case by simp
next
  case (run_snoc p es q e r)
  have "running p + mset (started (es @ [e])) = (running q + mset (started [e])) + mset (finished es)"
    using run_snoc.IH by (simp add: ac_simps)
  also have "\<dots> = running r + mset (finished (es @ [e]))"
    by (subst tp_step_running [OF run_snoc.hyps(2)]) (simp add: ac_simps)
  finally show ?case .
qed

lemma joined_running: "joined p \<Longrightarrow> running p = {#}"
proof -
  have "\<forall>w \<in> set ws. w = Returned \<Longrightarrow> sum_list (map running_of ws) = {#}" for ws :: "'a worker list"
    by (induction ws) auto
  then show "joined p \<Longrightarrow> running p = {#}" by (simp add: running_def joined_def)
qed

subsection \<open>A stopped pool drains\<close>

text \<open>
  What is left to do: three for a queued task, two for a task being run, one for a worker that has
  not returned. Every step of a stopped pool lowers it, and while a worker has not returned there is
  a step to make.
\<close>

fun worker_cost :: "'a worker \<Rightarrow> nat" where
  "worker_cost Waiting = 1"
| "worker_cost (Running t) = 2"
| "worker_cost Returned = 0"

definition remaining :: "'a thread_pool \<Rightarrow> nat" where
  "remaining p = 3 * length (tp_tasks p) + sum_list (map worker_cost (tp_workers p))"

lemma cost_update:
  assumes "i < length ws"
  shows "sum_list (map worker_cost (ws[i := w])) + worker_cost (ws ! i) =
    sum_list (map worker_cost ws) + worker_cost w"
  using assms
proof (induction ws arbitrary: i)
  case Nil
  then show ?case by simp
next
  case (Cons x ws)
  then show ?case by (cases i) (auto simp: ac_simps)
qed

lemma stopped_step_decreases:
  assumes "tp_step p e p'" "tp_stopped p"
  shows "remaining p' < remaining p" and "tp_stopped p'"
proof -
  show "remaining p' < remaining p"
    using assms(1)
  proof (cases rule: tp_step_cases)
    case (takes i t ts)
    then show ?thesis using cost_update [of i "tp_workers p" "Running t"] by (simp add: remaining_def)
  next
    case (returns i)
    then show ?thesis using cost_update [of i "tp_workers p" Returned] by (simp add: remaining_def)
  next
    case (finishes i t)
    then show ?thesis using cost_update [of i "tp_workers p" Waiting] by (simp add: remaining_def)
  qed (use assms(2) in simp_all)
  show "tp_stopped p'"
    using assms by (auto elim!: tp_step_cases)
qed

lemma stopped_progress:
  assumes "tp_stopped p" "\<not> joined p"
  shows "\<exists>e p'. tp_step p e p'"
proof -
  obtain w where "w \<in> set (tp_workers p)" "w \<noteq> Returned"
    using assms(2) by (auto simp: joined_def)
  then obtain i where i: "i < length (tp_workers p)" "tp_workers p ! i \<noteq> Returned"
    by (metis in_set_conv_nth)
  show ?thesis
  proof (cases "tp_workers p ! i")
    case Waiting
    have "worker_wait i p \<noteq> StillWaiting"
      using assms(1) by (simp add: worker_wait_def)
    with i Waiting show ?thesis
      by (cases "worker_wait i p") (auto intro: tp_step.takes tp_step.returns)
  next
    case (Running t)
    with i show ?thesis by (blast intro: tp_step.finishes)
  next
    case Returned
    with i show ?thesis by simp
  qed
qed

lemma tp_run_Cons: "tp_run q es r \<Longrightarrow> tp_step p e q \<Longrightarrow> tp_run p (e # es) r"
proof (induction q es r rule: tp_run.induct)
  case (run_refl q)
  then show ?case using tp_run.run_snoc [OF tp_run.run_refl, of p e q] by simp
next
  case (run_snoc q es q' e' r)
  then show ?case using tp_run.run_snoc [of p "e # es" q' e' r] by simp
qed

lemma stopped_drains:
  assumes "tp_stopped p"
  shows "\<exists>es q. tp_run p es q \<and> joined q"
  using assms
proof (induction "remaining p" arbitrary: p rule: less_induct)
  case less
  show ?case
  proof (cases "joined p")
    case True
    then show ?thesis by (blast intro: tp_run.run_refl)
  next
    case False
    then obtain e p' where s: "tp_step p e p'"
      using stopped_progress less.prems by blast
    with less stopped_step_decreases [OF s] obtain es q where "tp_run p' es q" "joined q"
      by blast
    with s show ?thesis by (blast intro: tp_run_Cons)
  qed
qed

lemma stopped_run_bound:
  assumes "tp_run p es q" "tp_stopped p"
  shows "length es + remaining q \<le> remaining p" and "tp_stopped q"
  using assms
proof (induction rule: tp_run.induct)
  case (run_snoc p es q e r)
  {
    case 1
    with run_snoc stopped_step_decreases(1) [OF run_snoc.hyps(2)] show ?case by fastforce
  next
    case 2
    with run_snoc stopped_step_decreases(2) [OF run_snoc.hyps(2)] show ?case by blast
  }
qed simp_all

subsection \<open>What the server relies on\<close>

lemma tp_run_workers: "tp_run p es q \<Longrightarrow> length (tp_workers q) = length (tp_workers p)"
  by (induction rule: tp_run.induct) (simp_all add: tp_step_workers)

text \<open>The pool is a bounded first-in first-out queue. In every run of a new pool at most
  \<open>max_queue_size\<close> tasks wait, and the tasks accepted so far are, in their order, the tasks workers
  have taken followed by those that wait: none is lost, duplicated or taken out of turn.\<close>

theorem pool_is_bounded_fifo:
  assumes "ThreadPool_new c n = Inr p0" and "tp_run p0 es p"
  shows "length (tp_tasks p) \<le> max_queue_size c \<and> enqueued es = started es @ tp_tasks p"
proof -
  have "tp_tasks p0 = []" "tp_config p0 = c"
    using assms(1) by (auto simp: ThreadPool_new_def split: if_splits)
  with tp_run_inv [OF assms(2) ThreadPool_new_inv [OF assms(1)]] tp_run_fifo [OF assms(2)]
  show ?thesis by (auto simp: tp_inv_def)
qed

definition one_worker :: "nat thread_pool" where
  "one_worker = \<lparr>tp_workers = [Waiting], tp_tasks = [], tp_stopped = False,
     tp_config = \<lparr>thread_count = 1, max_queue_size = 2\<rparr>\<rparr>"

lemma one_worker_new: "ThreadPool_new \<lparr>thread_count = 1, max_queue_size = 2\<rparr> 1 = Inr one_worker"
  by (simp add: ThreadPool_new_def one_worker_def)

lemma one_worker_run:
  "tp_run one_worker [Enqueued 5] (one_worker\<lparr>tp_tasks := [5]\<rparr>)"
proof -
  have "tp_step one_worker (Enqueued 5) (one_worker\<lparr>tp_tasks := [5]\<rparr>)"
    by (rule tp_step.enqueues) (simp add: enqueue_def one_worker_def)
  from tp_run.run_snoc [OF tp_run.run_refl this] show ?thesis by simp
qed

theorem pool_is_bounded_fifo_witness:
  "tp_run one_worker [Enqueued 5] (one_worker\<lparr>tp_tasks := [5]\<rparr>) \<and> enqueued [Enqueued (5 :: nat)] = [5]"
  using pool_is_bounded_fifo [OF one_worker_new one_worker_run] one_worker_run by (simp add: one_worker_def)

text \<open>C17: shutdown runs every accepted task exactly once. When \<open>shutdown\<close> has joined the workers,
  whatever the interleaving, the tasks that finished are exactly the tasks that were accepted, each
  as often as it was accepted.\<close>

theorem shutdown_runs_every_task:
  assumes "ThreadPool_new c n = Inr p0" and "tp_run p0 es p" and "joined p"
  shows "mset (finished es) = mset (enqueued es) \<and> tp_stopped p"
proof -
  have "sum_list (replicate k {#}) = {#}" for k by (induction k) simp_all
  then have p0: "tp_tasks p0 = []" "running p0 = {#}"
    using assms(1) by (auto simp: ThreadPool_new_def running_def split: if_splits)
  have "tp_workers p0 \<noteq> []"
    using assms(1) by (auto simp: ThreadPool_new_def split: if_splits)
  then have "tp_workers p \<noteq> []"
    using tp_run_workers [OF assms(2)] by (metis length_0_conv)
  then have "Returned \<in> set (tp_workers p)"
    using assms(3) by (cases "tp_workers p") (auto simp: joined_def)
  with tp_run_inv [OF assms(2) ThreadPool_new_inv [OF assms(1)]]
  have e: "tp_tasks p = []" "tp_stopped p" by (simp_all add: tp_inv_def)
  show ?thesis
    using tp_run_fifo [OF assms(2)] tp_run_running [OF assms(2)] joined_running [OF assms(3)] p0 e by simp
qed

lemma one_worker_shutdown:
  "tp_run one_worker [Enqueued 5, StopSet, Took 0 5, Finished 0 5, WorkerReturned 0]
     (one_worker\<lparr>tp_workers := [Returned], tp_stopped := True\<rparr>)"
proof -
  let ?p1 = "one_worker\<lparr>tp_tasks := [5]\<rparr>"
  let ?p2 = "?p1\<lparr>tp_stopped := True\<rparr>"
  let ?p3 = "?p2\<lparr>tp_workers := [Running 5], tp_tasks := []\<rparr>"
  let ?p4 = "?p3\<lparr>tp_workers := [Waiting]\<rparr>"
  let ?p5 = "?p4\<lparr>tp_workers := [Returned]\<rparr>"
  note d = one_worker_def worker_wait_def shutdown_begin_def worker_done_def
  have 2: "tp_step ?p1 StopSet ?p2" by (rule tp_step.stops) (simp add: d)
  have 3: "tp_step ?p2 (Took 0 5) ?p3" by (rule tp_step.takes) (simp_all add: d)
  have 4: "tp_step ?p3 (Finished 0 5) ?p4"
    using tp_step.finishes [of 0 ?p3 5] by (simp add: d)
  have 5: "tp_step ?p4 (WorkerReturned 0) ?p5" by (rule tp_step.returns) (simp_all add: d)
  have "tp_run one_worker ((([Enqueued 5] @ [StopSet]) @ [Took 0 5]) @ [Finished 0 5]) ?p4"
    by (rule tp_run.run_snoc [OF tp_run.run_snoc [OF tp_run.run_snoc [OF one_worker_run 2] 3] 4])
  from tp_run.run_snoc [OF this 5] show ?thesis by (simp add: one_worker_def)
qed

theorem shutdown_runs_every_task_witness:
  "\<exists>es p. tp_run one_worker es p \<and> joined p \<and> mset (finished es) = {#5#} \<and> enqueued es = [5]"
proof -
  have j: "joined (one_worker\<lparr>tp_workers := [Returned], tp_stopped := True\<rparr>)"
    by (simp add: joined_def)
  from shutdown_runs_every_task [OF one_worker_new one_worker_shutdown j] one_worker_shutdown j
  show ?thesis by (intro exI conjI) (assumption | simp)+
qed

text \<open>C32: shutdown ends. Once the pool is stopped, every further step (a worker takes a task,
  finishes it, or returns) uses up one of at most \<open>remaining p\<close>: no run is longer, and as long as a
  worker has not returned there is a step to make, so the joins return.\<close>

theorem shutdown_terminates:
  assumes "tp_stopped p"
  shows "(\<forall>es q. tp_run p es q \<longrightarrow> length es \<le> remaining p \<and> (joined q \<or> (\<exists>e r. tp_step q e r))) \<and>
    (\<exists>es q. tp_run p es q \<and> joined q)"
proof -
  have "length es \<le> remaining p \<and> (joined q \<or> (\<exists>e r. tp_step q e r))" if run: "tp_run p es q" for es q
    using stopped_run_bound [OF run assms] stopped_progress [of q] by auto
  with stopped_drains [OF assms] show ?thesis by simp
qed

theorem shutdown_terminates_witness:
  "\<exists>es q. tp_run (one_worker\<lparr>tp_tasks := [5], tp_stopped := True\<rparr>) es q \<and> joined q"
  using shutdown_terminates [of "one_worker\<lparr>tp_tasks := [5], tp_stopped := True\<rparr>"] by simp

end
