(* ===== verification/ChatServer.thy ===== *)
theory ChatServer
  imports Delivery ThreadPool Line_Interface
begin

text \<open>
  \<open>src/server/chatserver.cpp\<close>: the receive buffers of the connections, the cutting of the byte
  stream into lines, and the hand-over of each message to the business thread pool. The state joins
  the buffers, the pool with its queue of tasks, and the service the tasks run on. One callback of
  the network library is one step: a connection belongs to one IO thread.
\<close>

datatype task = HandlerTask int conn json | CloseTask conn

record 'd server =
  srv_recvBuf :: "conn \<Rightarrow> string option"
  srv_pool :: "task thread_pool"
  srv_svc :: "'d svc"

definition makeBusinessThreadPoolConfig :: tp_config where
  "makeBusinessThreadPoolConfig = \<lparr>thread_count = 4, max_queue_size = 10000\<rparr>"

text \<open>\<open>_recvBufMap[conn]\<close>: an absent entry is created empty.\<close>

definition buf_of :: "'d server \<Rightarrow> conn \<Rightarrow> string" where
  "buf_of srv conn = (case srv_recvBuf srv conn of None \<Rightarrow> [] | Some b \<Rightarrow> b)"

definition set_buf :: "conn \<Rightarrow> string \<Rightarrow> 'd server \<Rightarrow> 'd server" where
  "set_buf conn b srv = srv\<lparr>srv_recvBuf := (srv_recvBuf srv)(conn := Some b)\<rparr>"

definition busy_response :: json where
  "busy_response = JObj [(''errno'', JInt 1), (''errmsg'', JStr ''server busy'')]"

definition send_busy :: "'d outside \<Rightarrow> conn \<Rightarrow> 'd server \<Rightarrow> 'd server" where
  "send_busy E conn srv = (case ext_json_dump E busy_response of
     None \<Rightarrow> srv
   | Some p \<Rightarrow> srv\<lparr>srv_svc := (srv_svc srv)\<lparr>s_sent := s_sent (srv_svc srv) @ [(conn, p @ [newline])]\<rparr>\<rparr>)"

text \<open>The body of the loop for one line: \<open>True\<close> is the early \<open>return\<close>.\<close>

definition handle_frame :: "'d outside \<Rightarrow> conn \<Rightarrow> string \<Rightarrow> 'd server \<Rightarrow> bool \<times> 'd server" where
  "handle_frame E conn line srv =
     (if line = [] then (False, srv)
      else (case ext_json_parse E line of
         None \<Rightarrow> (False, srv)
       | Some js \<Rightarrow>
           if \<not> contains js ''msgid'' then (True, srv)
           else (case int_field js ''msgid'' of
              Inl _ \<Rightarrow> (False, srv)
            | Inr msgid \<Rightarrow>
                (case enqueue (HandlerTask msgid conn js) (srv_pool srv) of
                   Inr p \<Rightarrow> (False, srv\<lparr>srv_pool := p\<rparr>)
                 | Inl _ \<Rightarrow> (False, send_busy E conn srv)))))"

lemma handle_frame_buf [simp]: "srv_recvBuf (snd (handle_frame E conn line srv)) = srv_recvBuf srv"
  by (simp add: handle_frame_def send_busy_def split: option.split sum.split)

function frame_loop :: "'d outside \<Rightarrow> conn \<Rightarrow> 'd server \<Rightarrow> 'd server" where
  "frame_loop E conn srv = (case find_char newline (buf_of srv conn) of
     None \<Rightarrow> srv
   | Some pos \<Rightarrow>
       (let line = take pos (buf_of srv conn);
            srv1 = set_buf conn (drop (pos + 1) (buf_of srv conn)) srv;
            r = handle_frame E conn line srv1
        in if fst r then snd r else frame_loop E conn (snd r)))"
  by pat_completeness auto
termination
proof (relation "measure (\<lambda>(E, conn, srv). length (buf_of srv conn))", goal_cases)
  case 1
  then show ?case by simp
next
  case (2 E conn srv pos line srv1 r)
  then have "pos < length (buf_of srv conn)" using find_char_split(3) by blast
  moreover have "buf_of (snd r) conn = drop (pos + 1) (buf_of srv conn)"
    using 2 by (simp add: buf_of_def set_buf_def)
  ultimately show ?case by simp
qed

declare frame_loop.simps [simp del]

definition onMessage :: "'d outside \<Rightarrow> conn \<Rightarrow> string \<Rightarrow> 'd server \<Rightarrow> 'd server" where
  "onMessage E conn readbuf srv = frame_loop E conn (set_buf conn (buf_of srv conn @ readbuf) srv)"

text \<open>
  \<open>onConnection\<close> when the peer is gone: the cleanup is a task, or runs at once on the IO thread when
  the pool refuses it, and the buffer is released.
\<close>

definition onDisconnect :: "'d outside \<Rightarrow> conn \<Rightarrow> 'd server \<Rightarrow> 'd server" where
  "onDisconnect E conn srv = (let
     srv1 = (case enqueue (CloseTask conn) (srv_pool srv) of
               Inr p \<Rightarrow> srv\<lparr>srv_pool := p\<rparr>
             | Inl _ \<Rightarrow> srv\<lparr>srv_svc := st_after (clientCloseException E conn) (srv_svc srv)\<rparr>)
     in srv1\<lparr>srv_recvBuf := (srv_recvBuf srv1)(conn := None)\<rparr>)"

definition onConnection :: "'d outside \<Rightarrow> bool \<Rightarrow> conn \<Rightarrow> 'd server \<Rightarrow> 'd server" where
  "onConnection E connected conn srv = (if \<not> connected then onDisconnect E conn srv else srv)"

text \<open>What a worker does with a task; the wrapper around the handler swallows its exception.\<close>

fun run_task :: "'d outside \<Rightarrow> task \<Rightarrow> 'd svc \<Rightarrow> 'd svc" where
  "run_task E (HandlerTask m conn js) s = st_after (getHandler E m conn js) s"
| "run_task E (CloseTask conn) s = st_after (clientCloseException E conn) s"

text \<open>\<open>main\<close>: the arguments, the service, the server. The pool's threads may fail to start.\<close>

definition server_start :: "'d outside \<Rightarrow> nat \<Rightarrow> 'd \<Rightarrow> 'd server option" where
  "server_start E created d = (case ChatService_new E d of
     None \<Rightarrow> None
   | Some s \<Rightarrow> (case ThreadPool_new makeBusinessThreadPoolConfig created of
       Inl _ \<Rightarrow> None
     | Inr p \<Rightarrow> Some \<lparr>srv_recvBuf = (\<lambda>_. None), srv_pool = p, srv_svc = s\<rparr>))"

subsection \<open>The loop is the lines, one by one\<close>

text \<open>A line that makes \<open>onMessage\<close> return: JSON without a \<open>msgid\<close>.\<close>

definition halts :: "'d outside \<Rightarrow> string \<Rightarrow> bool" where
  "halts E line \<longleftrightarrow> line \<noteq> [] \<and> (\<exists>js. ext_json_parse E line = Some js \<and> \<not> contains js ''msgid'')"

definition handle_lines :: "'d outside \<Rightarrow> conn \<Rightarrow> string list \<Rightarrow> 'd server \<Rightarrow> 'd server" where
  "handle_lines E conn ls srv = fold (\<lambda>l s. snd (handle_frame E conn l s)) ls srv"

lemma handle_lines_simps [simp]:
  "handle_lines E conn [] srv = srv"
  "handle_lines E conn (l # ls) srv = handle_lines E conn ls (snd (handle_frame E conn l srv))"
  "handle_lines E conn (ls @ ls') srv = handle_lines E conn ls' (handle_lines E conn ls srv)"
  by (simp_all add: handle_lines_def)

lemma handle_frame_halts: "fst (handle_frame E conn l srv) \<longleftrightarrow> halts E l"
  by (auto simp: handle_frame_def halts_def split: option.split sum.split)

lemma handle_frame_halting: "halts E l \<Longrightarrow> handle_frame E conn l srv = (True, srv)"
  by (auto simp: handle_frame_def halts_def)

lemma handle_frame_set_buf:
  "handle_frame E conn l (set_buf c b srv) =
     (fst (handle_frame E conn l srv), set_buf c b (snd (handle_frame E conn l srv)))"
  by (simp add: handle_frame_def send_busy_def set_buf_def split: option.split sum.split)

lemma handle_lines_set_buf:
  "handle_lines E conn ls (set_buf c b srv) = set_buf c b (handle_lines E conn ls srv)"
  by (induction ls arbitrary: srv) (simp_all add: handle_frame_set_buf)

lemma handle_lines_buf [simp]: "srv_recvBuf (handle_lines E conn ls srv) = srv_recvBuf srv"
  by (induction ls arbitrary: srv) simp_all

lemma set_buf_simps [simp]:
  "set_buf c a (set_buf c b srv) = set_buf c a srv"
  "buf_of (set_buf c a srv) c = a"
  "srv_pool (set_buf c a srv) = srv_pool srv"
  "srv_svc (set_buf c a srv) = srv_svc srv"
  by (simp_all add: set_buf_def buf_of_def)

text \<open>The server's loop is a line reader, for every connection.\<close>

interpretation reader: line_reader "\<lambda>srv. buf_of srv conn" "set_buf conn" "handle_frame E conn" "frame_loop E conn"
  for E conn
proof (unfold_locales, goal_cases)
  case (1 b s) show ?case by simp
next
  case (2 a b s) show ?case by simp
next
  case (3 l b s) show ?case by (rule handle_frame_set_buf)
next
  case (4 s) then show ?case by (simp add: frame_loop.simps [of E conn s])
next
  case (5 s pos) then show ?case by (simp add: frame_loop.simps [of E conn s])
next
  case (6 l s s') show ?case by (simp add: handle_frame_halts)
qed

lemma handle_lines_reader: "handle_lines E conn = reader.handle_all E conn"
  by (intro ext) (simp add: handle_lines_def reader.handle_all_def)

lemma onMessage_lines:
  assumes "\<forall>l \<in> set (fst (split_lines (buf_of srv conn @ bytes))). \<not> halts E l"
  shows "onMessage E conn bytes srv = set_buf conn (snd (split_lines (buf_of srv conn @ bytes)))
    (handle_lines E conn (fst (split_lines (buf_of srv conn @ bytes))) srv)"
  using reader.loop_lines [where b = "buf_of srv conn @ bytes" and E = E and conn = conn and s = srv] assms
  by (simp add: handle_frame_halts onMessage_def handle_lines_reader)

text \<open>The chunks one after the other.\<close>

definition receive :: "'d outside \<Rightarrow> conn \<Rightarrow> string list \<Rightarrow> 'd server \<Rightarrow> 'd server" where
  "receive E conn chunks srv = fold (onMessage E conn) chunks srv"

lemma receive_reader: "receive E conn = reader.receive conn E"
proof -
  have "onMessage E conn = (\<lambda>c s. frame_loop E conn (set_buf conn (buf_of s conn @ c) s))"
    by (intro ext) (simp add: onMessage_def)
  then show ?thesis by (intro ext) (simp add: receive_def reader.receive_def)
qed

lemma server_receive_lines:
  assumes "\<forall>l \<in> set (fst (split_lines (b @ concat chunks))). \<not> halts E l" and "newline \<notin> set b"
  shows "receive E conn chunks (set_buf conn b srv) =
    set_buf conn (snd (split_lines (b @ concat chunks)))
      (handle_lines E conn (fst (split_lines (b @ concat chunks))) srv)"
  using reader.receive_lines [where b = b and chunks = chunks and E = E and conn = conn and s = srv] assms
  by (simp add: handle_frame_halts receive_reader handle_lines_reader)

text \<open>C16: how the network cuts the stream does not matter. However the bytes of a connection arrive
  in pieces, as long as no complete line is JSON without a \<open>msgid\<close>, the server ends in the same
  state: the complete lines of the concatenation are handled one by one in their order, and the
  bytes after the last newline wait in the buffer.\<close>

theorem chunking_does_not_matter:
  assumes "newline \<notin> set b"
    and "\<forall>l \<in> set (fst (split_lines (b @ concat chunks))). \<not> halts E l"
  shows "receive E conn chunks (set_buf conn b srv) =
    set_buf conn (snd (split_lines (b @ concat chunks)))
      (handle_lines E conn (fst (split_lines (b @ concat chunks))) srv)"
  using assms by (intro server_receive_lines)

text \<open>A server of the scripted world that has just started.\<close>

definition scripted_server :: "row list list \<Rightarrow> script server" where
  "scripted_server rows = \<lparr>srv_recvBuf = (\<lambda>_. None),
     srv_pool = \<lparr>tp_workers = replicate 4 Waiting, tp_tasks = [], tp_stopped = False,
                 tp_config = makeBusinessThreadPoolConfig\<rparr>,
     srv_svc = started_node rows\<rparr>"

lemma scripted_server_start: "server_start scripted 4 (rows, []) = Some (scripted_server rows)"
  by (simp add: server_start_def scripted_start ThreadPool_new_def makeBusinessThreadPoolConfig_def
      scripted_server_def)

lemma scripted_parse_garbage:
  "\<not> is_digit c \<Longrightarrow> c \<in> set s \<Longrightarrow> ext_json_parse scripted s = None"
  by (auto simp: scripted_def scripted_parse_def)

theorem chunking_does_not_matter_witness:
  "receive scripted 4 [''gar'', ''ba'', ''ge'' @ newline # ''mo'', ''re''] (set_buf 4 [] (scripted_server []))
     = set_buf 4 ''more'' (scripted_server [])"
proof -
  have x: "newline \<notin> set ''garbage''" "newline \<notin> set ''more''" by simp_all
  have l: "split_lines ([] @ concat [''gar'', ''ba'', ''ge'' @ newline # ''mo'', ''re'']) = ([''garbage''], ''more'')"
    using split_lines_line [OF x(1), of "''more''"] split_lines_none [OF x(2)] by simp
  have g: "ext_json_parse scripted ''garbage'' = None"
    by (rule scripted_parse_garbage [of "CHR ''g''"]) (simp_all add: is_digit_def)
  have "\<not> halts scripted ''garbage''" by (simp add: halts_def g)
  with chunking_does_not_matter [of "[]" "[''gar'', ''ba'', ''ge'' @ newline # ''mo'', ''re'']" scripted 4 "scripted_server []"]
  show ?thesis unfolding l by (simp add: handle_frame_def g)
qed

subsection \<open>Messages out of the stream\<close>

text \<open>A payload that reaches its handler: one line of JSON with a number for \<open>msgid\<close>.\<close>

definition carries :: "'d outside \<Rightarrow> string \<Rightarrow> int \<Rightarrow> json \<Rightarrow> bool" where
  "carries E p m js \<longleftrightarrow> p \<noteq> [] \<and> newline \<notin> set p \<and> ext_json_parse E p = Some js \<and>
     contains js ''msgid'' \<and> int_field js ''msgid'' = Inr m"

lemma handle_lines_messages:
  assumes "list_all2 (\<lambda>p (m, js). carries E p m js) ps msgs"
    and "\<not> tp_stopped (srv_pool srv)"
    and "length (tp_tasks (srv_pool srv)) + length msgs \<le> max_queue_size (tp_config (srv_pool srv))"
  shows "handle_lines E conn ps srv = srv\<lparr>srv_pool := (srv_pool srv)
    \<lparr>tp_tasks := tp_tasks (srv_pool srv) @ map (\<lambda>(m, js). HandlerTask m conn js) msgs\<rparr>\<rparr>"
  using assms
proof (induction ps msgs arbitrary: srv rule: list_all2_induct)
  case Nil
  then show ?case by simp
next
  case (Cons p ps mj msgs)
  obtain m js where mj: "mj = (m, js)" by fastforce
  let ?p = "(srv_pool srv)\<lparr>tp_tasks := tp_tasks (srv_pool srv) @ [HandlerTask m conn js]\<rparr>"
  have "snd (handle_frame E conn p srv) = srv\<lparr>srv_pool := ?p\<rparr>"
    using Cons.hyps(1) Cons.prems by (simp add: mj carries_def handle_frame_def enqueue_def)
  with Cons.IH [of "srv\<lparr>srv_pool := ?p\<rparr>"] Cons.prems show ?case by (simp add: mj)
qed

text \<open>Some messages in one stream.\<close>

lemma receive_messages:
  assumes "list_all2 (\<lambda>p (m, js). carries E p m js) ps msgs" and "concat chunks = stream_of ps"
    and "\<not> tp_stopped (srv_pool srv)"
    and "length (tp_tasks (srv_pool srv)) + length msgs \<le> max_queue_size (tp_config (srv_pool srv))"
  shows "receive E conn chunks (set_buf conn [] srv) = set_buf conn [] (srv\<lparr>srv_pool := (srv_pool srv)
    \<lparr>tp_tasks := tp_tasks (srv_pool srv) @ map (\<lambda>(m, js). HandlerTask m conn js) msgs\<rparr>\<rparr>)"
proof -
  have c: "\<forall>p \<in> set ps. newline \<notin> set p \<and> \<not> halts E p"
    using assms(1) by (auto simp: list_all2_conv_all_nth in_set_conv_nth carries_def halts_def split_beta)
  then have s: "split_lines ([] @ concat chunks) = (ps, [])"
    using assms(2) split_stream by auto
  have "receive E conn chunks (set_buf conn [] srv) = set_buf conn [] (handle_lines E conn ps srv)"
    using server_receive_lines [of "[]" chunks E conn srv] c unfolding s by simp
  also have "handle_lines E conn ps srv = srv\<lparr>srv_pool := (srv_pool srv)
      \<lparr>tp_tasks := tp_tasks (srv_pool srv) @ map (\<lambda>(m, js). HandlerTask m conn js) msgs\<rparr>\<rparr>"
    using handle_lines_messages [OF assms(1,3,4)] .
  finally show ?thesis .
qed

text \<open>C4: what a client writes is what the handlers get. If the bytes of a connection, cut in any
  way, are the lines of some messages, each of them JSON with a number for \<open>msgid\<close>, and the pool has
  room, then exactly these messages are queued for their handlers, in their order, each once and
  parsed, and nothing is left in the buffer.\<close>

theorem stream_reaches_handlers:
  assumes "list_all2 (\<lambda>p (m, js). carries E p m js) ps msgs" and "concat chunks = stream_of ps"
    and "\<not> tp_stopped (srv_pool srv)"
    and "length (tp_tasks (srv_pool srv)) + length msgs \<le> max_queue_size (tp_config (srv_pool srv))"
  shows "receive E conn chunks (set_buf conn [] srv) = set_buf conn [] (srv\<lparr>srv_pool := (srv_pool srv)
    \<lparr>tp_tasks := tp_tasks (srv_pool srv) @ map (\<lambda>(m, js). HandlerTask m conn js) msgs\<rparr>\<rparr>)"
  using assms by (rule receive_messages)

definition chat_js :: "int \<Rightarrow> int \<Rightarrow> string \<Rightarrow> json" where
  "chat_js u t txt = JObj [(''msgid'', JInt 6), (''userid'', JInt u), (''to'', JInt t), (''msg'', JStr txt)]"

lemma carries_scripted [simp]: "carries scripted (scripted_dump (chat_js u t txt)) 6 (chat_js u t txt)"
  by (simp add: carries_def scripted_def chat_js_def int32_range_def)
    (simp add: scripted_dump_def show_nat_chars)

theorem stream_reaches_handlers_witness:
  "let p = scripted_dump (chat_js 7 8 ''hi'') @ [newline];
       srv = receive scripted 4 [take 2 p, drop 2 p] (set_buf 4 [] (scripted_server []))
   in tp_tasks (srv_pool srv) = [HandlerTask 6 4 (chat_js 7 8 ''hi'')] \<and> buf_of srv 4 = []"
proof -
  let ?p = "scripted_dump (chat_js 7 8 ''hi'')"
  have l: "list_all2 (\<lambda>p (m, js). carries scripted p m js) [?p] [(6, chat_js 7 8 ''hi'')]" by simp
  have c: "concat [take 2 (?p @ [newline]), drop 2 (?p @ [newline])] = stream_of [?p]"
    by (simp add: stream_of_def flip: take_append drop_append)
  show ?thesis
    using stream_reaches_handlers [OF l c, of "scripted_server []" 4]
    by (simp add: scripted_server_def makeBusinessThreadPoolConfig_def Let_def)
qed

text \<open>A line of JSON without \<open>msgid\<close> stalls the lines after it. The handler returns out of
  the loop, so complete messages that arrived in the same chunk stay in the buffer, unhandled, until
  the peer happens to send more bytes.\<close>

theorem missing_msgid_stalls:
  assumes "newline \<notin> set bad" and "halts E bad" and "buf_of srv conn = []"
  shows "onMessage E conn (bad @ newline # rest) srv = set_buf conn rest srv"
proof -
  have f: "find_char newline (bad @ newline # rest) = Some (length bad)"
    using assms(1) by simp
  show ?thesis
    using assms(2,3) f
    by (simp add: onMessage_def frame_loop.simps [of E conn "set_buf conn (bad @ newline # rest) srv"]
        handle_frame_set_buf handle_frame_halting Let_def)
qed

theorem missing_msgid_stalls_witness:
  "let good = scripted_dump (chat_js 7 8 ''hi'') @ [newline];
       srv = onMessage scripted 4 (scripted_dump (JObj []) @ newline # good) (scripted_server [])
   in tp_tasks (srv_pool srv) = [] \<and> buf_of srv 4 = good"
proof -
  have "halts scripted (scripted_dump (JObj []))"
    by (simp add: halts_def scripted_def) (simp add: scripted_dump_def)
  moreover have "newline \<notin> set (scripted_dump (JObj []))"
    by (simp add: scripted_dump_def show_nat_chars)
  moreover have "buf_of (scripted_server []) 4 = []" "tp_tasks (srv_pool (scripted_server [])) = []"
    by (simp_all add: scripted_server_def buf_of_def)
  ultimately show ?thesis
    using missing_msgid_stalls [of "scripted_dump (JObj [])" scripted "scripted_server []" 4
      "scripted_dump (chat_js 7 8 ''hi'') @ [newline]"]
    by (simp add: Let_def)
qed

text \<open>Back-pressure. When the pool refuses a message, because its queue is full or it is being
  shut down, the server neither queues it nor runs it: its one effect is the \<open>server busy\<close> reply on
  the connection the message came from, and the following lines are handled as before.\<close>

theorem refused_message_gets_busy:
  assumes "carries E p m js" and "enqueue (HandlerTask m conn js) (srv_pool srv) = Inl e"
    and "ext_json_dump E busy_response = Some busy"
  shows "handle_lines E conn (p # ls) srv = handle_lines E conn ls
    (srv\<lparr>srv_svc := (srv_svc srv)\<lparr>s_sent := s_sent (srv_svc srv) @ [(conn, busy @ [newline])]\<rparr>\<rparr>)"
  using assms by (simp add: carries_def handle_frame_def send_busy_def)

theorem refused_message_gets_busy_witness:
  "let srv = (scripted_server [])\<lparr>srv_pool := (srv_pool (scripted_server []))\<lparr>tp_stopped := True\<rparr>\<rparr>;
       srv' = handle_lines scripted 4 [scripted_dump (chat_js 7 8 ''hi'')] srv
   in tp_tasks (srv_pool srv') = [] \<and> s_sent (srv_svc srv') = [(4, scripted_dump busy_response @ [newline])]"
proof -
  let ?srv = "(scripted_server [])\<lparr>srv_pool := (srv_pool (scripted_server []))\<lparr>tp_stopped := True\<rparr>\<rparr>"
  have "enqueue (HandlerTask 6 4 (chat_js 7 8 ''hi'')) (srv_pool ?srv) = Inl EnqueueOnStopped"
    by (simp add: enqueue_def)
  from refused_message_gets_busy [OF carries_scripted this scripted_dump, of "[]"]
  show ?thesis by (simp add: Let_def scripted_server_def started_node_def)
qed

subsection \<open>The whole server\<close>

text \<open>
  The interleavings of the IO threads, the workers and the Redis listener. A worker takes a task in
  one step and runs it in a later one: other workers may come in between.
\<close>

inductive srv_step :: "'d outside \<Rightarrow> 'd server \<Rightarrow> 'd server \<Rightarrow> bool" for E where
  bytes_arrive: "srv_step E srv (onMessage E conn bytes srv)"
| peer_gone: "srv_step E srv (onConnection E False conn srv)"
| worker_takes: "i < length (tp_workers (srv_pool srv)) \<Longrightarrow> tp_workers (srv_pool srv) ! i = Waiting \<Longrightarrow>
    worker_wait i (srv_pool srv) = TakesTask t p \<Longrightarrow> srv_step E srv (srv\<lparr>srv_pool := p\<rparr>)"
| worker_runs: "i < length (tp_workers (srv_pool srv)) \<Longrightarrow> tp_workers (srv_pool srv) ! i = Running t \<Longrightarrow>
    srv_step E srv (srv\<lparr>srv_pool := worker_done i (srv_pool srv), srv_svc := run_task E t (srv_svc srv)\<rparr>)"
| redis_message: "newline \<notin> set p \<Longrightarrow> p \<noteq> [] \<Longrightarrow>
    srv_step E srv (srv\<lparr>srv_svc := st_after (handleRedisSubscribeMessage E u p) (srv_svc srv)\<rparr>)"

inductive srv_reachable :: "'d outside \<Rightarrow> 'd server \<Rightarrow> 'd server \<Rightarrow> bool" for E srv0 where
  start: "srv_reachable E srv0 srv0"
| more: "srv_reachable E srv0 srv \<Longrightarrow> srv_step E srv srv' \<Longrightarrow> srv_reachable E srv0 srv'"

text \<open>What holds of the pool and the service in every reachable state.\<close>

definition srv_inv :: "'d server \<Rightarrow> bool" where
  "srv_inv srv \<longleftrightarrow> tp_config (srv_pool srv) = makeBusinessThreadPoolConfig \<and>
     length (tp_tasks (srv_pool srv)) \<le> 10000 \<and>
     distinct (map fst (userConnMap (srv_svc srv))) \<and> framed (s_sent (srv_svc srv))"

lemma enqueue_bound:
  "enqueue t p = Inr p' \<Longrightarrow> tp_config p' = tp_config p \<and> length (tp_tasks p') \<le> max_queue_size (tp_config p)"
  by (auto simp: enqueue_def split: if_splits)

lemma keeps_distinct:
  "keeps (\<lambda>s. distinct (map fst (userConnMap s))) (modify (userConnMap_update (insert_conn u c)))"
  "keeps (\<lambda>s. distinct (map fst (userConnMap s))) (modify (userConnMap_update (erase_conn u)))"
  by (auto intro!: keepsI simp: distinct_insert_conn distinct_erase_conn)

lemma distinct_svc_step:
  "distinct (map fst (userConnMap s)) \<Longrightarrow> distinct (map fst (userConnMap (svc_step E ev s)))"
proof (cases ev)
  case (Message m c js)
  assume "distinct (map fst (userConnMap s))"
  with keeps_any_handler [OF sends_ok_table [where Q = "\<lambda>m. distinct (map fst m)"]
      ignores_table(2) [where Q = "\<lambda>m. distinct (map fst m)"] keeps_distinct, where E = E and m = m and c = c and js = js]
  show ?thesis using Message by (auto dest: keepsD)
next
  case (Closed c)
  assume "distinct (map fst (userConnMap s))"
  with keeps_clientClose [OF ignores_table [where Q = "\<lambda>m. distinct (map fst m)"] keeps_distinct(2),
      where E = E and c = c]
  show ?thesis using Closed by (auto dest: keepsD)
next
  case (FromRedis u p)
  assume "distinct (map fst (userConnMap s))"
  with FromRedis show ?thesis by (simp add: run_redisMessage split: option.split)
qed

lemma run_task_step: "run_task E t s = svc_step E (case t of HandlerTask m c js \<Rightarrow> Message m c js | CloseTask c \<Rightarrow> Closed c) s"
  by (cases t) simp_all

lemma srv_inv_svc:
  assumes "srv_inv srv" "json_one_line E" "clean_event ev"
  shows "srv_inv (srv\<lparr>srv_svc := svc_step E ev (srv_svc srv)\<rparr>)"
  using assms by (simp add: srv_inv_def distinct_svc_step framed_step)

lemma srv_inv_handle_frame:
  assumes "srv_inv srv" "json_one_line E"
  shows "srv_inv (snd (handle_frame E conn l srv))"
proof -
  have "srv_inv (send_busy E conn srv)"
    using assms by (auto simp: srv_inv_def send_busy_def json_one_line_def framed_line split: option.split)
  moreover have "srv_inv (srv\<lparr>srv_pool := p\<rparr>)" if "enqueue t (srv_pool srv) = Inr p" for t p
    using enqueue_bound [OF that] assms(1) by (simp add: srv_inv_def makeBusinessThreadPoolConfig_def)
  ultimately show ?thesis
    using assms(1) by (simp add: handle_frame_def split: option.split sum.split)
qed

lemma srv_inv_frame_loop: "srv_inv srv \<Longrightarrow> json_one_line E \<Longrightarrow> srv_inv (frame_loop E conn srv)"
proof (induction E conn srv rule: frame_loop.induct)
  case (1 E conn srv)
  have b: "srv_inv (set_buf conn x srv)" for x using 1(2) by (simp add: srv_inv_def)
  show ?case
    using 1(1) [OF _ refl refl refl] srv_inv_handle_frame [OF b 1(3)] 1(2,3)
    by (subst frame_loop.simps) (auto simp: Let_def split: option.split)
qed

lemma srv_step_inv: "srv_step E srv srv' \<Longrightarrow> json_one_line E \<Longrightarrow> srv_inv srv \<Longrightarrow> srv_inv srv'"
proof (induction rule: srv_step.induct)
  case (bytes_arrive srv conn bytes)
  then have "srv_inv (set_buf conn b srv)" for b by (simp add: srv_inv_def)
  with bytes_arrive(1) show ?case by (simp add: onMessage_def srv_inv_frame_loop)
next
  case (peer_gone srv conn)
  have "srv_inv (srv\<lparr>srv_pool := p\<rparr>)" if "enqueue t (srv_pool srv) = Inr p" for t p
    using enqueue_bound [OF that] peer_gone(2) by (simp add: srv_inv_def makeBusinessThreadPoolConfig_def)
  moreover have "srv_inv (srv\<lparr>srv_svc := svc_step E (Closed conn) (srv_svc srv)\<rparr>)"
    using peer_gone by (intro srv_inv_svc) (simp_all add: clean_event_def)
  ultimately show ?case
    by (auto simp: onConnection_def onDisconnect_def Let_def srv_inv_def split: sum.split)
next
  case (worker_takes i srv t p)
  then show ?case
    by (auto simp: srv_inv_def worker_wait_def split: if_splits)
next
  case (worker_runs i srv t)
  have "srv_inv (srv\<lparr>srv_svc := run_task E t (srv_svc srv)\<rparr>)"
    unfolding run_task_step using worker_runs
    by (intro srv_inv_svc) (simp_all add: clean_event_def split: task.split)
  then show ?case by (simp add: srv_inv_def worker_done_def)
next
  case (redis_message p srv u)
  then have "srv_inv (srv\<lparr>srv_svc := svc_step E (FromRedis u p) (srv_svc srv)\<rparr>)"
    by (intro srv_inv_svc) (simp_all add: clean_event_def)
  then show ?case by simp
qed

lemma srv_reachable_inv: "srv_reachable E srv0 srv \<Longrightarrow> json_one_line E \<Longrightarrow> srv_inv srv0 \<Longrightarrow> srv_inv srv"
  by (induction rule: srv_reachable.induct) (auto intro: srv_step_inv)

lemma ChatService_new_empty: "ChatService_new E d = Some s \<Longrightarrow> userConnMap s = [] \<and> s_sent s = []"
  by (auto simp: ChatService_new_def split: prod.splits bool.splits)

lemma ThreadPool_new_empty: "ThreadPool_new c n = Inr p \<Longrightarrow> tp_tasks p = [] \<and> tp_config p = c"
  by (auto simp: ThreadPool_new_def split: if_splits)

lemma server_start_inv:
  assumes "server_start E created d = Some srv0"
  shows "srv_inv srv0"
proof -
  obtain s where s: "ChatService_new E d = Some s"
    using assms by (cases "ChatService_new E d") (simp_all add: server_start_def)
  obtain p where p: "ThreadPool_new makeBusinessThreadPoolConfig created = Inr (p :: task thread_pool)"
    using assms s by (cases "ThreadPool_new makeBusinessThreadPoolConfig created :: tp_error + task thread_pool")
      (simp_all add: server_start_def)
  have "srv0 = \<lparr>srv_recvBuf = (\<lambda>_. None), srv_pool = p, srv_svc = s\<rparr>"
    using assms by (simp add: server_start_def s p)
  with ChatService_new_empty [OF s] ThreadPool_new_empty [OF p] show ?thesis
    by (simp add: srv_inv_def)
qed

text \<open>C22: the server stays within its bounds. In every state a started server reaches, in any order of
  arriving bytes, lost connections, tasks of the four workers and one-line messages from Redis, at
  most 10000 tasks wait, each user has at most one connection in the table, and everything written
  to the connections is whole lines.\<close>

theorem server_stays_in_bounds:
  assumes "server_start E created d = Some srv0" and "json_one_line E" and "srv_reachable E srv0 srv"
  shows "length (tp_tasks (srv_pool srv)) \<le> 10000 \<and> distinct (map fst (userConnMap (srv_svc srv))) \<and>
    framed (s_sent (srv_svc srv))"
proof -
  have "srv_inv srv"
    by (rule srv_reachable_inv [OF assms(3,2) server_start_inv [OF assms(1)]])
  then show ?thesis by (simp add: srv_inv_def makeBusinessThreadPoolConfig_def)
qed

theorem server_stays_in_bounds_witness:
  "\<exists>srv. srv_reachable scripted (scripted_server []) srv \<and> length (tp_tasks (srv_pool srv)) = 1 \<and>
     length (tp_tasks (srv_pool srv)) \<le> 10000"
proof -
  let ?p = "scripted_dump (chat_js 7 8 ''hi'')"
  let ?srv = "onMessage scripted 4 (?p @ [newline]) (scripted_server [])"
  have r: "srv_reachable scripted (scripted_server []) ?srv"
    by (rule srv_reachable.more [OF srv_reachable.start srv_step.bytes_arrive])
  have b: "buf_of (scripted_server []) 4 = []" by (simp add: scripted_server_def buf_of_def)
  have c: "carries scripted ?p 6 (chat_js 7 8 ''hi'')" by simp
  then have n: "newline \<notin> set ?p" "\<not> halts scripted ?p" by (auto simp: carries_def halts_def)
  have s: "split_lines (?p @ [newline]) = ([?p], [])"
    using split_lines_line [OF n(1), of "[]"] by simp
  have "?srv = set_buf 4 [] (handle_lines scripted 4 [?p] (scripted_server []))"
    using onMessage_lines [of "scripted_server []" 4 "?p @ [newline]" scripted] n(2)
    by (simp add: b s)
  then have "length (tp_tasks (srv_pool ?srv)) = 1"
    using c by (simp add: carries_def handle_frame_def enqueue_def scripted_server_def makeBusinessThreadPoolConfig_def)
  with server_stays_in_bounds [OF scripted_server_start scripted_json_one_line r] r show ?thesis by blast
qed

text \<open>A lost connection is always cleaned up. When the peer goes away its buffer is released,
  and the removal of its user from the table is queued for the pool or, when the pool refuses the
  task, carried out at once: it is never skipped.\<close>

theorem disconnect_is_cleaned_up:
  "let srv' = onConnection E False conn srv in
     srv_recvBuf srv' conn = None \<and>
     (if tp_stopped (srv_pool srv) \<or> max_queue_size (tp_config (srv_pool srv)) \<le> length (tp_tasks (srv_pool srv))
      then srv_pool srv' = srv_pool srv \<and> srv_svc srv' = st_after (clientCloseException E conn) (srv_svc srv)
      else tp_tasks (srv_pool srv') = tp_tasks (srv_pool srv) @ [CloseTask conn] \<and> srv_svc srv' = srv_svc srv)"
  by (simp add: onConnection_def onDisconnect_def enqueue_def Let_def)

text \<open>Messages of one sender can overtake each other. Two tasks queued one after the other,
  such as two chat messages of one connection, are taken in order by different workers, but nothing
  orders their handlers: if two workers are idle, a state is reachable in which the second has been
  handled before the first.\<close>

theorem tasks_can_overtake:
  assumes "tp_tasks (srv_pool srv) = [t1, t2]"
    and "i < length (tp_workers (srv_pool srv))" and "j < length (tp_workers (srv_pool srv))" and "i \<noteq> j"
    and "tp_workers (srv_pool srv) ! i = Waiting" and "tp_workers (srv_pool srv) ! j = Waiting"
  shows "\<exists>srv'. srv_reachable E srv srv' \<and> srv_svc srv' = run_task E t1 (run_task E t2 (srv_svc srv))"
proof -
  let ?ws = "tp_workers (srv_pool srv)"
  let ?p1 = "(srv_pool srv)\<lparr>tp_workers := ?ws[i := Running t1], tp_tasks := [t2]\<rparr>"
  let ?p2 = "?p1\<lparr>tp_workers := ?ws[i := Running t1, j := Running t2], tp_tasks := []\<rparr>"
  let ?s1 = "srv\<lparr>srv_pool := ?p1\<rparr>"
  let ?s2 = "srv\<lparr>srv_pool := ?p2\<rparr>"
  let ?s3 = "?s2\<lparr>srv_pool := worker_done j ?p2, srv_svc := run_task E t2 (srv_svc srv)\<rparr>"
  let ?s4 = "?s3\<lparr>srv_pool := worker_done i (srv_pool ?s3), srv_svc := run_task E t1 (srv_svc ?s3)\<rparr>"
  have w1: "worker_wait i (srv_pool srv) = TakesTask t1 ?p1"
    using assms by (simp add: worker_wait_def)
  have 1: "srv_step E srv ?s1"
    using srv_step.worker_takes [OF assms(2,5) w1] .
  have w2: "worker_wait j (srv_pool ?s1) = TakesTask t2 ?p2"
    by (simp add: worker_wait_def)
  have 2: "srv_step E ?s1 ?s2"
    using srv_step.worker_takes [OF _ _ w2] assms by simp
  have 3: "srv_step E ?s2 ?s3"
    using srv_step.worker_runs [of j ?s2 t2 E] assms by simp
  have 4: "srv_step E ?s3 ?s4"
    using srv_step.worker_runs [of i ?s3 t1 E] assms by (simp add: worker_done_def)
  have "srv_reachable E srv ?s4"
    by (rule srv_reachable.more [OF srv_reachable.more [OF srv_reachable.more
          [OF srv_reachable.more [OF srv_reachable.start 1] 2] 3] 4])
  moreover have "srv_svc ?s4 = run_task E t1 (run_task E t2 (srv_svc srv))" by simp
  ultimately show ?thesis by blast
qed

theorem tasks_can_overtake_witness:
  "let t1 = HandlerTask 6 4 (chat_js 7 8 ''first''); t2 = HandlerTask 6 4 (chat_js 7 8 ''second'');
       srv = (scripted_server [])\<lparr>srv_pool := (srv_pool (scripted_server []))\<lparr>tp_tasks := [t1, t2]\<rparr>\<rparr>
   in \<exists>srv'. srv_reachable scripted srv srv' \<and>
        srv_svc srv' = run_task scripted t1 (run_task scripted t2 (srv_svc srv))"
  unfolding Let_def
  by (rule tasks_can_overtake [where i = 0 and j = 1]) (simp_all add: scripted_server_def)

end
