(* ===== verification/EndToEnd.thy ===== *)
theory EndToEnd
  imports ChatServer Client
begin

text \<open>
  What the server writes and the client reads: the same JSON goes through \<open>dump\<close> on one side and
  through \<open>parse\<close> and the accesses on the other. The lemmas here say what each entry and each
  message becomes on the screen; the theorems of the root theory put them together with the streams.
\<close>

subsection \<open>Lists of entries\<close>

text \<open>What travels of a user or a member: everything but the password.\<close>

definition as_seen :: "'a user_scheme \<Rightarrow> 'a user_scheme" where
  "as_seen u = u\<lparr>u_password := []\<rparr>"

definition group_seen :: "chat_group \<Rightarrow> chat_group" where
  "group_seen g = g\<lparr>g_users := map as_seen (g_users g)\<rparr>"

lemma read_each_dump:
  assumes "dump_list E (map f xs) = Inr ss"
    and "\<And>x s. x \<in> set xs \<Longrightarrow> json_dump E (f x) = Inr s \<Longrightarrow> rd s = Inr (g x)"
  shows "read_each rd ss = Inr (map g xs)"
  using assms
proof (induction xs arbitrary: ss)
  case (Cons x xs)
  then obtain s ss' where s: "json_dump E (f x) = Inr s" "dump_list E (map f xs) = Inr ss'" "ss = s # ss'"
    by (auto split: sum.splits)
  have "rd s = Inr (g x)" using Cons.prems(2) s(1) by simp
  with Cons.IH [OF s(2)] Cons.prems(2) s(3) show ?case by simp
qed simp

lemma read_friend_dump:
  assumes "json_roundtrip E" "int32_range (u_id u)" "json_dump E (friend_json u) = Inr s"
  shows "read_friend_entry E s = Inr (as_seen u)"
proof -
  have "flat_object (friend_json u)"
    using assms(2) by (simp add: friend_json_def flat_objectI)
  from json_roundtripE [OF assms(1) this assms(3)]
  obtain j where j: "ext_json_parse E s = Some j" "same_members (friend_json u) j" by blast
  show ?thesis using assms(2)
    by (simp add: read_friend_entry_def parse_json_def j same_members_fields [OF j(2)] friend_json_def
        as_seen_def User_def)
qed

lemma read_member_dump:
  assumes "json_roundtrip E" "int32_range (u_id u)" "json_dump E (member_json u) = Inr s"
  shows "read_member_entry E s = Inr (as_seen u)"
proof -
  have "flat_object (member_json u)"
    using assms(2) by (simp add: member_json_def flat_objectI)
  from json_roundtripE [OF assms(1) this assms(3)]
  obtain j where j: "ext_json_parse E s = Some j" "same_members (member_json u) j" by blast
  show ?thesis using assms(2)
    by (simp add: read_member_entry_def parse_json_def j same_members_fields [OF j(2)] member_json_def
        as_seen_def GroupUser_def)
qed

definition group_json :: "chat_group \<Rightarrow> string list \<Rightarrow> json" where
  "group_json g uservec = JObj [(''id'', JInt (g_id g)), (''name'', JStr (g_name g)),
     (''desc'', JStr (g_desc g)), (''users'', JArr (map JStr uservec))]"

definition ids_ok :: "chat_group \<Rightarrow> bool" where
  "ids_ok g \<longleftrightarrow> int32_range (g_id g) \<and> (\<forall>u \<in> set (g_users g). int32_range (u_id u))"

lemma read_group_dump:
  assumes "json_roundtrip E" "ids_ok g" "dump_list E (map member_json (g_users g)) = Inr vec"
    and "json_dump E (group_json g vec) = Inr s"
  shows "read_group_entry E s = Inr (group_seen g)"
proof -
  have "flat_object (group_json g vec)"
    using assms(2) by (auto simp: group_json_def ids_ok_def intro!: flat_objectI)
  from json_roundtripE [OF assms(1) this assms(4)]
  obtain j where j: "ext_json_parse E s = Some j" "same_members (group_json g vec) j" by blast
  have m: "read_each (read_member_entry E) vec = Inr (map as_seen (g_users g))"
    using assms(1,2) by (intro read_each_dump [OF assms(3)] read_member_dump) (auto simp: ids_ok_def)
  show ?thesis using assms(2)
    by (simp add: read_group_entry_def parse_json_def j same_members_fields [OF j(2)] group_seen_def Group_def)
      (simp add: group_json_def ids_ok_def m)
qed

lemma read_groups_dump:
  assumes "json_roundtrip E" "\<forall>g \<in> set gs. ids_ok g" "dump_groups E gs = Inr ss"
  shows "read_each (read_group_entry E) ss = Inr (map group_seen gs)"
  using assms(2,3)
proof (induction gs arbitrary: ss)
  case (Cons g gs)
  from Cons.prems(2) obtain vec where v: "dump_list E (map member_json (g_users g)) = Inr vec"
    by (auto split: sum.splits)
  from Cons.prems(2) obtain s where s: "json_dump E (group_json g vec) = Inr s"
    by (cases "json_dump E (group_json g vec)") (simp_all add: v group_json_def)
  from Cons.prems(2) obtain ss' where ss: "dump_groups E gs = Inr ss'" "ss = s # ss'"
    using s by (auto simp: v group_json_def split: sum.splits)
  have "read_group_entry E s = Inr (group_seen g)"
    using Cons.prems(1) by (intro read_group_dump [OF assms(1) _ v s]) simp
  with Cons.IH [OF _ ss(1)] Cons.prems(1) ss(2) show ?case by simp
qed simp

lemma show_offline_dump:
  assumes "json_roundtrip E" "flat_object m" "json_dump E m = Inr s"
  shows "show_offline E s = show_stored m"
proof -
  from json_roundtripE [OF assms]
  obtain j where j: "ext_json_parse E s = Some j" "same_members m j" by blast
  then have "member_at j k = member_at m k" for k by (simp add: same_members_def)
  then show ?thesis
    by (simp add: show_offline_def parse_json_def j show_stored_def show_private_chat_def
        same_members_fields [OF j(2)] cong: if_cong)
qed

text \<open>A list of dumps read back, for a reader that may fail.\<close>

lemma read_each_dumps:
  assumes "dump_list E xs = Inr ss"
    and "\<And>x s. x \<in> set xs \<Longrightarrow> json_dump E x = Inr s \<Longrightarrow> rd s = f x"
  shows "read_each rd ss = read_each f xs"
  using assms
proof (induction xs arbitrary: ss)
  case (Cons x xs)
  then obtain s ss' where s: "json_dump E x = Inr s" "dump_list E xs = Inr ss'" "ss = s # ss'"
    by (auto split: sum.splits)
  have "rd s = f x" using Cons.prems(2) s(1) by simp
  with Cons.IH [OF s(2)] Cons.prems(2) s(3) show ?case by simp
qed simp

subsection \<open>The login response\<close>

definition login_reply :: "user \<Rightarrow> string list \<Rightarrow> string list \<Rightarrow> string list \<Rightarrow> json" where
  "login_reply user off fl gl = add_list ''groups'' gl (add_list ''friends'' fl
     (add_list ''offlinemsg'' off (login_response user)))"

lemma flat_login_reply: "int32_range (u_id user) \<Longrightarrow> flat_object (login_reply user off fl gl)"
  by (cases "off = []"; cases "fl = []"; cases "gl = []")
    (auto simp: login_reply_def add_list_def login_response_def int32_range_def intro!: flat_objectI)

lemma login_reply_lists:
  "list_member (login_reply user off fl gl) ''offlinemsg'' = Inr off"
  "list_member (login_reply user off fl gl) ''friends'' = Inr fl"
  "list_member (login_reply user off fl gl) ''groups'' = Inr gl"
  by (cases "off = []"; cases "fl = []"; cases "gl = []";
      simp add: login_reply_def add_list_def login_response_def list_member_def)+

lemma login_reply_fields:
  assumes "int32_range (u_id user)"
  shows "int_field (login_reply user off fl gl) ''msgid'' = Inr (msg_id LOG_MSG_ACK)"
    and "int_field (login_reply user off fl gl) ''errno'' = Inr 0"
    and "int_field (login_reply user off fl gl) ''id'' = Inr (u_id user)"
    and "string_field (login_reply user off fl gl) ''name'' = Inr (u_name user)"
  using assms
  by (cases "off = []"; cases "fl = []"; cases "gl = []";
      simp add: login_reply_def add_list_def login_response_def int32_range_def)+

lemma doLoginResponse_reply:
  assumes "int32_range (u_id user)"
    and "read_each (read_friend_entry E) fl = Inr friends" and "read_each (read_group_entry E) gl = Inr grps"
    and "read_each (show_offline E) off = Inr shown"
  shows "doLoginResponse E (login_reply user off fl gl) c = Inr (c\<lparr>
      g_currentUser := (g_currentUser c)\<lparr>u_id := u_id user, u_name := u_name user\<rparr>,
      g_currentUserFriendList := g_currentUserFriendList c @ friends,
      g_currentUserGroupList := g_currentUserGroupList c @ grps, g_isLoginSuccess := True,
      c_screen := c_screen c @ [S_UserInfo ((g_currentUser c)\<lparr>u_id := u_id user, u_name := u_name user\<rparr>)
        (g_currentUserFriendList c @ friends) (g_currentUserGroupList c @ grps)] @ concat shown\<rparr>)"
  using assms by (simp add: doLoginResponse_def login_reply_fields login_reply_lists Let_def)

subsection \<open>A dumped message at the client\<close>

lemma list_member_same: "same_members m j \<Longrightarrow> list_member j k = list_member m k"
  by (simp add: list_member_def same_members_fields)

lemma doLoginResponse_same:
  assumes "same_members m j"
  shows "doLoginResponse E j c = doLoginResponse E m c"
proof -
  have "member_at j k = member_at m k" for k using assms by (simp add: same_members_def)
  then show ?thesis
    by (simp add: doLoginResponse_def same_members_fields [OF assms] list_member_same [OF assms] cong: if_cong)
qed

lemma handle_message_same:
  assumes "same_members m j"
  shows "handle_message E j c = handle_message E m c"
  by (simp add: handle_message_def show_private_chat_def doRegResponse_def Let_def
      same_members_fields [OF assms] doLoginResponse_same [OF assms] cong: if_cong)

lemma client_frame_dump:
  assumes "json_roundtrip E" "json_one_line E" "flat_object m" "json_dump E m = Inr p"
  shows "client_frame E p c = (case handle_message E m c of
     Inl _ \<Rightarrow> (True, c\<lparr>c_terminated := True\<rparr>) | Inr c' \<Rightarrow> (False, c'))"
proof -
  from json_roundtripE [OF assms(1,3,4)]
  obtain j where j: "ext_json_parse E p = Some j" "same_members m j" by blast
  have "p \<noteq> []" using assms(2,4) by (auto simp: json_one_line_def json_dump_def split: option.splits)
  with j show ?thesis by (simp add: client_frame_def handle_message_same [OF j(2)])
qed

lemma dump_line: "json_one_line E \<Longrightarrow> json_dump E m = Inr p \<Longrightarrow> newline \<notin> set p \<and> p \<noteq> []"
  by (auto simp: json_one_line_def json_dump_def split: option.splits)

text \<open>The bytes of one message, in any pieces.\<close>

lemma client_stream_dump:
  assumes "json_roundtrip E" "json_one_line E" "flat_object m" "json_dump E m = Inr p"
    and "handle_message E m c = Inr c'"
    and "concat chunks = p @ [newline]" "c_recvbuf c = []" "\<not> c_terminated c"
  shows "client_stream E chunks c = c'"
proof -
  have f: "client_frame E p c = (False, c')"
    using client_frame_dump [OF assms(1-4), of c] assms(5) by simp
  then have "harmless E p" using harmless_frame [of E p c] by simp
  with client_stream_payloads [of "[p]" E chunks c] dump_line [OF assms(2,4)] assms(6-8) f
  show ?thesis by (simp add: stream_of_def)
qed

subsection \<open>What the server puts into the login response\<close>

text \<open>
  What the services and the database answer while \<open>login\<close> is being carried out: the offline messages,
  the friends and the groups, each question asked in the state the steps before it have left.
\<close>

definition login_data :: "'d outside \<Rightarrow> user \<Rightarrow> 'd svc \<Rightarrow> string list \<times> user list \<times> chat_group list" where
  "login_data E user s = (let
     (r, d) = st_after (Redis_subscribe E (u_id user)) (s_redis s, st_after (UserModel_updateState E user) (s_world s));
     (off, d) = run_state (queryOfflineMessagesByRpc E (u_id user)) d;
     d = (if off \<noteq> [] then st_after (removeOfflineMessagesByRpc E (u_id user)) d else d);
     (friends, d) = run_state (queryFriendsByRpc E (u_id user)) d
   in (off, friends, val_of (GroupModel_queryGroup E (u_id user)) d))"

lemma add_list_Nil [simp]: "add_list k [] j = j"
  by (simp add: add_list_def)

lemma login_success_sends:
  assumes "login_data E user s = (off, friends, grps)"
    and "dump_list E (map friend_json friends) = Inr fl" and "dump_groups E grps = Inr gl"
    and "json_dump E (login_reply user off fl gl) = Inr p"
  shows "s_sent (st_after (login_success E conn user) s) = s_sent s @ [(conn, p @ [newline])]"
proof -
  let ?d1 = "st_after (UserModel_updateState E user) (s_world s)"
  obtain r d2 where 2: "st_after (Redis_subscribe E (u_id user)) (s_redis s, ?d1) = (r, d2)"
    by fastforce
  obtain d3 where 3: "run_state (queryOfflineMessagesByRpc E (u_id user)) d2 = (off, d3)"
    using assms(1) by (auto simp: login_data_def 2 split: prod.splits)
  let ?d4 = "if off \<noteq> [] then st_after (removeOfflineMessagesByRpc E (u_id user)) d3 else d3"
  obtain d5 where 5: "run_state (queryFriendsByRpc E (u_id user)) ?d4 = (friends, d5)"
    using assms(1) by (simp add: login_data_def 2 3 split: prod.splits)
  have 6: "val_of (GroupModel_queryGroup E (u_id user)) d5 = grps"
    using assms(1) by (simp add: login_data_def 2 3 5)
  show ?thesis
    using 2 3 5 6 assms(2-4)
    by (cases "off = []") (simp_all add: login_success_def run_sendJson login_reply_def split_beta Let_def)
qed

end
