(* ===== verification/SqlSyntax.thy ===== *)
theory SqlSyntax
  imports Models
begin

text \<open>
  The SQL texts the model classes build, read the way the database reads them. The reader is the
  documented one in its default mode, cut down to the statements of the program: words, the symbols
  of the value lists, and literals, where a quoted literal ends at the next quote of its kind, a
  doubled quote stands for a quote, and a backslash escapes the character after it. Of a text it does
  not accept, one with a comment for instance, nothing is claimed here but what \<open>open_literal\<close> and
  \<open>leading\<close> say: a literal that never ends is a syntax error, and the leading words name
  the table.
\<close>

subsection \<open>Words and literals\<close>

datatype token = Word string | Sym char | Lit string

abbreviation quote_char :: char where "quote_char \<equiv> CHR 0x27"
abbreviation backslash :: char where "backslash \<equiv> CHR 0x5C"

text \<open>What a backslash and a character stand for; \<open>\%\<close> and \<open>\_\<close> keep the backslash.\<close>

definition unescape :: "char \<Rightarrow> string" where
  "unescape c = (if c = CHR ''0'' then [CHR 0x00] else if c = CHR ''b'' then [CHR 0x08]
     else if c = CHR ''n'' then [CHR 0x0A] else if c = CHR ''r'' then [CHR 0x0D]
     else if c = CHR ''t'' then [CHR 0x09] else if c = CHR ''Z'' then [CHR 0x1A]
     else if c \<in> {CHR ''%'', CHR ''_''} then [backslash, c] else [c])"

text \<open>The rest of a quoted literal: its value and the text after it.\<close>

fun literal :: "char \<Rightarrow> string \<Rightarrow> (string \<times> string) option" where
  "literal q [] = None"
| "literal q [c] = (if c = q then Some ([], []) else None)"
| "literal q (c # e # s) =
     (if c = backslash then (case literal q s of None \<Rightarrow> None | Some (v, r) \<Rightarrow> Some (unescape e @ v, r))
      else if c = q then
        (if e = q then (case literal q s of None \<Rightarrow> None | Some (v, r) \<Rightarrow> Some (q # v, r))
         else Some ([], e # s))
      else (case literal q (e # s) of None \<Rightarrow> None | Some (v, r) \<Rightarrow> Some (c # v, r)))"

lemma literal_shorter: "literal q s = Some (v, r) \<Longrightarrow> length r < length s"
  by (induction q s arbitrary: v r rule: literal.induct) (auto split: if_splits option.splits)

definition quotes :: "char \<Rightarrow> bool" where
  "quotes c \<longleftrightarrow> c \<in> {quote_char, CHR 0x22}"

text \<open>What begins a comment or a quoted name, and an escape outside a literal.\<close>

definition odd_char :: "char \<Rightarrow> bool" where
  "odd_char c \<longleftrightarrow> c \<in> {CHR ''#'', CHR ''/'', CHR 0x60, backslash}"

definition separator :: "char \<Rightarrow> bool" where
  "separator c \<longleftrightarrow> c \<in> {CHR '' '', CHR 0x09, CHR 0x0A, CHR 0x0D}"

definition symbol :: "char \<Rightarrow> bool" where
  "symbol c \<longleftrightarrow> c \<in> {CHR ''('', CHR '')'', CHR '','', CHR '';''}"

definition number :: "string \<Rightarrow> bool" where
  "number w \<longleftrightarrow> (case w of [] \<Rightarrow> False
     | c # ds \<Rightarrow> (if c = CHR ''-'' then ds \<noteq> [] \<and> list_all is_digit ds else list_all is_digit w))"

definition word_token :: "string \<Rightarrow> token list" where
  "word_token w = (if w = [] then [] else if number w then [Lit w] else [Word w])"

text \<open>The tokens of a text, after the word \<open>w\<close> that has been begun.\<close>

function sql_lex :: "string \<Rightarrow> string \<Rightarrow> token list option" where
  "sql_lex w [] = Some (word_token w)"
| "sql_lex w (c # s) =
     (if quotes c then (case literal c s of
          None \<Rightarrow> None
        | Some (v, r) \<Rightarrow> map_option (\<lambda>ts. word_token w @ Lit v # ts) (sql_lex [] r))
      else if separator c then map_option (\<lambda>ts. word_token w @ ts) (sql_lex [] s)
      else if symbol c then map_option (\<lambda>ts. word_token w @ Sym c # ts) (sql_lex [] s)
      else if odd_char c \<or> c = CHR ''-'' \<and> \<not> (w = [] \<and> s \<noteq> [] \<and> is_digit (hd s)) then None
      else sql_lex (w @ [c]) s)"
  by pat_completeness auto
termination
  by (relation "measure (\<lambda>(w, s). length s)") (auto dest: literal_shorter)

text \<open>A literal that never ends, after a text without comments.\<close>

function open_literal :: "string \<Rightarrow> bool" where
  "open_literal [] \<longleftrightarrow> False"
| "open_literal (c # s) \<longleftrightarrow>
     (if quotes c then (case literal c s of None \<Rightarrow> True | Some (v, r) \<Rightarrow> open_literal r)
      else if odd_char c \<or> c = CHR ''-'' then False
      else open_literal s)"
  by pat_completeness auto
termination
  by (relation "measure length") (auto dest: literal_shorter)

text \<open>The leading words, up to the first character that is neither of a word nor a separator.\<close>

definition plain_char :: "char \<Rightarrow> bool" where
  "plain_char c \<longleftrightarrow> \<not> quotes c \<and> \<not> symbol c \<and> \<not> odd_char c \<and> c \<noteq> CHR ''-''"

fun leading :: "string \<Rightarrow> string \<Rightarrow> token list" where
  "leading w [] = word_token w"
| "leading w (c # s) =
     (if \<not> plain_char c then word_token w
      else if separator c then word_token w @ leading [] s
      else leading (w @ [c]) s)"

declare open_literal.simps(2) [simp del] leading.simps(2) [simp del]

lemma open_literal_lex: "open_literal s \<Longrightarrow> sql_lex w s = None"
proof (induction s arbitrary: w rule: open_literal.induct)
  case (2 c s)
  show ?case
  proof (cases "quotes c")
    case True
    then show ?thesis using 2 by (auto simp: sql_lex.simps(2) open_literal.simps(2) split: option.splits)
  next
    case False
    then show ?thesis using 2 by (auto simp: sql_lex.simps(2) open_literal.simps(2) split: if_splits)
  qed
qed simp

declare sql_lex.simps(2) [simp del]

text \<open>
  Text that is safe between quotes: printable ASCII without a quote or a backslash.
\<close>

definition safe_char :: "char \<Rightarrow> bool" where
  "safe_char c \<longleftrightarrow> 32 \<le> (of_char c :: nat) \<and> (of_char c :: nat) \<le> 126 \<and> c \<noteq> quote_char \<and> c \<noteq> backslash"

definition safe_text :: "string \<Rightarrow> bool" where
  "safe_text s \<longleftrightarrow> list_all safe_char s"

lemma literal_safe:
  assumes "quote_char \<notin> set v" "backslash \<notin> set v" "r = [] \<or> hd r \<noteq> quote_char"
  shows "literal quote_char (v @ quote_char # r) = Some (v, r)"
  using assms
proof (induction v)
  case Nil
  then show ?case by (cases r) auto
next
  case (Cons c v)
  then show ?case by (cases "v @ quote_char # r") auto
qed

definition word_char :: "char \<Rightarrow> bool" where
  "word_char c \<longleftrightarrow> \<not> quotes c \<and> \<not> separator c \<and> \<not> symbol c \<and> \<not> odd_char c \<and> c \<noteq> CHR ''-''"

lemma lex_word_chars: "list_all word_char w' \<Longrightarrow> sql_lex w (w' @ s) = sql_lex (w @ w') s"
  by (induction w' arbitrary: w) (simp_all add: sql_lex.simps word_char_def)

lemma digit_word_char: "is_digit c \<Longrightarrow> word_char c"
  by (auto simp: word_char_def separator_def symbol_def is_digit_def quotes_def odd_char_def)

lemma show_nat_word: "list_all is_digit (show_nat n)" "list_all word_char (show_nat n)"
  using digit_word_char by (auto simp: list_all_iff)

lemma show_int_word: "number (show_int i)" "show_int i \<noteq> []"
proof -
  show "show_int i \<noteq> []" by (simp add: show_int_def)
  show "number (show_int i)"
  proof (cases "i < 0")
    case True
    then show ?thesis using show_nat_word(1) by (simp add: show_int_def number_def)
  next
    case False
    obtain c ds where c: "show_nat (nat i) = c # ds" using show_nat_nonempty by (metis neq_Nil_conv)
    then have "is_digit c" using show_nat_word(1) [of "nat i"] by simp
    then have "c \<noteq> CHR ''-''" by auto
    then show ?thesis using False c show_nat_word(1) [of "nat i"] by (simp add: show_int_def number_def)
  qed
qed

lemma lex_show_int: "sql_lex [] (show_int i @ s) = sql_lex (show_int i) s"
proof (cases "i < 0")
  case True
  obtain c ds where c: "show_nat (nat (- i)) = c # ds" using show_nat_nonempty by (metis neq_Nil_conv)
  then have "is_digit c" using show_nat_word(1) [of "nat (- i)"] by simp
  then have "sql_lex [] (CHR ''-'' # show_nat (nat (- i)) @ s) = sql_lex ''-'' (show_nat (nat (- i)) @ s)"
    using c by (simp add: sql_lex.simps(2) quotes_def separator_def symbol_def odd_char_def)
  with True show ?thesis using lex_word_chars [OF show_nat_word(2)] by (simp add: show_int_def)
next
  case False
  then show ?thesis using lex_word_chars [OF show_nat_word(2), of "[]"] by (simp add: show_int_def)
qed

lemma word_token_int [simp]: "word_token (show_int i) = [Lit (show_int i)]"
  using show_int_word by (simp add: word_token_def)

text \<open>The steps of the lexer on the texts of the program: plain characters, quoted values, numbers.\<close>

lemma lex_quoted:
  assumes "safe_text v" "r = [] \<or> hd r \<noteq> quote_char"
  shows "sql_lex w (quoted v @ r) = map_option (\<lambda>ts. word_token w @ Lit v # ts) (sql_lex [] r)"
proof -
  have "quote_char \<notin> set v" "backslash \<notin> set v"
    using assms(1) by (auto simp: safe_text_def safe_char_def list_all_iff)
  from literal_safe [OF this assms(2)] show ?thesis by (simp add: quoted_def sql_lex.simps quotes_def)
qed

lemma safe_show_int [simp]: "safe_text (show_int i)"
proof -
  have "safe_char c" if "is_digit c" for c
    using that by (auto simp: safe_char_def is_digit_def)
  then have "list_all safe_char (show_nat n)" for n by (auto simp: list_all_iff)
  then show ?thesis by (simp add: safe_text_def show_int_def safe_char_def)
qed

subsection \<open>Statements\<close>

datatype cond = Eq string string | Ne string string

text \<open>What a query reads: one table, or two tables with their aliases joined on two columns.\<close>

datatype source = Table string | Join "string \<times> string" "string \<times> string" string string

datatype sql =
    Insert string "string list" "string list"
  | Select "string list" source "cond list"
  | Update string "(string \<times> string) list" "cond list"
  | Delete string "cond list"

text \<open>Names separated by commas, and literals separated by commas.\<close>

fun names :: "token list \<Rightarrow> string list \<times> token list" where
  "names (Word x # Sym c # ts) =
     (if c = CHR '','' then (case names ts of (xs, r) \<Rightarrow> (x # xs, r)) else ([x], Sym c # ts))"
| "names (Word x # ts) = ([x], ts)"
| "names ts = ([], ts)"

fun vals :: "token list \<Rightarrow> string list \<times> token list" where
  "vals (Lit x # Sym c # ts) =
     (if c = CHR '','' then (case vals ts of (xs, r) \<Rightarrow> (x # xs, r)) else ([x], Sym c # ts))"
| "vals (Lit x # ts) = ([x], ts)"
| "vals ts = ([], ts)"

definition at_end :: "token list \<Rightarrow> bool" where
  "at_end ts \<longleftrightarrow> ts = [] \<or> ts = [Sym (CHR '';'')]"

fun conds :: "token list \<Rightarrow> cond list option" where
  "conds (Word c # Word rel # Lit v # ts) =
     (let this = (if rel = ''='' then Some (Eq c v) else if rel = ''!='' then Some (Ne c v) else None) in
      if at_end ts then map_option (\<lambda>x. [x]) this
      else (case ts of
         Word w # ts' \<Rightarrow> (case (this, conds ts') of
             (Some x, Some xs) \<Rightarrow> (if w = ''and'' then Some (x # xs) else None)
           | _ \<Rightarrow> None)
       | _ \<Rightarrow> None))"
| "conds ts = None"

text \<open>\<open>column = value, ...\<close>, where a value is a literal, \<open>null\<close> or \<open>now()\<close>.\<close>

fun assigns :: "token list \<Rightarrow> ((string \<times> string) list \<times> token list) option" where
  "assigns (Word c # Word rel # Lit v # ts) =
     (if rel \<noteq> ''='' then None
      else (case ts of
         Sym s # ts' \<Rightarrow> (if s = CHR '','' then map_option (\<lambda>(xs, r). ((c, v) # xs, r)) (assigns ts') else None)
       | _ \<Rightarrow> Some ([(c, v)], ts)))"
| "assigns (Word c # Word rel # Word v # ts) =
     (if rel \<noteq> ''='' then None
      else (case ts of
         Sym s # Sym s' # ts' \<Rightarrow> (if [s, s'] = ''()'' then Some ([(c, v @ ''()'')], ts') else None)
       | _ \<Rightarrow> Some ([(c, v)], ts)))"
| "assigns ts = None"

definition where_clause :: "token list \<Rightarrow> cond list option" where
  "where_clause ts = (case ts of Word w # ts' \<Rightarrow> (if w = ''where'' then conds ts' else None) | _ \<Rightarrow> None)"

text \<open>\<open>(v, ...)\<close> up to the end of the statement.\<close>

definition value_list :: "token list \<Rightarrow> string list option" where
  "value_list ts = (case ts of
     Sym p # ts' \<Rightarrow> (case vals ts' of
         (vs, Sym q # r) \<Rightarrow> (if [p, q] = ''()'' \<and> vs \<noteq> [] \<and> at_end r then Some vs else None)
       | _ \<Rightarrow> None)
   | _ \<Rightarrow> None)"

definition parse_insert :: "token list \<Rightarrow> sql option" where
  "parse_insert ts = (case ts of
     Word i # Word t # Word v # r \<Rightarrow>
       (if i = ''into'' \<and> v = ''value'' then map_option (Insert t []) (value_list r) else None)
   | Word i # Word t # Sym p # r \<Rightarrow> (case names r of
         (cs, Sym q # Word v # r') \<Rightarrow>
           (if i = ''into'' \<and> [p, q] = ''()'' \<and> v \<in> {''value'', ''values''} \<and> cs \<noteq> []
            then map_option (Insert t cs) (value_list r') else None)
       | _ \<Rightarrow> None)
   | _ \<Rightarrow> None)"

text \<open>\<open>on a = b\<close> and what follows; an alias is the table's name when there is none.\<close>

definition parse_join :: "string \<Rightarrow> string \<Rightarrow> token list \<Rightarrow> (source \<times> token list) option" where
  "parse_join t a ts = (case ts of
     Word j # Word t' # Word x # Word y # Word z # r \<Rightarrow>
       (if j \<noteq> ''join'' then None
        else if x = ''on'' then (case r of
            Word w # r' \<Rightarrow> (if z = ''='' then Some (Join (t, a) (t', t') y w, r') else None)
          | _ \<Rightarrow> None)
        else if y = ''on'' then (case r of
            Word e # Word w # r' \<Rightarrow> (if e = ''='' then Some (Join (t, a) (t', x) z w, r') else None)
          | _ \<Rightarrow> None)
        else None)
   | _ \<Rightarrow> None)"

definition parse_source :: "token list \<Rightarrow> (source \<times> token list) option" where
  "parse_source ts = (case ts of
     Word t # Word w # r \<Rightarrow>
       (if w = ''where'' then Some (Table t, Word w # r)
        else if w = ''inner'' then parse_join t t r
        else (case r of
            Word i # r' \<Rightarrow> (if i = ''inner'' then parse_join t w r' else None)
          | _ \<Rightarrow> None))
   | _ \<Rightarrow> None)"

definition parse_select :: "token list \<Rightarrow> sql option" where
  "parse_select ts = (case names ts of
     (cs, Word f # r) \<Rightarrow> (if f = ''from'' \<and> cs \<noteq> [] then (case parse_source r of
         Some (src, r') \<Rightarrow> map_option (Select cs src) (where_clause r')
       | None \<Rightarrow> None) else None)
   | _ \<Rightarrow> None)"

definition parse_update :: "token list \<Rightarrow> sql option" where
  "parse_update ts = (case ts of
     Word t # Word s # r \<Rightarrow> (if s = ''set'' then (case assigns r of
         Some (xs, r') \<Rightarrow> map_option (Update t xs) (where_clause r')
       | None \<Rightarrow> None) else None)
   | _ \<Rightarrow> None)"

definition parse_delete :: "token list \<Rightarrow> sql option" where
  "parse_delete ts = (case ts of
     Word f # Word t # r \<Rightarrow> (if f = ''from'' then map_option (Delete t) (where_clause r) else None)
   | _ \<Rightarrow> None)"

definition parse_tokens :: "token list \<Rightarrow> sql option" where
  "parse_tokens ts = (case ts of
     Word w # r \<Rightarrow>
       (if w = ''select'' then parse_select r else if w = ''insert'' then parse_insert r
        else if w = ''update'' then parse_update r else if w = ''delete'' then parse_delete r else None)
   | _ \<Rightarrow> None)"

definition sql_parse :: "string \<Rightarrow> sql option" where
  "sql_parse s = (case sql_lex [] s of None \<Rightarrow> None | Some ts \<Rightarrow> parse_tokens ts)"

subsection \<open>How the statements of the program are read\<close>

lemma lex_int_end: "sql_lex [] (show_int i) = Some [Lit (show_int i)]"
  using lex_show_int [of i "[]"] by simp

lemma lex_int_char:
  assumes "separator c \<or> symbol c" "\<not> quotes c"
  shows "sql_lex [] (show_int i @ c # s) = map_option (\<lambda>ts. Lit (show_int i) # ts) (sql_lex [] (c # s))"
  unfolding lex_show_int using assms
  by (cases "sql_lex [] s") (auto simp: sql_lex.simps(2) word_token_def [of "[]"])

lemma lex_quoted_end: "safe_text v \<Longrightarrow> sql_lex [] (quoted v) = Some [Lit v]"
  using lex_quoted [of v "[]" "[]"] by (simp add: word_token_def)

lemma lex_quoted_char:
  "safe_text v \<Longrightarrow> c \<noteq> quote_char \<Longrightarrow> sql_lex [] (quoted v @ c # s) = map_option (\<lambda>ts. Lit v # ts) (sql_lex [] (c # s))"
  using lex_quoted [of v "c # s" "[]"] by (simp add: word_token_def)

lemma number_word: "c \<noteq> CHR ''-'' \<Longrightarrow> \<not> is_digit c \<Longrightarrow> number (c # ds) = False"
  by (simp add: number_def)

lemma word_token_word: "c \<noteq> CHR ''-'' \<Longrightarrow> \<not> is_digit c \<Longrightarrow> word_token (c # ds) = [Word (c # ds)]"
  by (simp add: number_word word_token_def)

lemma word_token_Nil: "word_token [] = []"
  by (simp add: word_token_def)

lemmas lex_steps = sql_lex.simps separator_def symbol_def quotes_def odd_char_def lex_int_end lex_int_char lex_quoted_end lex_quoted_char
  word_token_word word_token_Nil is_digit_def

lemmas parse_defs = parse_tokens_def parse_select_def parse_insert_def parse_update_def parse_delete_def
  parse_source_def parse_join_def where_clause_def value_list_def at_end_def

lemmas read_defs = sql_parse_def lex_steps parse_defs

text \<open>
  Numbers are read as they were printed; texts between quotes are read as they are as long as they
  are safe.
\<close>

lemma safe_constants [simp]:
  "safe_text ''offline''" "safe_text ''online''" "safe_text ''pending''" "safe_text ''accepted''"
  "safe_text ''rejected''" "safe_text ''creator''" "safe_text ''normal''"
  by (simp_all add: safe_text_def safe_char_def)

lemma read_user_statements:
  "safe_text (u_name u) \<Longrightarrow> safe_text (u_password u) \<Longrightarrow> safe_text (u_state u) \<Longrightarrow> sql_parse (sql_user_insert u) =
     Some (Insert ''User'' [''name'', ''password'', ''state''] [u_name u, u_password u, u_state u])"
  "safe_text name \<Longrightarrow> sql_parse (sql_user_by_name name) = Some (Select [''*''] (Table ''User'') [Eq ''name'' name])"
  "sql_parse (sql_user_by_id i) = Some (Select [''*''] (Table ''User'') [Eq ''id'' (show_int i)])"
  "safe_text (u_state u) \<Longrightarrow> sql_parse (sql_user_update_state u) =
     Some (Update ''User'' [(''state'', u_state u)] [Eq ''id'' (show_int (u_id u))])"
  "sql_parse sql_user_reset_state = Some (Update ''User'' [(''state'', ''offline'')] [Eq ''state'' ''online''])"
  "sql_parse (sql_user_exists i) = Some (Select [''*''] (Table ''User'') [Eq ''id'' (show_int i)])"
  by (simp_all add: sql_user_insert_def sql_user_by_name_def sql_user_by_id_def sql_user_update_state_def
      sql_user_reset_state_def sql_user_exists_def read_defs)

lemma read_friend_statements:
  "sql_parse (sql_friend_exists u f) =
     Some (Select [''*''] (Table ''Friend'') [Eq ''userid'' (show_int u), Eq ''friendid'' (show_int f)])"
  "sql_parse (sql_friend_insert u f) = Some (Insert ''Friend'' [] [show_int u, show_int f])"
  "sql_parse (sql_friend_query u) = Some (Select [''User.id'', ''User.name'', ''User.state'']
     (Join (''User'', ''User'') (''Friend'', ''Friend'') ''User.id'' ''Friend.friendid'') [Eq ''Friend.userid'' (show_int u)])"
  by (simp_all add: sql_friend_exists_def sql_friend_insert_def sql_friend_query_def read_defs)

lemma read_request_statements:
  "sql_parse (sql_friend_request_insert u f) =
     Some (Insert ''FriendRequest'' [''requester_id'', ''target_id'', ''status''] [show_int u, show_int f, ''pending''])"
  "sql_parse (sql_friend_request_status u f) =
     Some (Select [''status''] (Table ''FriendRequest'') [Eq ''requester_id'' (show_int u), Eq ''target_id'' (show_int f)])"
  "safe_text s \<Longrightarrow> sql_parse (sql_friend_request_update u f s ''now()'') =
     Some (Update ''FriendRequest'' [(''status'', s), (''handled_at'', ''now()'')]
       [Eq ''requester_id'' (show_int u), Eq ''target_id'' (show_int f)])"
  "safe_text s \<Longrightarrow> sql_parse (sql_friend_request_update u f s ''null'') =
     Some (Update ''FriendRequest'' [(''status'', s), (''handled_at'', ''null'')]
       [Eq ''requester_id'' (show_int u), Eq ''target_id'' (show_int f)])"
  by (simp_all add: sql_friend_request_insert_def sql_friend_request_status_def sql_friend_request_update_def read_defs)

lemma read_group_statements:
  "safe_text name \<Longrightarrow> sql_parse (sql_group_by_name name) = Some (Select [''*''] (Table ''AllGroup'') [Eq ''groupname'' name])"
  "sql_parse (sql_group_by_id g) = Some (Select [''id''] (Table ''AllGroup'') [Eq ''id'' (show_int g)])"
  "safe_text (g_name grp) \<Longrightarrow> safe_text (g_desc grp) \<Longrightarrow> sql_parse (sql_group_insert grp) =
     Some (Insert ''AllGroup'' [''groupname'', ''groupdesc''] [g_name grp, g_desc grp])"
  "safe_text role \<Longrightarrow> sql_parse (sql_group_user_insert u g role) =
     Some (Insert ''GroupUser'' [] [show_int g, show_int u, role])"
  "sql_parse (sql_group_user_exists u g) =
     Some (Select [''*''] (Table ''GroupUser'') [Eq ''userid'' (show_int u), Eq ''groupid'' (show_int g)])"
  "sql_parse (sql_group_owner g) =
     Some (Select [''userid''] (Table ''GroupUser'') [Eq ''groupid'' (show_int g), Eq ''grouprole'' ''creator''])"
  "sql_parse (sql_group_name g) = Some (Select [''groupname''] (Table ''AllGroup'') [Eq ''id'' (show_int g)])"
  "sql_parse (sql_group_other_users u g) =
     Some (Select [''userid''] (Table ''GroupUser'') [Eq ''groupid'' (show_int g), Ne ''userid'' (show_int u)])"
  by (simp_all add: sql_group_by_name_def sql_group_by_id_def sql_group_insert_def sql_group_user_insert_def
      sql_group_user_exists_def sql_group_owner_def sql_group_name_def sql_group_other_users_def read_defs)

lemma read_group_joins:
  "sql_parse (sql_groups_of_user u) = Some (Select [''a.id'', ''a.groupname'', ''a.groupdesc'']
     (Join (''AllGroup'', ''a'') (''GroupUser'', ''b'') ''a.id'' ''b.groupid'') [Eq ''b.userid'' (show_int u)])"
  "sql_parse (sql_group_members g) = Some (Select [''a.id'', ''a.name'', ''a.state'', ''b.grouprole'']
     (Join (''User'', ''a'') (''GroupUser'', ''b'') ''a.id'' ''b.userid'') [Eq ''b.groupid'' (show_int g)])"
  by (simp_all add: sql_groups_of_user_def sql_group_members_def read_defs)

lemma read_group_request_statements:
  "sql_parse (sql_group_request_insert u g) =
     Some (Insert ''GroupRequest'' [''requester_id'', ''group_id'', ''status''] [show_int u, show_int g, ''pending''])"
  "sql_parse (sql_group_request_status u g) =
     Some (Select [''status''] (Table ''GroupRequest'') [Eq ''requester_id'' (show_int u), Eq ''group_id'' (show_int g)])"
  "safe_text s \<Longrightarrow> sql_parse (sql_group_request_update u g s ''now()'') =
     Some (Update ''GroupRequest'' [(''status'', s), (''handled_at'', ''now()'')]
       [Eq ''requester_id'' (show_int u), Eq ''group_id'' (show_int g)])"
  "safe_text s \<Longrightarrow> sql_parse (sql_group_request_update u g s ''null'') =
     Some (Update ''GroupRequest'' [(''status'', s), (''handled_at'', ''null'')]
       [Eq ''requester_id'' (show_int u), Eq ''group_id'' (show_int g)])"
  by (simp_all add: sql_group_request_insert_def sql_group_request_status_def sql_group_request_update_def read_defs)

lemma read_offline_statements:
  "safe_text m \<Longrightarrow> sql_parse (sql_offline_insert u m) = Some (Insert ''OfflineMessage'' [] [show_int u, m])"
  "sql_parse (sql_offline_delete u) = Some (Delete ''OfflineMessage'' [Eq ''userid'' (show_int u)])"
  "sql_parse (sql_offline_query u) = Some (Select [''message''] (Table ''OfflineMessage'') [Eq ''userid'' (show_int u)])"
  by (simp_all add: sql_offline_insert_def sql_offline_delete_def sql_offline_query_def read_defs)

lemmas read_statements = read_user_statements read_friend_statements read_request_statements read_group_statements
  read_group_joins read_group_request_statements read_offline_statements

end
