(* ===== verification/SqlStore.thy ===== *)
theory SqlStore
  imports SqlSyntax "HOL-Library.Multiset"
begin

text \<open>
  The tables of \<open>docker/mysql/init/01-init-chatserver.sql\<close> and what the statements of the program do to
  them. \<open>mysql_runs\<close> is the contract of the database: the outside world carries out, or refuses,
  each statement it is sent as the documented semantics below says, over the \<open>tables\<close> in its
  state. It is a hypothesis of the theorems about what is stored; \<open>MySql\<close> at the end of the theory
  is a world that satisfies it.
\<close>

subsection \<open>The schema\<close>

text \<open>Types of columns: an enumeration has a default value; a date is not read by the program.\<close>

datatype column = AutoInc | IntCol | Text nat | Enum "string list" string | Datetime

definition request_states :: "string list" where
  "request_states = [''pending'', ''accepted'', ''rejected'']"

definition schema :: "string \<Rightarrow> (string \<times> column) list" where
  "schema t =
    (if t = ''User'' then [(''id'', AutoInc), (''name'', Text 50), (''password'', Text 50),
        (''state'', Enum [''online'', ''offline''] ''offline'')]
     else if t = ''Friend'' then [(''userid'', IntCol), (''friendid'', IntCol)]
     else if t = ''AllGroup'' then [(''id'', AutoInc), (''groupname'', Text 50), (''groupdesc'', Text 200)]
     else if t = ''GroupUser'' then [(''groupid'', IntCol), (''userid'', IntCol),
        (''grouprole'', Enum [''creator'', ''normal''] ''normal'')]
     else if t = ''OfflineMessage'' then [(''userid'', IntCol), (''message'', Text 500)]
     else if t = ''FriendRequest'' then [(''requester_id'', IntCol), (''target_id'', IntCol),
        (''status'', Enum request_states ''pending''), (''handled_at'', Datetime)]
     else if t = ''GroupRequest'' then [(''requester_id'', IntCol), (''group_id'', IntCol),
        (''status'', Enum request_states ''pending''), (''handled_at'', Datetime)]
     else [])"

text \<open>The primary and the unique keys.\<close>

definition unique_keys :: "string \<Rightarrow> string list list" where
  "unique_keys t =
    (if t = ''User'' then [[''id''], [''name'']]
     else if t = ''Friend'' then [[''userid'', ''friendid'']]
     else if t = ''AllGroup'' then [[''id''], [''groupname'']]
     else if t = ''GroupUser'' then [[''groupid'', ''userid'']]
     else if t = ''FriendRequest'' then [[''requester_id'', ''target_id'']]
     else if t = ''GroupRequest'' then [[''requester_id'', ''group_id'']]
     else [])"

record database =
  db_rows :: "string \<Rightarrow> row list"
  db_next :: "string \<Rightarrow> int"

subsection \<open>What a statement means\<close>

text \<open>
  Text columns are compared through the collation, which is a parameter: the function that maps a
  text to what it is compared by. Numbers are compared as numbers, which is the comparison of their
  canonical texts, and \<open>well_typed\<close> asks for these.
\<close>

definition same_value :: "(string \<Rightarrow> string) \<Rightarrow> column \<Rightarrow> string \<Rightarrow> string \<Rightarrow> bool" where
  "same_value coll ty x y = (case ty of Text n \<Rightarrow> coll x = coll y | _ \<Rightarrow> x = y)"

type_synonym header = "(string \<times> column) list"

definition cell :: "header \<Rightarrow> row \<Rightarrow> string \<Rightarrow> string option" where
  "cell h r c = (case map_of (zip (map fst h) r) c of None \<Rightarrow> None | Some v \<Rightarrow> v)"

definition same_cell :: "(string \<Rightarrow> string) \<Rightarrow> header \<Rightarrow> row \<Rightarrow> string \<Rightarrow> string \<Rightarrow> bool" where
  "same_cell coll h r c v = (case (map_of h c, cell h r c) of
     (Some ty, Some x) \<Rightarrow> same_value coll ty x v | _ \<Rightarrow> False)"

text \<open>A comparison with NULL is not true.\<close>

fun holds :: "(string \<Rightarrow> string) \<Rightarrow> header \<Rightarrow> row \<Rightarrow> cond \<Rightarrow> bool" where
  "holds coll h r (Eq c v) \<longleftrightarrow> same_cell coll h r c v"
| "holds coll h r (Ne c v) \<longleftrightarrow> cell h r c \<noteq> None \<and> \<not> same_cell coll h r c v"

definition all_hold :: "(string \<Rightarrow> string) \<Rightarrow> header \<Rightarrow> cond list \<Rightarrow> row \<Rightarrow> bool" where
  "all_hold coll h cs r \<longleftrightarrow> list_all (holds coll h r) cs"

definition prefixed :: "string \<Rightarrow> header \<Rightarrow> header" where
  "prefixed a h = map (\<lambda>(c, ty). (a @ ''.'' @ c, ty)) h"

fun source_header :: "source \<Rightarrow> header" where
  "source_header (Table t) = schema t"
| "source_header (Join (t, a) (t', a') x y) = prefixed a (schema t) @ prefixed a' (schema t')"

fun source_rows :: "database \<Rightarrow> source \<Rightarrow> row list" where
  "source_rows db (Table t) = db_rows db t"
| "source_rows db (Join (t, a) (t', a') x y) = (let h = source_header (Join (t, a) (t', a') x y) in
     filter (\<lambda>r. cell h r x \<noteq> None \<and> cell h r x = cell h r y)
       (concat (map (\<lambda>r. map (\<lambda>r'. r @ r') (db_rows db t')) (db_rows db t))))"

definition project :: "header \<Rightarrow> string list \<Rightarrow> row \<Rightarrow> row" where
  "project h cs r = (if cs = [''*''] then r else map (cell h r) cs)"

definition sql_rows :: "(string \<Rightarrow> string) \<Rightarrow> database \<Rightarrow> sql \<Rightarrow> row list" where
  "sql_rows coll db st = (case st of
     Select cs src ws \<Rightarrow> map (project (source_header src) cs)
       (filter (all_hold coll (source_header src) ws) (source_rows db src))
   | _ \<Rightarrow> [])"

text \<open>The row an insertion makes: a column that is not named takes its default.\<close>

definition given :: "string list \<Rightarrow> string list \<Rightarrow> string \<Rightarrow> string option" where
  "given cs vs c = map_of (zip cs vs) c"

definition new_cell :: "database \<Rightarrow> string \<Rightarrow> (string \<Rightarrow> string option) \<Rightarrow> string \<times> column \<Rightarrow> string option" where
  "new_cell db t g = (\<lambda>(c, ty). case g c of Some v \<Rightarrow> Some v
     | None \<Rightarrow> (case ty of AutoInc \<Rightarrow> Some (show_int (db_next db t)) | Enum vs d \<Rightarrow> Some d | _ \<Rightarrow> None))"

definition columns_named :: "string \<Rightarrow> string list \<Rightarrow> string list" where
  "columns_named t cs = (if cs = [] then map fst (schema t) else cs)"

definition new_row :: "database \<Rightarrow> string \<Rightarrow> string list \<Rightarrow> string list \<Rightarrow> row" where
  "new_row db t cs vs = map (new_cell db t (given (columns_named t cs) vs)) (schema t)"

definition conflict :: "(string \<Rightarrow> string) \<Rightarrow> string \<Rightarrow> row \<Rightarrow> row \<Rightarrow> bool" where
  "conflict coll t r r' \<longleftrightarrow> (\<exists>k \<in> set (unique_keys t).
     list_all (\<lambda>c. case cell (schema t) r' c of None \<Rightarrow> False | Some v \<Rightarrow> same_cell coll (schema t) r c v) k)"

definition set_cells :: "header \<Rightarrow> (string \<times> string) list \<Rightarrow> row \<Rightarrow> row" where
  "set_cells h xs r = map (\<lambda>(c, v). case map_of xs c of None \<Rightarrow> v | Some v' \<Rightarrow> Some v') (zip (map fst h) r)"

text \<open>The database after a statement; \<open>None\<close> is a refused insertion, a duplicate key.\<close>

definition sql_change :: "(string \<Rightarrow> string) \<Rightarrow> database \<Rightarrow> sql \<Rightarrow> database option" where
  "sql_change coll db st = (case st of
     Insert t cs vs \<Rightarrow> (let r = new_row db t cs vs in
       if list_ex (\<lambda>r'. conflict coll t r' r) (db_rows db t) then None
       else Some (db\<lparr>db_rows := (db_rows db)(t := db_rows db t @ [r]),
                     db_next := (db_next db)(t := db_next db t + 1)\<rparr>))
   | Update t xs ws \<Rightarrow> Some (db\<lparr>db_rows := (db_rows db)(t := map (\<lambda>r.
         if all_hold coll (schema t) ws r then set_cells (schema t) xs r else r) (db_rows db t))\<rparr>)
   | Delete t ws \<Rightarrow> Some (db\<lparr>db_rows := (db_rows db)(t :=
         filter (\<lambda>r. \<not> all_hold coll (schema t) ws r) (db_rows db t))\<rparr>)
   | Select _ _ _ \<Rightarrow> Some db)"

subsection \<open>Statements that fit the schema\<close>

definition fits :: "column \<Rightarrow> string \<Rightarrow> bool" where
  "fits ty v = (case ty of
     AutoInc \<Rightarrow> v = show_int (atoi v) | IntCol \<Rightarrow> v = show_int (atoi v)
   | Text n \<Rightarrow> safe_text v \<and> length v \<le> n | Enum vs d \<Rightarrow> v \<in> set vs | Datetime \<Rightarrow> v \<in> {''now()'', ''null''})"

definition fits_column :: "header \<Rightarrow> string \<times> string \<Rightarrow> bool" where
  "fits_column h = (\<lambda>(c, v). case map_of h c of None \<Rightarrow> False | Some ty \<Rightarrow> fits ty v)"

definition needs_value :: "string \<times> column \<Rightarrow> bool" where
  "needs_value = (\<lambda>(c, ty). case ty of IntCol \<Rightarrow> True | Text n \<Rightarrow> True | _ \<Rightarrow> False)"

fun cond_column :: "cond \<Rightarrow> string \<times> string" where
  "cond_column (Eq c v) = (c, v)"
| "cond_column (Ne c v) = (c, v)"

fun known_source :: "source \<Rightarrow> bool" where
  "known_source (Table t) \<longleftrightarrow> schema t \<noteq> []"
| "known_source (Join (t, a) (t', a') x y) \<longleftrightarrow> schema t \<noteq> [] \<and> schema t' \<noteq> [] \<and> a \<noteq> a' \<and>
     {x, y} \<subseteq> fst ` set (source_header (Join (t, a) (t', a') x y))"

fun well_typed :: "sql \<Rightarrow> bool" where
  "well_typed (Insert t cs vs) \<longleftrightarrow> schema t \<noteq> [] \<and> distinct cs \<and>
     length vs = length (columns_named t cs) \<and> list_all (fits_column (schema t)) (zip (columns_named t cs) vs) \<and>
     list_all (\<lambda>k. needs_value k \<longrightarrow> fst k \<in> set (columns_named t cs)) (schema t)"
| "well_typed (Select cs src ws) \<longleftrightarrow> known_source src \<and>
     (cs = [''*''] \<or> set cs \<subseteq> fst ` set (source_header src)) \<and>
     list_all (fits_column (source_header src) \<circ> cond_column) ws"
| "well_typed (Update t xs ws) \<longleftrightarrow> schema t \<noteq> [] \<and> distinct (map fst xs) \<and>
     list_all (fits_column (schema t)) xs \<and> list_all (fits_column (schema t) \<circ> cond_column) ws \<and>
     set (map fst xs) \<inter> set (concat (unique_keys t)) = {}"
| "well_typed (Delete t ws) \<longleftrightarrow> schema t \<noteq> [] \<and> list_all (fits_column (schema t) \<circ> cond_column) ws"

subsection \<open>Every statement of the program fits\<close>

text \<open>A text the program sends, as the statement the database makes of it.\<close>

definition sends :: "string \<Rightarrow> sql \<Rightarrow> bool" where
  "sends s st \<longleftrightarrow> sql_parse (c_str s) = Some st \<and> well_typed st"

fun no_nul :: "string \<Rightarrow> bool" where
  "no_nul [] \<longleftrightarrow> True"
| "no_nul (c # s) \<longleftrightarrow> c \<noteq> CHR 0x00 \<and> no_nul s"

lemma no_nul_set: "no_nul s \<longleftrightarrow> CHR 0x00 \<notin> set s"
  by (induction s) auto

lemma no_nul_append [simp]: "no_nul (a @ b) \<longleftrightarrow> no_nul a \<and> no_nul b"
  by (simp add: no_nul_set)

lemma no_nul_quoted [simp]: "no_nul (quoted v) \<longleftrightarrow> no_nul v"
  by (simp add: no_nul_set quoted_def)

lemma c_str_no_nul: "no_nul s \<Longrightarrow> c_str s = s"
  by (simp add: no_nul_set)

lemma safe_no_nul: "safe_text v \<Longrightarrow> no_nul v"
  by (induction v) (auto simp: safe_text_def, simp add: safe_char_def)

lemma show_int_no_nul [simp]: "no_nul (show_int i)"
  using safe_no_nul [OF safe_show_int] .

lemma c_str_statements [simp]:
  "no_nul (u_name u) \<Longrightarrow> no_nul (u_password u) \<Longrightarrow> no_nul (u_state u) \<Longrightarrow>
     c_str (sql_user_insert u) = sql_user_insert u"
  "no_nul name \<Longrightarrow> c_str (sql_user_by_name name) = sql_user_by_name name"
  "c_str (sql_user_by_id i) = sql_user_by_id i"
  "no_nul (u_state u) \<Longrightarrow> c_str (sql_user_update_state u) = sql_user_update_state u"
  "c_str sql_user_reset_state = sql_user_reset_state"
  "c_str (sql_user_exists i) = sql_user_exists i"
  "c_str (sql_friend_exists i k) = sql_friend_exists i k"
  "c_str (sql_friend_insert i k) = sql_friend_insert i k"
  "c_str (sql_friend_query i) = sql_friend_query i"
  by (intro c_str_no_nul; simp add: sql_user_insert_def sql_user_by_name_def sql_user_by_id_def sql_user_update_state_def
      sql_user_reset_state_def sql_user_exists_def sql_friend_exists_def sql_friend_insert_def sql_friend_query_def)+

lemma c_str_request_statements [simp]:
  "c_str (sql_friend_request_insert i k) = sql_friend_request_insert i k"
  "c_str (sql_friend_request_status i k) = sql_friend_request_status i k"
  "no_nul s \<Longrightarrow> no_nul h \<Longrightarrow> c_str (sql_friend_request_update i k s h) = sql_friend_request_update i k s h"
  "c_str (sql_group_request_insert i k) = sql_group_request_insert i k"
  "c_str (sql_group_request_status i k) = sql_group_request_status i k"
  "no_nul s \<Longrightarrow> no_nul h \<Longrightarrow> c_str (sql_group_request_update i k s h) = sql_group_request_update i k s h"
  "no_nul m \<Longrightarrow> c_str (sql_offline_insert i m) = sql_offline_insert i m"
  "c_str (sql_offline_delete i) = sql_offline_delete i"
  "c_str (sql_offline_query i) = sql_offline_query i"
  by (intro c_str_no_nul; simp add: sql_friend_request_insert_def sql_friend_request_status_def sql_friend_request_update_def
      sql_group_request_insert_def sql_group_request_status_def sql_group_request_update_def
      sql_offline_insert_def sql_offline_delete_def sql_offline_query_def)+

lemma c_str_group_statements [simp]:
  "no_nul name \<Longrightarrow> c_str (sql_group_by_name name) = sql_group_by_name name"
  "c_str (sql_group_by_id i) = sql_group_by_id i"
  "no_nul (g_name g) \<Longrightarrow> no_nul (g_desc g) \<Longrightarrow> c_str (sql_group_insert g) = sql_group_insert g"
  "no_nul role \<Longrightarrow> c_str (sql_group_user_insert i k role) = sql_group_user_insert i k role"
  "c_str (sql_group_user_exists i k) = sql_group_user_exists i k"
  "c_str (sql_group_owner i) = sql_group_owner i"
  "c_str (sql_group_name i) = sql_group_name i"
  "c_str (sql_groups_of_user i) = sql_groups_of_user i"
  "c_str (sql_group_members i) = sql_group_members i"
  "c_str (sql_group_other_users i k) = sql_group_other_users i k"
  by (intro c_str_no_nul; simp add: sql_group_by_name_def sql_group_by_id_def sql_group_insert_def sql_group_user_insert_def
      sql_group_user_exists_def sql_group_owner_def sql_group_name_def sql_groups_of_user_def sql_group_members_def
      sql_group_other_users_def)+

lemma fits_int [simp]: "int32_range i \<Longrightarrow> fits AutoInc (show_int i)" "int32_range i \<Longrightarrow> fits IntCol (show_int i)"
  by (simp_all add: fits_def)

definition text_up_to :: "nat \<Rightarrow> string \<Rightarrow> bool" where
  "text_up_to n v \<longleftrightarrow> safe_text v \<and> length v \<le> n"

lemma text_up_toD: "text_up_to n v \<Longrightarrow> safe_text v" "text_up_to n v \<Longrightarrow> fits (Text n) v"
  by (simp_all add: text_up_to_def fits_def)

lemmas fits_defs = sends_def schema_def unique_keys_def columns_named_def needs_value_def fits_column_def
  prefixed_def request_states_def

lemma request_state_safe: "s \<in> set request_states \<Longrightarrow> safe_text s \<and> no_nul s"
  by (auto simp: request_states_def)

lemma sends_friend_request:
  assumes "int32_range u" "int32_range f"
  shows "sends (sql_friend_request_insert u f)
      (Insert ''FriendRequest'' [''requester_id'', ''target_id'', ''status''] [show_int u, show_int f, ''pending''])"
    and "sends (sql_friend_request_status u f)
      (Select [''status''] (Table ''FriendRequest'') [Eq ''requester_id'' (show_int u), Eq ''target_id'' (show_int f)])"
    and "s \<in> set request_states \<Longrightarrow> sends (sql_friend_request_update u f s ''now()'')
      (Update ''FriendRequest'' [(''status'', s), (''handled_at'', ''now()'')]
        [Eq ''requester_id'' (show_int u), Eq ''target_id'' (show_int f)])"
    and "s \<in> set request_states \<Longrightarrow> sends (sql_friend_request_update u f s ''null'')
      (Update ''FriendRequest'' [(''status'', s), (''handled_at'', ''null'')]
        [Eq ''requester_id'' (show_int u), Eq ''target_id'' (show_int f)])"
  using assms request_state_safe [of s]
  by (simp_all add: read_request_statements fits_defs fits_def)

lemma text_no_nul: "text_up_to n v \<Longrightarrow> no_nul v"
  by (simp add: text_up_to_def safe_no_nul)

lemma sends_user:
  "text_up_to 50 (u_name u) \<Longrightarrow> text_up_to 50 (u_password u) \<Longrightarrow> u_state u \<in> {''online'', ''offline''} \<Longrightarrow>
     sends (sql_user_insert u) (Insert ''User'' [''name'', ''password'', ''state''] [u_name u, u_password u, u_state u])"
  "text_up_to 50 name \<Longrightarrow> sends (sql_user_by_name name) (Select [''*''] (Table ''User'') [Eq ''name'' name])"
  "int32_range i \<Longrightarrow> sends (sql_user_by_id i) (Select [''*''] (Table ''User'') [Eq ''id'' (show_int i)])"
  "int32_range (u_id u) \<Longrightarrow> u_state u \<in> {''online'', ''offline''} \<Longrightarrow> sends (sql_user_update_state u)
     (Update ''User'' [(''state'', u_state u)] [Eq ''id'' (show_int (u_id u))])"
  "sends sql_user_reset_state (Update ''User'' [(''state'', ''offline'')] [Eq ''state'' ''online''])"
  "int32_range i \<Longrightarrow> sends (sql_user_exists i) (Select [''*''] (Table ''User'') [Eq ''id'' (show_int i)])"
  by (auto simp: read_user_statements fits_defs text_no_nul text_up_toD)
    (simp_all add: fits_def)

lemma sends_friend:
  assumes "int32_range u" "int32_range f"
  shows "sends (sql_friend_exists u f)
      (Select [''*''] (Table ''Friend'') [Eq ''userid'' (show_int u), Eq ''friendid'' (show_int f)])"
    and "sends (sql_friend_insert u f) (Insert ''Friend'' [] [show_int u, show_int f])"
    and "sends (sql_friend_query u) (Select [''User.id'', ''User.name'', ''User.state'']
      (Join (''User'', ''User'') (''Friend'', ''Friend'') ''User.id'' ''Friend.friendid'') [Eq ''Friend.userid'' (show_int u)])"
  using assms by (simp_all add: read_friend_statements fits_defs)

lemma sends_group:
  "text_up_to 50 name \<Longrightarrow> sends (sql_group_by_name name) (Select [''*''] (Table ''AllGroup'') [Eq ''groupname'' name])"
  "int32_range g \<Longrightarrow> sends (sql_group_by_id g) (Select [''id''] (Table ''AllGroup'') [Eq ''id'' (show_int g)])"
  "text_up_to 50 (g_name grp) \<Longrightarrow> text_up_to 200 (g_desc grp) \<Longrightarrow> sends (sql_group_insert grp)
     (Insert ''AllGroup'' [''groupname'', ''groupdesc''] [g_name grp, g_desc grp])"
  "int32_range u \<Longrightarrow> int32_range g \<Longrightarrow> role \<in> {''creator'', ''normal''} \<Longrightarrow> sends (sql_group_user_insert u g role)
     (Insert ''GroupUser'' [] [show_int g, show_int u, role])"
  "int32_range u \<Longrightarrow> int32_range g \<Longrightarrow> sends (sql_group_user_exists u g)
     (Select [''*''] (Table ''GroupUser'') [Eq ''userid'' (show_int u), Eq ''groupid'' (show_int g)])"
  "int32_range g \<Longrightarrow> sends (sql_group_owner g)
     (Select [''userid''] (Table ''GroupUser'') [Eq ''groupid'' (show_int g), Eq ''grouprole'' ''creator''])"
  "int32_range g \<Longrightarrow> sends (sql_group_name g) (Select [''groupname''] (Table ''AllGroup'') [Eq ''id'' (show_int g)])"
  "int32_range u \<Longrightarrow> int32_range g \<Longrightarrow> sends (sql_group_other_users u g)
     (Select [''userid''] (Table ''GroupUser'') [Eq ''groupid'' (show_int g), Ne ''userid'' (show_int u)])"
  by (auto simp: read_group_statements fits_defs text_no_nul text_up_toD)
    (simp_all add: fits_def)

lemma sends_group_joins:
  "int32_range u \<Longrightarrow> sends (sql_groups_of_user u) (Select [''a.id'', ''a.groupname'', ''a.groupdesc'']
     (Join (''AllGroup'', ''a'') (''GroupUser'', ''b'') ''a.id'' ''b.groupid'') [Eq ''b.userid'' (show_int u)])"
  "int32_range g \<Longrightarrow> sends (sql_group_members g) (Select [''a.id'', ''a.name'', ''a.state'', ''b.grouprole'']
     (Join (''User'', ''a'') (''GroupUser'', ''b'') ''a.id'' ''b.userid'') [Eq ''b.groupid'' (show_int g)])"
  by (simp_all add: read_group_joins fits_defs)

lemma sends_group_request:
  assumes "int32_range u" "int32_range g"
  shows "sends (sql_group_request_insert u g)
      (Insert ''GroupRequest'' [''requester_id'', ''group_id'', ''status''] [show_int u, show_int g, ''pending''])"
    and "sends (sql_group_request_status u g)
      (Select [''status''] (Table ''GroupRequest'') [Eq ''requester_id'' (show_int u), Eq ''group_id'' (show_int g)])"
    and "s \<in> set request_states \<Longrightarrow> sends (sql_group_request_update u g s ''now()'')
      (Update ''GroupRequest'' [(''status'', s), (''handled_at'', ''now()'')]
        [Eq ''requester_id'' (show_int u), Eq ''group_id'' (show_int g)])"
    and "s \<in> set request_states \<Longrightarrow> sends (sql_group_request_update u g s ''null'')
      (Update ''GroupRequest'' [(''status'', s), (''handled_at'', ''null'')]
        [Eq ''requester_id'' (show_int u), Eq ''group_id'' (show_int g)])"
  using assms request_state_safe [of s]
  by (simp_all add: read_group_request_statements fits_defs fits_def)

lemma sends_offline:
  "int32_range u \<Longrightarrow> text_up_to 500 m \<Longrightarrow> sends (sql_offline_insert u m) (Insert ''OfflineMessage'' [] [show_int u, m])"
  "int32_range u \<Longrightarrow> sends (sql_offline_delete u) (Delete ''OfflineMessage'' [Eq ''userid'' (show_int u)])"
  "int32_range u \<Longrightarrow> sends (sql_offline_query u) (Select [''message''] (Table ''OfflineMessage'') [Eq ''userid'' (show_int u)])"
  by (auto simp: read_offline_statements fits_defs text_no_nul text_up_toD)

lemmas sends_rules = sends_user sends_friend sends_friend_request sends_group sends_group_joins
  sends_group_request sends_offline

definition all_statements :: "int \<Rightarrow> int \<Rightarrow> user \<Rightarrow> chat_group \<Rightarrow> string \<Rightarrow> string \<Rightarrow> string \<Rightarrow> string list" where
  "all_statements i k usr grp st role m = [
     sql_user_insert usr, sql_user_by_name (u_name usr), sql_user_by_id i, sql_user_update_state usr, sql_user_reset_state,
     sql_user_exists i, sql_friend_exists i k, sql_friend_insert i k, sql_friend_query i,
     sql_friend_request_insert i k, sql_friend_request_status i k, sql_friend_request_update i k st ''now()'',
     sql_friend_request_update i k st ''null'', sql_group_by_name (g_name grp), sql_group_by_id i, sql_group_insert grp,
     sql_group_user_insert i k role, sql_group_user_exists i k, sql_group_owner i, sql_group_name i, sql_groups_of_user i,
     sql_group_members i, sql_group_other_users i k, sql_group_request_insert i k, sql_group_request_status i k,
     sql_group_request_update i k st ''now()'', sql_group_request_update i k st ''null'',
     sql_offline_insert i m, sql_offline_delete i, sql_offline_query i]"

lemma sends_fit: "sends s q \<Longrightarrow> case sql_parse (c_str s) of None \<Rightarrow> False | Some q \<Rightarrow> well_typed q"
  by (simp add: sends_def)

text \<open>
  C23: the statements of the model classes are well typed. Each of the texts they build, for numbers
  of 32 bits and for texts that fit their columns and are printable ASCII without apostrophe or
  backslash, is a statement the database can read, on tables and columns of the schema, with a value of the right
  type for each column it sets or compares, one for each column that has no default, and without
  touching a key.
\<close>

theorem statements_fit_schema:
  assumes "int32_range i" "int32_range k" "int32_range (u_id usr)" "u_state usr \<in> {''online'', ''offline''}"
    and "text_up_to 50 (u_name usr)" "text_up_to 50 (u_password usr)"
    and "text_up_to 50 (g_name grp)" "text_up_to 200 (g_desc grp)"
    and "st \<in> set request_states" "role \<in> {''creator'', ''normal''}" "text_up_to 500 m"
  shows "list_all (\<lambda>s. case sql_parse (c_str s) of None \<Rightarrow> False | Some q \<Rightarrow> well_typed q) (all_statements i k usr grp st role m)"
  unfolding all_statements_def list.pred_inject(2)
  by (intro conjI list.pred_inject(1); (rule sends_fit, (rule sends_rules; (rule assms)+)))

theorem statements_fit_schema_witness:
  "list_all (\<lambda>s. case sql_parse (c_str s) of None \<Rightarrow> False | Some q \<Rightarrow> well_typed q)
     (all_statements 7 9 \<lparr>u_id = 7, u_name = ''ann'', u_password = ''secret'', u_state = ''online''\<rparr>
       (Group (- 1) ''chess'' ''every friday'') ''pending'' ''normal'' ''hello'')"
  by (rule statements_fit_schema)
    (simp_all add: int32_range_def text_up_to_def safe_text_def safe_char_def request_states_def Group_def)

subsection \<open>The contract of the database\<close>

text \<open>The tables a text with these leading words can change, whatever comes after them.\<close>

definition writes :: "token list \<Rightarrow> string \<Rightarrow> bool" where
  "writes ts t \<longleftrightarrow> (case ts of
     Word w # r \<Rightarrow> (if w = ''select'' then False
       else if w = ''update'' then (case r of Word t' # _ \<Rightarrow> t = t' | _ \<Rightarrow> True)
       else if w \<in> {''insert'', ''delete''} then (case r of Word _ # Word t' # _ \<Rightarrow> t = t' | _ \<Rightarrow> True)
       else True)
   | _ \<Rightarrow> True)"

definition is_select :: "sql \<Rightarrow> bool" where
  "is_select st \<longleftrightarrow> (case st of Select cs src ws \<Rightarrow> True | _ \<Rightarrow> False)"

definition rows_after :: "'d outside \<Rightarrow> ('d \<Rightarrow> database) \<Rightarrow> row list \<Rightarrow> 'd \<Rightarrow> bool" where
  "rows_after E tables rs d \<longleftrightarrow> (case fst (ext_store_result E d) of None \<Rightarrow> True | Some rs' \<Rightarrow> mset rs' = mset rs)"

text \<open>
  What the program may rely on. A text with a literal that never ends is refused. A text changes no
  table but the one its leading words name. A statement that fits the schema is either carried out,
  and a query then yields its rows in some order and an insertion its generated number, or refused;
  a refused one has had no effect, or the answer was lost and it has had its effect. Nothing else the
  program calls touches the tables.

  In three places this asks for more than the documentation of the database promises: an insertion
  that is refused does not use up a generated number; the sentence on the leading words is about all
  texts, of which the program sends only \<open>insert into\<close>, \<open>update\<close>, \<open>delete from\<close> and \<open>select\<close>
  (it would not hold of \<open>insert ignore into\<close>); and nobody else writes to the database between two
  calls of the program. No theorem is about the value of a generated number.
\<close>

definition carries_out :: "(string \<Rightarrow> string) \<Rightarrow> 'd outside \<Rightarrow> ('d \<Rightarrow> database) \<Rightarrow> string \<Rightarrow> 'd \<Rightarrow> bool" where
  "carries_out coll E tables s d \<longleftrightarrow> (case ext_mysql_query E s d of (failed, d') \<Rightarrow>
     (open_literal s \<longrightarrow> failed \<and> tables d' = tables d) \<and>
     (\<forall>t. writes (leading [] s) t \<or> db_rows (tables d') t = db_rows (tables d) t) \<and>
     (\<forall>st. sql_parse s = Some st \<and> well_typed st \<longrightarrow>
        (if failed then tables d' = tables d \<or> sql_change coll (tables d) st = Some (tables d')
         else sql_change coll (tables d) st = Some (tables d') \<and> rows_after E tables (sql_rows coll (tables d) st) d' \<and>
           (\<forall>t cs vs. st = Insert t cs vs \<and> AutoInc \<in> snd ` set (schema t) \<longrightarrow> ext_insert_id E d' = db_next (tables d) t))))"

definition mysql_runs :: "(string \<Rightarrow> string) \<Rightarrow> 'd outside \<Rightarrow> ('d \<Rightarrow> database) \<Rightarrow> bool" where
  "mysql_runs coll E tables \<longleftrightarrow> (\<forall>s d. carries_out coll E tables s d) \<and>
     (\<forall>d. tables (snd (ext_store_result E d)) = tables d) \<and> (\<forall>d. tables (snd (ext_pool E d)) = tables d) \<and>
     (\<forall>m d. tables (snd (ext_rpc E m d)) = tables d) \<and> (\<forall>c ws d. tables (snd (ext_redis_command E c ws d)) = tables d) \<and>
     (\<forall>d. tables (snd (ext_write E d)) = tables d)"

text \<open>
  A world in which nothing fails that need not: connections are there, calls are answered, and a
  statement that fits the schema and breaks no key is carried out.
\<close>

definition no_failures :: "(string \<Rightarrow> string) \<Rightarrow> 'd outside \<Rightarrow> ('d \<Rightarrow> database) \<Rightarrow> bool" where
  "no_failures coll E tables \<longleftrightarrow>
     (\<forall>s d st. sql_parse s = Some st \<and> well_typed st \<and> sql_change coll (tables d) st \<noteq> None \<longrightarrow>
        \<not> fst (ext_mysql_query E s d) \<and>
        (is_select st \<longrightarrow> fst (ext_store_result E (snd (ext_mysql_query E s d))) \<noteq> None)) \<and>
     (\<forall>d. fst (ext_pool E d)) \<and> (\<forall>m d. fst (ext_rpc E m d) = RpcAnswered)"

lemma mysql_runsD:
  assumes "mysql_runs coll E tables"
  shows "tables (snd (ext_store_result E d)) = tables d" "tables (snd (ext_pool E d)) = tables d"
    and "tables (snd (ext_rpc E m d)) = tables d" "tables (snd (ext_redis_command E c ws d)) = tables d"
    and "tables (snd (ext_write E d)) = tables d"
  using assms by (auto simp: mysql_runs_def)

lemma mysql_runs_query:
  assumes "mysql_runs coll E tables" "ext_mysql_query E s d = (failed, d')"
  shows "(open_literal s \<longrightarrow> failed \<and> tables d' = tables d) \<and>
      (\<forall>t. writes (leading [] s) t \<or> db_rows (tables d') t = db_rows (tables d) t)"
    and "sql_parse s = Some st \<Longrightarrow> well_typed st \<Longrightarrow>
      (if failed then tables d' = tables d \<or> sql_change coll (tables d) st = Some (tables d')
       else sql_change coll (tables d) st = Some (tables d') \<and> rows_after E tables (sql_rows coll (tables d) st) d')"
    and "sql_parse s = Some (Insert t cs vs) \<Longrightarrow> well_typed (Insert t cs vs) \<Longrightarrow> AutoInc \<in> snd ` set (schema t) \<Longrightarrow>
      \<not> failed \<Longrightarrow> ext_insert_id E d' = db_next (tables d) t"
proof -
  have *: "carries_out coll E tables s d" using assms(1) by (simp add: mysql_runs_def)
  show "(open_literal s \<longrightarrow> failed \<and> tables d' = tables d) \<and>
      (\<forall>t. writes (leading [] s) t \<or> db_rows (tables d') t = db_rows (tables d) t)"
    using * assms(2) by (simp add: carries_out_def)
  show "sql_parse s = Some st \<Longrightarrow> well_typed st \<Longrightarrow>
      (if failed then tables d' = tables d \<or> sql_change coll (tables d) st = Some (tables d')
       else sql_change coll (tables d) st = Some (tables d') \<and> rows_after E tables (sql_rows coll (tables d) st) d')"
    using * assms(2) by (simp add: carries_out_def)
  show "sql_parse s = Some (Insert t cs vs) \<Longrightarrow> well_typed (Insert t cs vs) \<Longrightarrow> AutoInc \<in> snd ` set (schema t) \<Longrightarrow>
      \<not> failed \<Longrightarrow> ext_insert_id E d' = db_next (tables d) t"
    using * assms(2) by (simp add: carries_out_def)
qed

text \<open>The two operations of a session, on the tables.\<close>

definition changes :: "(string \<Rightarrow> string) \<Rightarrow> sql \<Rightarrow> bool \<Rightarrow> database \<Rightarrow> database \<Rightarrow> bool" where
  "changes coll st ok db db' \<longleftrightarrow> sql_change coll db st = Some db' \<or> \<not> ok \<and> db' = db"

lemma update_runs:
  assumes "mysql_runs coll E tables" "sends s st"
  shows "changes coll st (fst (sql_update E s d)) (tables d) (tables (snd (sql_update E s d)))"
proof -
  obtain c d1 where p: "ext_pool E d = (c, d1)" by fastforce
  obtain f d2 where q: "ext_mysql_query E (c_str s) d1 = (f, d2)" by fastforce
  have t: "tables d1 = tables d" using mysql_runsD(2) [OF assms(1), of d] by (simp add: p)
  show ?thesis
    using mysql_runs_query(2) [OF assms(1) q, of st] assms(2)
    by (cases c; cases f) (auto simp: sql_update_def p q t sends_def changes_def)
qed

lemma query_runs:
  assumes "mysql_runs coll E tables" "sends s st" "is_select st"
  shows "tables (snd (sql_query E s d)) = tables d"
    and "fst (sql_query E s d) = Some rs \<Longrightarrow> mset rs = mset (sql_rows coll (tables d) st)"
proof -
  obtain c d1 where p: "ext_pool E d = (c, d1)" by fastforce
  obtain f d2 where q: "ext_mysql_query E (c_str s) d1 = (f, d2)" by fastforce
  have t: "tables d1 = tables d" using mysql_runsD(2) [OF assms(1), of d] by (simp add: p)
  have ch: "sql_change coll db st = Some db" for db
    using assms(3) by (cases st) (simp_all add: is_select_def sql_change_def)
  note q' = mysql_runs_query(2) [OF assms(1) q, of st]
  have t2: "tables d2 = tables d"
    using q' assms(2) ch by (cases f) (auto simp: t sends_def)
  show "tables (snd (sql_query E s d)) = tables d"
    using mysql_runsD(1) [OF assms(1), of d2] by (cases c; cases f) (simp_all add: sql_query_def p q t t2)
  show "mset rs = mset (sql_rows coll (tables d) st)" if "fst (sql_query E s d) = Some rs"
    using that q' assms(2) by (cases c; cases f) (simp_all add: sql_query_def p q t sends_def rows_after_def)
qed

text \<open>A text leaves every table alone that it does not name, and all of them if it is no text at all.\<close>

definition text_writes :: "string \<Rightarrow> string \<Rightarrow> bool" where
  "text_writes s t \<longleftrightarrow> writes (leading [] (c_str s)) t"

lemma frame_runs:
  assumes "mysql_runs coll E tables" "\<not> text_writes s t"
  shows "db_rows (tables (snd (sql_update E s d))) t = db_rows (tables d) t"
    and "db_rows (tables (snd (sql_query E s d))) t = db_rows (tables d) t"
proof -
  obtain c d1 where p: "ext_pool E d = (c, d1)" by fastforce
  obtain f d2 where q: "ext_mysql_query E (c_str s) d1 = (f, d2)" by fastforce
  have t1: "tables d1 = tables d" using mysql_runsD(2) [OF assms(1), of d] by (simp add: p)
  have t2: "db_rows (tables d2) t = db_rows (tables d) t"
    using mysql_runs_query(1) [OF assms(1) q] assms(2) t1
    by (auto simp: text_writes_def)
  show "db_rows (tables (snd (sql_update E s d))) t = db_rows (tables d) t"
    using t1 t2 by (cases c) (simp_all add: sql_update_def p q)
  show "db_rows (tables (snd (sql_query E s d))) t = db_rows (tables d) t"
    using t1 t2 mysql_runsD(1) [OF assms(1), of d2] by (cases c; cases f) (simp_all add: sql_query_def p q)
qed

lemma unterminated_runs:
  assumes "mysql_runs coll E tables" "open_literal (c_str s)"
  shows "fst (sql_update E s d) = False" "tables (snd (sql_update E s d)) = tables d"
proof -
  obtain c d1 where p: "ext_pool E d = (c, d1)" by fastforce
  obtain f d2 where q: "ext_mysql_query E (c_str s) d1 = (f, d2)" by fastforce
  note * = mysql_runs_query(1) [OF assms(1) q] mysql_runsD(2) [OF assms(1), of d]
  show "fst (sql_update E s d) = False" "tables (snd (sql_update E s d)) = tables d"
    using * assms(2) by (cases c; simp add: sql_update_def p q)+
qed

lemma reliable_update:
  assumes "mysql_runs coll E tables" "no_failures coll E tables" "sends s st" "sql_change coll (tables d) st = Some db'"
  shows "fst (sql_update E s d)" "tables (snd (sql_update E s d)) = db'"
proof -
  obtain c d1 where p: "ext_pool E d = (c, d1)" by fastforce
  have c: "c" using assms(2) p unfolding no_failures_def by (metis fst_conv)
  have t1: "tables d1 = tables d" using mysql_runsD(2) [OF assms(1), of d] by (simp add: p)
  have "\<not> fst (ext_mysql_query E (c_str s) d1)"
    using assms(2-4) t1 unfolding no_failures_def sends_def by (metis option.distinct(1))
  then show ok: "fst (sql_update E s d)" using c by (simp add: sql_update_def p split_beta)
  show "tables (snd (sql_update E s d)) = db'"
    using update_runs [OF assms(1,3), of d] ok assms(4) by (simp add: changes_def)
qed

lemma reliable_query:
  assumes "mysql_runs coll E tables" "no_failures coll E tables" "sends s st" "is_select st"
  obtains rs where "fst (sql_query E s d) = Some rs" "mset rs = mset (sql_rows coll (tables d) st)"
proof -
  obtain c d1 where p: "ext_pool E d = (c, d1)" by fastforce
  have c: "c" using assms(2) p unfolding no_failures_def by (metis fst_conv)
  have ch: "sql_change coll db st \<noteq> None" for db
    using assms(4) by (cases st) (simp_all add: is_select_def sql_change_def)
  have nf: "\<not> fst (ext_mysql_query E (c_str s) d1) \<and>
      fst (ext_store_result E (snd (ext_mysql_query E (c_str s) d1))) \<noteq> None"
    using assms(2-4) ch unfolding no_failures_def sends_def by blast
  then obtain rs where "fst (sql_query E s d) = Some rs"
    using c by (auto simp: sql_query_def p split_beta)
  with query_runs(2) [OF assms(1,3,4)] that show thesis by blast
qed

subsection \<open>A world with a database\<close>

text \<open>
  The tables, the rows of the last query and the last generated number. Statements outside the subset are refused; nothing
  else fails. JSON text is as in the scripted world.
\<close>

type_synonym mysql = "database \<times> row list \<times> int"

definition generated :: "database \<Rightarrow> sql \<Rightarrow> int" where
  "generated db st = (case st of Insert t cs vs \<Rightarrow> db_next db t | _ \<Rightarrow> 0)"

definition run_text :: "string \<Rightarrow> mysql \<Rightarrow> bool \<times> mysql" where
  "run_text s = (\<lambda>(db, rs). case sql_parse s of
     None \<Rightarrow> (True, (db, rs))
   | Some st \<Rightarrow> (if \<not> well_typed st then (True, (db, rs))
       else (case sql_change id db st of None \<Rightarrow> (True, (db, rs))
        | Some db' \<Rightarrow> (False, (db', sql_rows id db st, generated db st)))))"

definition MySql :: "mysql outside" where
  "MySql = \<lparr>
     ext_getenv = (\<lambda>_. None),
     ext_pool = (\<lambda>d. (True, d)),
     ext_mysql_query = run_text,
     ext_store_result = (\<lambda>d. (Some (fst (snd d)), d)),
     ext_insert_id = (\<lambda>d. snd (snd d)),
     ext_rpc = (\<lambda>_ d. (RpcAnswered, d)),
     ext_redis_connect = (\<lambda>_ _ _ d. (Some False, d)),
     ext_redis_command = (\<lambda>_ _ d. (Some RedisReplyOther, d)),
     ext_redis_append = (\<lambda>_ d. (False, d)),
     ext_redis_write = (\<lambda>d. (WriteDone, d)),
     ext_pipe = (\<lambda>d. (True, d)),
     ext_thread = (\<lambda>d. (True, d)),
     ext_write = (\<lambda>d. (True, d)),
     ext_send = (\<lambda>bytes d. (int (length bytes), d)),
     ext_localtime = (\<lambda>d. (\<lparr>tm_year = 126, tm_mon = 0, tm_mday = 9, tm_hour = 8, tm_min = 7, tm_sec = 5\<rparr>, d)),
     ext_json_parse = scripted_parse,
     ext_json_dump = (\<lambda>j. Some (scripted_dump j))\<rparr>"

definition empty_database :: database where
  "empty_database = \<lparr>db_rows = (\<lambda>_. []), db_next = (\<lambda>_. 1)\<rparr>"

fun target :: "sql \<Rightarrow> string option" where
  "target (Insert t cs vs) = Some t"
| "target (Update t xs ws) = Some t"
| "target (Delete t ws) = Some t"
| "target (Select cs src ws) = None"

lemma change_frame:
  "sql_change coll db st = Some db' \<Longrightarrow> target st \<noteq> Some t \<Longrightarrow> db_rows db' t = db_rows db t"
  by (cases st) (auto simp: sql_change_def Let_def split: if_splits)

lemma parse_target:
  assumes "parse_tokens ts = Some st" "target st = Some t"
  shows "writes ts t"
proof -
  obtain w r where ts: "ts = Word w # r"
    using assms(1) by (auto simp: parse_tokens_def split: list.splits token.splits)
  consider "w = ''insert''" "parse_insert r = Some st" | "w = ''update''" "parse_update r = Some st"
    | "w = ''delete''" "parse_delete r = Some st" | "w = ''select''" "parse_select r = Some st"
    using assms(1) by (auto simp: parse_tokens_def ts split: if_splits)
  then show ?thesis
  proof cases
    case 1
    then show ?thesis using assms(2)
      by (auto simp: ts writes_def parse_insert_def split: list.splits token.splits if_splits prod.splits)
  next
    case 2
    then show ?thesis using assms(2)
      by (auto simp: ts writes_def parse_update_def split: list.splits token.splits if_splits option.splits prod.splits)
  next
    case 3
    then show ?thesis using assms(2)
      by (auto simp: ts writes_def parse_delete_def split: list.splits token.splits if_splits)
  next
    case 4
    then show ?thesis using assms(2)
      by (auto simp: parse_select_def split: list.splits token.splits if_splits option.splits prod.splits)
  qed
qed

lemma leading_prefix: "sql_lex w s = Some ts \<Longrightarrow> \<exists>r. ts = leading w s @ r"
proof (induction w s arbitrary: ts rule: sql_lex.induct)
  case (2 w c s)
  note lex = 2
  consider "\<not> plain_char c" | "plain_char c" "separator c" | "plain_char c" "\<not> separator c" by blast
  then show ?case
  proof cases
    case 1
    then show ?thesis using lex
      by (auto simp: sql_lex.simps(2) leading.simps(2) plain_char_def word_token_Nil split: if_splits option.splits)
  next
    case 2
    then show ?thesis using lex
      by (auto simp: sql_lex.simps(2) leading.simps(2) plain_char_def)
  next
    case 3
    then show ?thesis using lex
      by (auto simp: sql_lex.simps(2) leading.simps(2) plain_char_def split: if_splits)
  qed
qed simp

lemma writes_prefix:
  assumes "writes (ls @ r) t"
  shows "writes ls t"
proof -
  consider "ls = []" | a where "ls = [a]" | a b where "ls = [a, b]" | a b c l where "ls = a # b # c # l"
    by (metis list.exhaust)
  then show ?thesis
    using assms by cases (auto simp: writes_def split: token.splits if_splits)
qed

lemma MySql_carries_out: "carries_out id MySql fst s d"
proof -
  obtain db rs where d: "d = (db, rs)" by (cases d)
  show ?thesis
  proof (cases "sql_parse s")
    case None
    then show ?thesis by (simp add: carries_out_def MySql_def run_text_def d)
  next
    case (Some st)
    then obtain ts where ts: "sql_lex [] s = Some ts" "parse_tokens ts = Some st"
      by (auto simp: sql_parse_def split: option.splits)
    have "writes (leading [] s) t \<or> db_rows db' t = db_rows db t" if "sql_change id db st = Some db'" for db' t
      using change_frame [OF that, of t] parse_target [OF ts(2), of t] leading_prefix [OF ts(1)] writes_prefix
      by (cases "target st = Some t") auto
    moreover have "\<not> open_literal s" using open_literal_lex [of s "[]"] ts(1) by auto
    ultimately show ?thesis
      by (auto simp: carries_out_def MySql_def run_text_def rows_after_def generated_def d Some ts(1) split: option.split)
  qed
qed

lemma MySql_runs [simp]: "mysql_runs id MySql fst"
  using MySql_carries_out by (auto simp: mysql_runs_def) (auto simp: MySql_def)

lemma MySql_reliable [simp]: "no_failures id MySql fst"
  by (auto simp: no_failures_def MySql_def run_text_def split: option.splits)

lemma MySql_json [simp]: "json_roundtrip MySql" "json_one_line MySql" "ext_json_dump MySql j = Some (scripted_dump j)"
  by (simp_all add: json_roundtrip_def json_one_line_def MySql_def same_members_def scripted_dump_def show_nat_chars)
    (simp add: scripted_dump_def [symmetric])

end
