(* ===== verification/Tables.thy ===== *)
theory Tables
  imports SqlStore
begin

text \<open>
  The tables seen as what the program uses them for: four tables keyed by a pair of numbers, which
  are finite maps, and the list of offline messages. Each statement of the program becomes one
  equation on these views.
\<close>

subsection \<open>Tables keyed by a pair of numbers\<close>

definition pair_table :: "string \<Rightarrow> bool" where
  "pair_table t \<longleftrightarrow> t \<in> {''Friend'', ''FriendRequest'', ''GroupUser'', ''GroupRequest''}"

definition key_columns :: "string \<Rightarrow> string \<times> string" where
  "key_columns t = (fst (schema t ! 0), fst (schema t ! 1))"

type_synonym pair_key = "string option \<times> string option"

definition row_key :: "row \<Rightarrow> pair_key" where
  "row_key r = (r ! 0, r ! 1)"

definition key :: "int \<Rightarrow> int \<Rightarrow> pair_key" where
  "key i k = (Some (show_int i), Some (show_int k))"

definition entries :: "string \<Rightarrow> database \<Rightarrow> pair_key \<Rightarrow> row option" where
  "entries t db k = find (\<lambda>r. row_key r = k) (db_rows db t)"

text \<open>The invariant of such a table: rows of the right length, and one row for a key.\<close>

definition pairs_ok :: "string \<Rightarrow> database \<Rightarrow> bool" where
  "pairs_ok t db \<longleftrightarrow> (\<forall>r \<in> set (db_rows db t). length r = length (schema t)) \<and>
     distinct (map row_key (db_rows db t))"

lemma key_inj [simp]:
  "int32_range i \<Longrightarrow> int32_range k \<Longrightarrow> int32_range i' \<Longrightarrow> int32_range k' \<Longrightarrow> key i k = key i' k' \<longleftrightarrow> i = i' \<and> k = k'"
  by (auto simp: key_def dest: show_int_inj)

lemma swap_key [simp]: "prod.swap (key i k) = key k i"
  by (simp add: key_def)

lemma pair_tableE:
  assumes "pair_table t"
  obtains "t = ''Friend''" | "t = ''FriendRequest''" | "t = ''GroupUser''" | "t = ''GroupRequest''"
  using assms by (auto simp: pair_table_def)

lemma row_of_2: "length r = Suc (Suc 0) \<longleftrightarrow> (\<exists>a b. r = [a, b])"
  and row_of_3: "length r = Suc (Suc (Suc 0)) \<longleftrightarrow> (\<exists>a b c. r = [a, b, c])"
  and row_of_4: "length r = Suc (Suc (Suc (Suc 0))) \<longleftrightarrow> (\<exists>a b c d. r = [a, b, c, d])"
  by (auto simp: length_Suc_conv)

lemma schema_pairs [simp]:
  "schema ''Friend'' = [(''userid'', IntCol), (''friendid'', IntCol)]"
  "schema ''FriendRequest'' = [(''requester_id'', IntCol), (''target_id'', IntCol),
     (''status'', Enum request_states ''pending''), (''handled_at'', Datetime)]"
  "schema ''GroupUser'' = [(''groupid'', IntCol), (''userid'', IntCol),
     (''grouprole'', Enum [''creator'', ''normal''] ''normal'')]"
  "schema ''GroupRequest'' = [(''requester_id'', IntCol), (''group_id'', IntCol),
     (''status'', Enum request_states ''pending''), (''handled_at'', Datetime)]"
  by (simp_all add: schema_def)

lemma pair_rowE:
  assumes "pair_table t" "length r = length (schema t)"
  obtains a b where "t = ''Friend''" "r = [a, b]"
    | a b c where "t = ''GroupUser''" "r = [a, b, c]"
    | a b c d where "t = ''FriendRequest''" "r = [a, b, c, d]"
    | a b c d where "t = ''GroupRequest''" "r = [a, b, c, d]"
proof (cases rule: pair_tableE [OF assms(1)])
  case 1 with assms(2) that(1) show ?thesis by (auto simp: row_of_2)
next
  case 2 with assms(2) that(3) show ?thesis by (auto simp: row_of_4)
next
  case 3 with assms(2) that(2) show ?thesis by (auto simp: row_of_3)
next
  case 4 with assms(2) that(4) show ?thesis by (auto simp: row_of_4)
qed

lemmas holds_defs = all_hold_def same_cell_def cell_def same_value_def key_columns_def row_key_def

lemma holds_key:
  assumes "pair_table t" "length r = length (schema t)"
  shows "all_hold coll (schema t) [Eq (fst (key_columns t)) v, Eq (snd (key_columns t)) w] r \<longleftrightarrow> row_key r = (Some v, Some w)"
  using assms(1,2)
proof (cases rule: pair_rowE)
  case (1 a b) show ?thesis unfolding 1 by (cases a; cases b; simp add: holds_defs)
next
  case (2 a b c) show ?thesis unfolding 2 by (cases a; cases b; simp add: holds_defs)
next
  case (3 a b c d) show ?thesis unfolding 3 by (cases a; cases b; simp add: holds_defs)
next
  case (4 a b c d) show ?thesis unfolding 4 by (cases a; cases b; simp add: holds_defs)
qed

lemma all_hold_swap: "all_hold coll h [x, y] r \<longleftrightarrow> all_hold coll h [y, x] r"
  by (auto simp: all_hold_def)

lemma entries_Some:
  assumes "pairs_ok t db"
  shows "entries t db k = Some r \<longleftrightarrow> r \<in> set (db_rows db t) \<and> row_key r = k"
proof
  assume "entries t db k = Some r"
  then show "r \<in> set (db_rows db t) \<and> row_key r = k"
    by (auto simp: entries_def find_Some_iff)
next
  assume r: "r \<in> set (db_rows db t) \<and> row_key r = k"
  then obtain r' where r': "entries t db k = Some r'"
    by (cases "entries t db k") (auto simp: entries_def find_None_iff)
  then have "r' \<in> set (db_rows db t)" "row_key r' = k" by (auto simp: entries_def find_Some_iff)
  then have "r' = r" using r assms inj_onD [of row_key "set (db_rows db t)" r' r]
    by (simp add: pairs_ok_def distinct_map)
  with r' show "entries t db k = Some r" by simp
qed

lemma entries_None: "entries t db k = None \<longleftrightarrow> (\<forall>r \<in> set (db_rows db t). row_key r \<noteq> k)"
  by (auto simp: entries_def find_None_iff)

lemma filter_one: "distinct (map f xs) \<Longrightarrow> find (\<lambda>y. f y = k) xs = Some x \<Longrightarrow> filter (\<lambda>y. f y = k) xs = [x]"
proof (induction xs)
  case (Cons a xs)
  show ?case
  proof (cases "f a = k")
    case True
    then have "\<forall>y \<in> set xs. f y \<noteq> k" using Cons.prems(1) by (auto simp: image_iff)
    then have "filter (\<lambda>y. f y = k) xs = []" by (simp add: filter_empty_conv)
    then show ?thesis using True Cons.prems(2) by simp
  qed (use Cons in simp)
qed simp

lemma filter_key:
  assumes "pairs_ok t db"
  shows "filter (\<lambda>r. row_key r = k) (db_rows db t) = (case entries t db k of None \<Rightarrow> [] | Some r \<Rightarrow> [r])"
proof (cases "entries t db k")
  case None
  then have "filter (\<lambda>r. row_key r = k) (db_rows db t) = []" by (simp add: entries_None filter_empty_conv)
  with None show ?thesis by simp
next
  case (Some r)
  with filter_one [of row_key "db_rows db t" k r] assms show ?thesis
    by (simp add: pairs_ok_def entries_def)
qed

text \<open>A query by the key finds the entry.\<close>

lemma select_entry:
  assumes "pair_table t" "pairs_ok t db"
    and "ws = [Eq (fst (key_columns t)) (show_int i), Eq (snd (key_columns t)) (show_int k)] \<or>
      ws = [Eq (snd (key_columns t)) (show_int k), Eq (fst (key_columns t)) (show_int i)]"
  shows "sql_rows coll db (Select cs (Table t) ws) =
    (case entries t db (key i k) of None \<Rightarrow> [] | Some r \<Rightarrow> [project (schema t) cs r])"
proof -
  have "all_hold coll (schema t) ws r \<longleftrightarrow> row_key r = key i k" if "r \<in> set (db_rows db t)" for r
    using assms(2,3) that holds_key [OF assms(1)] all_hold_swap by (auto simp: pairs_ok_def key_def)
  then have "filter (all_hold coll (schema t) ws) (db_rows db t) = filter (\<lambda>r. row_key r = key i k) (db_rows db t)"
    by (rule filter_cong [OF refl])
  then show ?thesis by (simp add: sql_rows_def filter_key [OF assms(2)] split: option.split)
qed
text \<open>An insertion adds an entry or is refused; it never replaces one.\<close>

lemma conflict_key:
  assumes "pair_table t" "length r = length (schema t)" "length r' = length (schema t)" "row_key r' = (Some v, Some w)"
  shows "conflict coll t r r' \<longleftrightarrow> row_key r = row_key r'"
proof -
  have k: "unique_keys t = [[fst (key_columns t), snd (key_columns t)]]"
    by (cases rule: pair_tableE [OF assms(1)]; simp add: unique_keys_def key_columns_def)
  have c: "cell (schema t) r' (fst (key_columns t)) = Some v" "cell (schema t) r' (snd (key_columns t)) = Some w"
    using assms(4) by (cases rule: pair_rowE [OF assms(1,3)]; simp add: cell_def key_columns_def row_key_def)+
  have "conflict coll t r r' \<longleftrightarrow> all_hold coll (schema t) [Eq (fst (key_columns t)) v, Eq (snd (key_columns t)) w] r"
    by (simp add: conflict_def k c all_hold_def)
  then show ?thesis using holds_key [OF assms(1,2)] assms(4) by simp
qed

lemma insert_entry:
  assumes "pair_table t" "pairs_ok t db" "row_key (new_row db t cs vs) = key i k"
  shows "sql_change coll db (Insert t cs vs) = (if entries t db (key i k) \<noteq> None then None
    else Some (db\<lparr>db_rows := (db_rows db)(t := db_rows db t @ [new_row db t cs vs]),
                  db_next := (db_next db)(t := db_next db t + 1)\<rparr>))"
proof -
  have "length (new_row db t cs vs) = length (schema t)" by (simp add: new_row_def)
  then have "conflict coll t r (new_row db t cs vs) \<longleftrightarrow> row_key r = key i k" if "r \<in> set (db_rows db t)" for r
    using conflict_key [OF assms(1), of r "new_row db t cs vs"] assms(2,3) that by (simp add: pairs_ok_def key_def)
  then have "list_ex (\<lambda>r. conflict coll t r (new_row db t cs vs)) (db_rows db t) \<longleftrightarrow> entries t db (key i k) \<noteq> None"
    unfolding entries_None list_ex_iff by blast
  then show ?thesis by (simp add: sql_change_def)
qed

lemma find_snoc: "find P (xs @ [r]) = (case find P xs of None \<Rightarrow> if P r then Some r else None | Some x \<Rightarrow> Some x)"
  by (induction xs) auto

lemma entries_after_insert:
  assumes "db_rows db' t = db_rows db t @ [r]" "entries t db (row_key r) = None"
  shows "entries t db' = (entries t db)(row_key r \<mapsto> r)"
proof
  fix k
  show "entries t db' k = ((entries t db)(row_key r \<mapsto> r)) k"
    using assms(2) by (cases "k = row_key r")
      (auto simp: entries_def assms(1) find_snoc split: option.split)
qed

lemma pairs_ok_insert:
  assumes "pairs_ok t db" "db_rows db' t = db_rows db t @ [r]" "entries t db (row_key r) = None" "length r = length (schema t)"
  shows "pairs_ok t db'"
  using assms by (auto simp: pairs_ok_def entries_None)

text \<open>An update by the key changes the other columns of that entry.\<close>

lemma set_cells_length [simp]: "length r = length h \<Longrightarrow> length (set_cells h xs r) = length h"
  by (simp add: set_cells_def)

lemma set_cells_key:
  assumes "pair_table t" "length r = length (schema t)"
    and "fst (key_columns t) \<notin> fst ` set xs" "snd (key_columns t) \<notin> fst ` set xs"
  shows "row_key (set_cells (schema t) xs r) = row_key r"
proof -
  have "map_of xs (fst (key_columns t)) = None" "map_of xs (snd (key_columns t)) = None"
    using assms(3,4) by (simp_all add: map_of_eq_None_iff)
  then show ?thesis
    by (cases rule: pair_rowE [OF assms(1,2)]; simp add: set_cells_def row_key_def key_columns_def)
qed

lemma update_rows:
  assumes "pair_table t" "pairs_ok t db"
    and "ws = [Eq (fst (key_columns t)) (show_int i), Eq (snd (key_columns t)) (show_int k)]"
    and "sql_change coll db (Update t xs ws) = Some db'"
  shows "db_rows db' t = map (\<lambda>r. if row_key r = key i k then set_cells (schema t) xs r else r) (db_rows db t)"
proof -
  have "all_hold coll (schema t) ws r \<longleftrightarrow> row_key r = key i k" if "r \<in> set (db_rows db t)" for r
    using assms(2) that holds_key [OF assms(1)] by (auto simp: pairs_ok_def key_def assms(3))
  then have "map (\<lambda>r. if all_hold coll (schema t) ws r then set_cells (schema t) xs r else r) (db_rows db t) =
      map (\<lambda>r. if row_key r = key i k then set_cells (schema t) xs r else r) (db_rows db t)"
    by (intro map_cong refl) simp
  then show ?thesis using assms(4) by (auto simp: sql_change_def)
qed

lemma find_map: "find P (map f xs) = map_option f (find (\<lambda>x. P (f x)) xs)"
  by (induction xs) auto

lemma update_entry:
  assumes "pair_table t" "pairs_ok t db"
    and "ws = [Eq (fst (key_columns t)) (show_int i), Eq (snd (key_columns t)) (show_int k)]"
    and "fst (key_columns t) \<notin> fst ` set xs" "snd (key_columns t) \<notin> fst ` set xs"
    and "sql_change coll db (Update t xs ws) = Some db'"
  shows "entries t db' = (entries t db)(key i k := map_option (set_cells (schema t) xs) (entries t db (key i k)))"
    and "pairs_ok t db'"
proof -
  let ?f = "\<lambda>r. if row_key r = key i k then set_cells (schema t) xs r else r"
  have rows: "db_rows db' t = map ?f (db_rows db t)"
    by (rule update_rows [OF assms(1-3,6)])
  have key: "row_key (?f r) = row_key r" if "r \<in> set (db_rows db t)" for r
    using set_cells_key [OF assms(1) _ assms(4,5)] assms(2) that by (simp add: pairs_ok_def)
  have "entries t db' k' = map_option ?f (entries t db k')" for k'
  proof -
    have "find (\<lambda>x. row_key (?f x) = k') (db_rows db t) = find (\<lambda>x. row_key x = k') (db_rows db t)"
      by (rule find_cong) (simp_all add: key)
    then show ?thesis by (simp add: entries_def rows find_map)
  qed
  then show "entries t db' = (entries t db)(key i k := map_option (set_cells (schema t) xs) (entries t db (key i k)))"
  proof (intro ext)
    fix k'
    assume e: "\<And>k'. entries t db' k' = map_option ?f (entries t db k')"
    show "entries t db' k' = ((entries t db)(key i k := map_option (set_cells (schema t) xs) (entries t db (key i k)))) k'"
    proof (cases "entries t db k'")
      case None
      then show ?thesis using e [of k'] by auto
    next
      case (Some r)
      then have "row_key r = k'" using entries_Some [OF assms(2), of k' r] by simp
      then show ?thesis using e [of k'] Some by (cases "k' = key i k") simp_all
    qed
  qed
  have "map row_key (db_rows db' t) = map row_key (db_rows db t)"
    using key by (simp add: rows)
  moreover have "length r = length (schema t)" if "r \<in> set (db_rows db' t)" for r
    using that assms(2) by (auto simp: rows pairs_ok_def)
  ultimately show "pairs_ok t db'" using assms(2) unfolding pairs_ok_def by simp
qed

subsection \<open>Requests\<close>

text \<open>The two tables of requests: a status for a pair, that of a requester and what he asks for.\<close>

definition request_table :: "string \<Rightarrow> bool" where
  "request_table t \<longleftrightarrow> t \<in> {''FriendRequest'', ''GroupRequest''}"

definition status_at :: "string \<Rightarrow> database \<Rightarrow> pair_key \<Rightarrow> string option" where
  "status_at t db k = (case entries t db k of None \<Rightarrow> None | Some r \<Rightarrow> r ! 2)"

lemma entries_cong: "db_rows db t = db_rows db' t \<Longrightarrow> entries t db = entries t db'"
  by (auto simp: entries_def)

lemma status_at_cong: "db_rows db t = db_rows db' t \<Longrightarrow> status_at t db = status_at t db'"
  using entries_cong [of db t db'] by (auto simp: status_at_def)

text \<open>Every request has one of the three states.\<close>

definition requests_ok :: "string \<Rightarrow> database \<Rightarrow> bool" where
  "requests_ok t db \<longleftrightarrow> pairs_ok t db \<and> (\<forall>r \<in> set (db_rows db t). r ! 2 \<in> Some ` set request_states)"

lemma request_table_pair: "request_table t \<Longrightarrow> pair_table t"
  by (auto simp: request_table_def pair_table_def)

definition request_columns :: "string \<Rightarrow> string list" where
  "request_columns t = [fst (key_columns t), snd (key_columns t), ''status'']"

definition at_key :: "string \<Rightarrow> int \<Rightarrow> int \<Rightarrow> cond list" where
  "at_key t i k = [Eq (fst (key_columns t)) (show_int i), Eq (snd (key_columns t)) (show_int k)]"

lemma request_new_row:
  assumes "request_table t"
  shows "new_row db t (request_columns t) [show_int i, show_int k, st] = [Some (show_int i), Some (show_int k), Some st, None]"
  using assms by (auto simp: request_table_def request_columns_def key_columns_def new_row_def new_cell_def
      columns_named_def given_def)

lemma request_set_cells:
  assumes "request_table t" "length r = length (schema t)"
  shows "set_cells (schema t) [(''status'', st), (''handled_at'', h)] r = [r ! 0, r ! 1, Some st, Some h]"
  using assms by (cases rule: pair_rowE [OF request_table_pair [OF assms(1)] assms(2)])
    (auto simp: request_table_def set_cells_def)

lemma status_at_None:
  assumes "requests_ok t db"
  shows "status_at t db k = None \<longleftrightarrow> entries t db k = None"
proof (cases "entries t db k")
  case (Some r)
  then have "r \<in> set (db_rows db t)" using assms entries_Some [of t db k r] by (simp add: requests_ok_def)
  then show ?thesis using assms Some by (auto simp: status_at_def requests_ok_def)
qed (simp add: status_at_def)

lemma status_at_states:
  assumes "requests_ok t db" "status_at t db k = Some st"
  shows "st \<in> set request_states"
proof -
  obtain r where r: "entries t db k = Some r" "r ! 2 = Some st"
    using assms(2) by (cases "entries t db k") (simp_all add: status_at_def)
  then have "r \<in> set (db_rows db t)" using assms(1) entries_Some [of t db k r] by (simp add: requests_ok_def)
  then have "r ! 2 \<in> Some ` set request_states" using assms(1) by (simp add: requests_ok_def)
  with r show ?thesis by auto
qed

lemma insert_request:
  assumes "request_table t" "requests_ok t db" "st \<in> set request_states"
    and "sql_change coll db (Insert t (request_columns t) [show_int i, show_int k, st]) = Some db'"
  shows "status_at t db (key i k) = None" and "status_at t db' = (status_at t db)(key i k \<mapsto> st)" and "requests_ok t db'"
proof -
  let ?r = "[Some (show_int i), Some (show_int k), Some st, None]"
  have p: "pair_table t" "pairs_ok t db"
    using assms(1,2) by (simp_all add: request_table_pair requests_ok_def)
  have r: "new_row db t (request_columns t) [show_int i, show_int k, st] = ?r"
    by (rule request_new_row [OF assms(1)])
  have k: "row_key ?r = key i k" by (simp add: row_key_def key_def)
  have new: "entries t db (key i k) = None" and rows: "db_rows db' t = db_rows db t @ [?r]"
    using assms(4) insert_entry [OF p, of "request_columns t" "[show_int i, show_int k, st]" i k coll] r k
    by (auto split: if_splits)
  show "status_at t db (key i k) = None" using new by (simp add: status_at_def)
  have e: "entries t db' = (entries t db)(key i k \<mapsto> ?r)"
    using entries_after_insert [OF rows] new k by simp
  show "status_at t db' = (status_at t db)(key i k \<mapsto> st)"
    by (rule ext) (simp add: status_at_def e)
  have "length ?r = length (schema t)" using assms(1) by (auto simp: request_table_def)
  with pairs_ok_insert [OF p(2) rows] new k assms(2,3) rows show "requests_ok t db'"
    by (simp add: requests_ok_def)
qed

lemma insert_request_works:
  assumes "request_table t" "requests_ok t db" "status_at t db (key i k) = None"
  shows "sql_change coll db (Insert t (request_columns t) [show_int i, show_int k, st]) \<noteq> None"
  using assms insert_entry [OF request_table_pair [OF assms(1)], of db "request_columns t" "[show_int i, show_int k, st]" i k coll]
  by (simp add: request_new_row row_key_def key_def status_at_None requests_ok_def)

lemma update_request:
  assumes "request_table t" "requests_ok t db" "st \<in> set request_states"
    and "sql_change coll db (Update t [(''status'', st), (''handled_at'', h)] (at_key t i k)) = Some db'"
  shows "status_at t db' = (status_at t db)(key i k := map_option (\<lambda>_. st) (status_at t db (key i k)))"
    and "requests_ok t db'"
proof -
  have p: "pair_table t" "pairs_ok t db"
    using assms(1,2) by (simp_all add: request_table_pair requests_ok_def)
  have c: "fst (key_columns t) \<notin> fst ` set [(''status'', st), (''handled_at'', h)]"
    "snd (key_columns t) \<notin> fst ` set [(''status'', st), (''handled_at'', h)]"
    using assms(1) by (auto simp: request_table_def key_columns_def)
  note u = update_entry [OF p at_key_def c assms(4)]
  have len: "entries t db k' = Some r \<Longrightarrow> length r = length (schema t)" for k' r
    using entries_Some [OF p(2)] p(2) by (simp add: pairs_ok_def)
  show "status_at t db' = (status_at t db)(key i k := map_option (\<lambda>_. st) (status_at t db (key i k)))"
  proof
    fix k'
    show "status_at t db' k' = ((status_at t db)(key i k := map_option (\<lambda>_. st) (status_at t db (key i k)))) k'"
      using status_at_None [OF assms(2), of "key i k"]
      by (cases "entries t db (key i k)")
        (auto simp: status_at_def u(1) request_set_cells [OF assms(1) len] split: option.splits)
  qed
  have "r ! 2 \<in> Some ` set request_states" if "r \<in> set (db_rows db' t)" for r
    using that assms(2,3) request_set_cells [OF assms(1)]
    by (auto simp: update_rows [OF p at_key_def assms(4)] requests_ok_def pairs_ok_def split: if_splits)
  then show "requests_ok t db'" using u(2) by (simp add: requests_ok_def)
qed

lemma select_request:
  assumes "request_table t" "requests_ok t db"
  shows "sql_rows coll db (Select [''status''] (Table t) (at_key t i k)) =
    (case status_at t db (key i k) of None \<Rightarrow> [] | Some st \<Rightarrow> [[Some st]])"
proof -
  have p: "pair_table t" "pairs_ok t db"
    using assms(1,2) by (simp_all add: request_table_pair requests_ok_def)
  have "project (schema t) [''status''] r = [r ! 2]" if "entries t db (key i k) = Some r" for r
  proof -
    have "length r = length (schema t)" using that entries_Some [OF p(2)] p(2) by (simp add: pairs_ok_def)
    from pair_rowE [OF p(1) this] show ?thesis
      using assms(1) by (cases; simp add: request_table_def project_def cell_def split: option.split)
  qed
  then show ?thesis
    using select_entry [OF p, of "at_key t i k" i k coll "[''status'']"] status_at_None [OF assms(2), of "key i k"]
    by (auto simp: at_key_def status_at_def split: option.split)
qed

subsection \<open>Members of a pair table\<close>

lemma insert_pair:
  assumes "pair_table t" "pairs_ok t db" "row_key (new_row db t cs vs) = key i k"
    and "sql_change coll db (Insert t cs vs) = Some db'"
  shows "entries t db (key i k) = None" and "entries t db' = (entries t db)(key i k \<mapsto> new_row db t cs vs)"
    and "pairs_ok t db'"
proof -
  have new: "entries t db (key i k) = None" and rows: "db_rows db' t = db_rows db t @ [new_row db t cs vs]"
    using assms(4) insert_entry [OF assms(1-3), of coll] by (auto split: if_splits)
  show "entries t db (key i k) = None" by (rule new)
  show "entries t db' = (entries t db)(key i k \<mapsto> new_row db t cs vs)"
    using entries_after_insert [OF rows] new assms(3) by simp
  show "pairs_ok t db'"
    using pairs_ok_insert [OF assms(2) rows] new assms(3) by (simp add: new_row_def)
qed

end
