(* ===== verification/Stored.thy ===== *)
theory Stored
  imports ChatService Tables
begin

text \<open>
  The handlers and the tables: which statement of which handler can change which table. The locale
  \<open>sql_database\<close> is the interface to a world that keeps the contract \<open>mysql_runs\<close>; its rules
  follow an operation down to its statements, through the sessions, the remote calls and
  the handlers.
\<close>

subsection \<open>The table a text names\<close>

text \<open>
  The beginning of a text names the table, before the first value; a value can contain anything.
\<close>

lemma c_str_Cons [simp]: "c_str (c # s) = (if c = CHR 0x00 then [] else c # c_str s)"
  by (simp add: c_str_def)

lemma c_str_literal_append: "no_nul a \<Longrightarrow> c_str (a @ b) = a @ c_str b"
  by (induction a) simp_all

lemmas text_defs = text_writes_def writes_def leading.simps plain_char_def quotes_def odd_char_def separator_def
  symbol_def word_token_word word_token_Nil is_digit_def

lemma writes_user:
  "text_writes (sql_user_insert u) t \<Longrightarrow> t = ''User''"
  "text_writes (sql_user_update_state u) t \<Longrightarrow> t = ''User''"
  "text_writes sql_user_reset_state t \<Longrightarrow> t = ''User''"
  by (auto simp: sql_user_insert_def sql_user_update_state_def sql_user_reset_state_def text_defs
      split: option.splits)
lemma writes_friend:
  "text_writes (sql_friend_insert u f) t \<Longrightarrow> t = ''Friend''"
  "text_writes (sql_friend_request_insert u f) t \<Longrightarrow> t = ''FriendRequest''"
  "text_writes (sql_friend_request_update u f st h) t \<Longrightarrow> t = ''FriendRequest''"
  by (auto simp: sql_friend_insert_def sql_friend_request_insert_def sql_friend_request_update_def text_defs
      split: option.splits)

lemma writes_group:
  "text_writes (sql_group_insert g) t \<Longrightarrow> t = ''AllGroup''"
  "text_writes (sql_group_user_insert u i role) t \<Longrightarrow> t = ''GroupUser''"
  "text_writes (sql_group_request_insert u i) t \<Longrightarrow> t = ''GroupRequest''"
  "text_writes (sql_group_request_update u i st h) t \<Longrightarrow> t = ''GroupRequest''"
  by (auto simp: sql_group_insert_def sql_group_user_insert_def sql_group_request_insert_def
      sql_group_request_update_def text_defs split: option.splits)

lemma writes_offline:
  "text_writes (sql_offline_insert u m) t \<Longrightarrow> t = ''OfflineMessage''"
  "text_writes (sql_offline_delete u) t \<Longrightarrow> t = ''OfflineMessage''"
  by (auto simp: sql_offline_insert_def sql_offline_delete_def text_defs split: option.splits)

lemma writes_nothing [simp]:
  "\<not> text_writes (sql_user_by_name n) t" "\<not> text_writes (sql_user_by_id i) t" "\<not> text_writes (sql_user_exists i) t"
  "\<not> text_writes (sql_friend_exists i k) t" "\<not> text_writes (sql_friend_query i) t"
  "\<not> text_writes (sql_friend_request_status i k) t"
  by (auto simp: sql_user_by_name_def sql_user_by_id_def sql_user_exists_def sql_friend_exists_def
      sql_friend_query_def sql_friend_request_status_def text_defs split: option.splits)

lemma writes_nothing_groups [simp]:
  "\<not> text_writes (sql_group_by_name n) t" "\<not> text_writes (sql_group_by_id i) t"
  "\<not> text_writes (sql_group_user_exists i k) t" "\<not> text_writes (sql_group_owner i) t"
  "\<not> text_writes (sql_group_name i) t" "\<not> text_writes (sql_groups_of_user i) t"
  "\<not> text_writes (sql_group_members i) t" "\<not> text_writes (sql_group_other_users i k) t"
  "\<not> text_writes (sql_group_request_status i k) t" "\<not> text_writes (sql_offline_query i) t"
  by (auto simp: sql_group_by_name_def sql_group_by_id_def sql_group_user_exists_def sql_group_owner_def
      sql_group_name_def sql_groups_of_user_def sql_group_members_def sql_group_other_users_def
      sql_group_request_status_def sql_offline_query_def text_defs split: option.splits)

subsection \<open>What is stored\<close>

text \<open>A statement about some tables only.\<close>

definition about :: "string set \<Rightarrow> (database \<Rightarrow> bool) \<Rightarrow> bool" where
  "about T Q \<longleftrightarrow> (\<forall>db db'. (\<forall>t \<in> T. db_rows db t = db_rows db' t) \<longrightarrow> Q db = Q db')"

lemma aboutD: "about T Q \<Longrightarrow> \<forall>t \<in> T. db_rows db t = db_rows db' t \<Longrightarrow> Q db' \<Longrightarrow> Q db"
  unfolding about_def by blast

text \<open>The rules for the control flow alone.\<close>

lemmas flow_rules = keeps_return keeps_gets keeps_bind keeps_if keeps_case_option keeps_case_prod
  keeps_Let keeps_for_each keeps_require keeps_case_status

locale sql_database =
  fixes coll :: "string \<Rightarrow> string" and E :: "'d outside" and tables :: "'d \<Rightarrow> database"
  assumes runs: "mysql_runs coll E tables"
begin

text \<open>\<open>stored Q\<close> is \<open>Q\<close> of the tables in the world, and \<open>stored_svc Q\<close> the same of a node.\<close>

definition stored :: "(database \<Rightarrow> bool) \<Rightarrow> 'd \<Rightarrow> bool" where
  "stored Q d \<longleftrightarrow> Q (tables d)"

definition stored_svc :: "(database \<Rightarrow> bool) \<Rightarrow> 'd svc \<Rightarrow> bool" where
  "stored_svc Q s \<longleftrightarrow> Q (tables (s_world s))"

lemma keeps_update:
  assumes "about T Q" "\<And>t. t \<in> T \<Longrightarrow> \<not> text_writes sql t"
  shows "keeps (stored Q) (run_update E sql)"
proof (rule keepsI)
  fix d assume "stored Q d"
  then have "Q (tables d)" by (simp add: stored_def)
  moreover have "\<forall>t \<in> T. db_rows (tables (snd (sql_update E sql d))) t = db_rows (tables d) t"
    using frame_runs(1) [OF runs] assms(2) by blast
  ultimately show "stored Q (st_after (run_update E sql) d)"
    using aboutD [OF assms(1)] by (simp add: stored_def)
qed

lemma keeps_query:
  assumes "about T Q" "\<And>t. t \<in> T \<Longrightarrow> \<not> text_writes sql t"
  shows "keeps (stored Q) (run_query E sql)"
proof (rule keepsI)
  fix d assume "stored Q d"
  then have "Q (tables d)" by (simp add: stored_def)
  moreover have "\<forall>t \<in> T. db_rows (tables (snd (sql_query E sql d))) t = db_rows (tables d) t"
    using frame_runs(2) [OF runs] assms(2) by blast
  ultimately show "stored Q (st_after (run_query E sql) d)"
    using aboutD [OF assms(1)] by (simp add: stored_def split_beta)
qed

lemma keeps_session: "keeps (stored Q) (DbSession E)"
  by (rule keepsI) (simp add: stored_def DbSession_def mysql_runsD(2) [OF runs])

lemma keeps_session_update:
  assumes "about T Q" "\<And>t. t \<in> T \<Longrightarrow> \<not> text_writes sql t"
  shows "keeps (stored Q) (DbSession_update E c sql)"
proof (rule keepsI)
  fix d assume d: "stored Q d"
  obtain f d' where q: "ext_mysql_query E (c_str sql) d = (f, d')" by fastforce
  have "\<forall>t \<in> T. db_rows (tables d') t = db_rows (tables d) t"
    using mysql_runs_query(1) [OF runs q] assms(2)
    by (auto simp: text_writes_def)
  then show "stored Q (st_after (DbSession_update E c sql) d)"
    using aboutD [OF assms(1), of "tables d'" "tables d"] d
    by (cases c) (simp_all add: DbSession_update_def MySQL_update_def q stored_def)
qed

lemma keeps_rpc: "keeps (stored Q) impl \<Longrightarrow> keeps (stored Q) (call_rpc E m impl)"
proof (rule keepsI)
  fix d assume impl: "keeps (stored Q) impl" and d: "stored Q d"
  then have d': "stored Q (snd (ext_rpc E m d))" by (simp add: stored_def mysql_runsD(3) [OF runs])
  then have "stored Q (st_after impl (snd (ext_rpc E m d)))" using impl by (auto dest: keepsD)
  with d' show "stored Q (st_after (call_rpc E m impl) d)"
    by (cases "fst (ext_rpc E m d)") (simp_all add: call_rpc_def split_beta)
qed

lemma keeps_stored_db: "keeps (stored Q) m \<Longrightarrow> keeps (stored_svc Q) (on_db m)"
  by (rule keepsI) (auto simp: stored_svc_def stored_def dest: keepsD)

lemma tables_send_command:
  "tables (snd (st_after (send_command E c) (r, d))) = tables d"
  using mysql_runsD(5) [OF runs] by (simp add: run_send_command run_wakeupListener enqueueCommand_def)

lemma keeps_stored_redis:
  "keeps (stored_svc Q) (on_rd (Redis_subscribe E u))" "keeps (stored_svc Q) (on_rd (Redis_unsubscribe E u))"
  "keeps (stored_svc Q) (on_rd (Redis_publish E u p))"
proof -
  show "keeps (stored_svc Q) (on_rd (Redis_subscribe E u))" "keeps (stored_svc Q) (on_rd (Redis_unsubscribe E u))"
    by (rule keepsI, simp add: stored_svc_def Redis_subscribe_def Redis_unsubscribe_def tables_send_command)+
  have "tables (snd (st_after (Redis_publish E u p) (r, d))) = tables d" for r d
    using mysql_runsD(4) [OF runs] by (simp add: Redis_publish_def split_beta)
  then show "keeps (stored_svc Q) (on_rd (Redis_publish E u p))"
    by (intro keepsI) (simp add: stored_svc_def)
qed

lemma keeps_stored_node:
  "keeps (stored_svc Q) (sendPayload c p)" "keeps (stored_svc Q) (modify (userConnMap_update f))"
  by (rule keepsI, simp add: stored_svc_def sendPayload_def)+

text \<open>The model classes.\<close>

lemma keeps_user_model:
  assumes "about T Q"
  shows "''User'' \<notin> T \<Longrightarrow> keeps (stored Q) (UserModel_insert E u)"
    and "''User'' \<notin> T \<Longrightarrow> keeps (stored Q) (UserModel_updateState E u)"
    and "''User'' \<notin> T \<Longrightarrow> keeps (stored Q) (UserModel_resetState E)"
    and "keeps (stored Q) (UserModel_query_name E n)" and "keeps (stored Q) (UserModel_query_id E i)"
proof -
  show "keeps (stored Q) (UserModel_query_name E n)" "keeps (stored Q) (UserModel_query_id E i)"
    unfolding UserModel_query_name_def UserModel_query_id_def
    by (intro flow_rules keeps_query [OF assms]; simp)+
  assume "''User'' \<notin> T"
  then have w: "t \<in> T \<Longrightarrow> \<not> text_writes (sql_user_insert u) t" "t \<in> T \<Longrightarrow> \<not> text_writes (sql_user_update_state u) t"
      "t \<in> T \<Longrightarrow> \<not> text_writes sql_user_reset_state t" for t
    using writes_user by blast+
  show "keeps (stored Q) (UserModel_updateState E u)" "keeps (stored Q) (UserModel_resetState E)"
    unfolding UserModel_updateState_def UserModel_resetState_def
    by (intro flow_rules keeps_update [OF assms] w; assumption)+
  show "keeps (stored Q) (UserModel_insert E u)"
    unfolding UserModel_insert_def DbSession_lastInsertId_def
    by (intro flow_rules keeps_session keeps_session_update [OF assms] w; assumption)
qed

lemma keeps_friend_model:
  assumes "about T Q"
  shows "''Friend'' \<notin> T \<Longrightarrow> keeps (stored Q) (FriendModel_insert E u f)"
    and "''FriendRequest'' \<notin> T \<Longrightarrow> keeps (stored Q) (FriendRequestModel_addFriendRequest E u f)"
    and "''FriendRequest'' \<notin> T \<Longrightarrow> keeps (stored Q) (FriendRequestModel_updateRequestStatus E u f st)"
    and "keeps (stored Q) (FriendModel_isUserExist E f)" and "keeps (stored Q) (FriendModel_isFriend E u f)"
    and "keeps (stored Q) (FriendModel_query E u)" and "keeps (stored Q) (FriendRequestModel_isPendingRequest E u f)"
    and "keeps (stored Q) (FriendRequestModel_queryRequestStatus E u f)"
proof -
  show "keeps (stored Q) (FriendModel_isUserExist E f)" "keeps (stored Q) (FriendModel_isFriend E u f)"
    "keeps (stored Q) (FriendModel_query E u)" "keeps (stored Q) (FriendRequestModel_isPendingRequest E u f)"
    "keeps (stored Q) (FriendRequestModel_queryRequestStatus E u f)"
    unfolding FriendModel_isUserExist_def FriendModel_isFriend_def FriendModel_query_def
      FriendRequestModel_isPendingRequest_def FriendRequestModel_queryRequestStatus_def
    by (intro flow_rules keeps_query [OF assms]; simp)+
  show "keeps (stored Q) (FriendModel_insert E u f)" if "''Friend'' \<notin> T"
    unfolding FriendModel_insert_def
    by (intro flow_rules keeps_update [OF assms]) (use that writes_friend(1) in blast)
  show "keeps (stored Q) (FriendRequestModel_addFriendRequest E u f)" if "''FriendRequest'' \<notin> T"
    unfolding FriendRequestModel_addFriendRequest_def
    by (rule keeps_update [OF assms]) (use that writes_friend(2) in blast)
  show "keeps (stored Q) (FriendRequestModel_updateRequestStatus E u f st)" if "''FriendRequest'' \<notin> T"
    unfolding FriendRequestModel_updateRequestStatus_def
    by (intro flow_rules keeps_update [OF assms]; use that writes_friend(3) in blast)
qed

lemma keeps_group_model:
  assumes "about T Q"
  shows "''AllGroup'' \<notin> T \<Longrightarrow> keeps (stored Q) (GroupModel_createGroup E g)"
    and "''GroupUser'' \<notin> T \<Longrightarrow> keeps (stored Q) (GroupModel_addGroup E u i role)"
    and "keeps (stored Q) (GroupModel_isGroupExist_name E n)" and "keeps (stored Q) (GroupModel_isGroupExist_id E i)"
    and "keeps (stored Q) (GroupModel_isUserInGroup E u i)" and "keeps (stored Q) (GroupModel_queryGroupOwnerId E i)"
    and "keeps (stored Q) (GroupModel_queryGroupName E i)" and "keeps (stored Q) (GroupModel_queryGroupUsers E u i)"
    and "keeps (stored Q) (GroupModel_queryGroup E u)"
proof -
  show "keeps (stored Q) (GroupModel_isGroupExist_name E n)" "keeps (stored Q) (GroupModel_isGroupExist_id E i)"
    "keeps (stored Q) (GroupModel_isUserInGroup E u i)" "keeps (stored Q) (GroupModel_queryGroupOwnerId E i)"
    "keeps (stored Q) (GroupModel_queryGroupName E i)" "keeps (stored Q) (GroupModel_queryGroupUsers E u i)"
    unfolding GroupModel_isGroupExist_name_def GroupModel_isGroupExist_id_def GroupModel_isUserInGroup_def
      GroupModel_queryGroupOwnerId_def GroupModel_queryGroupName_def GroupModel_queryGroupUsers_def
    by (intro flow_rules keeps_query [OF assms]; simp)+
  have "keeps (stored Q) (load_members E gs)" for gs
    by (induction gs) (auto intro!: flow_rules keeps_query [OF assms])
  then show "keeps (stored Q) (GroupModel_queryGroup E u)"
    unfolding GroupModel_queryGroup_def by (intro flow_rules keeps_query [OF assms]) simp
  show "keeps (stored Q) (GroupModel_createGroup E g)" if "''AllGroup'' \<notin> T"
    unfolding GroupModel_createGroup_def DbSession_lastInsertId_def
    by (intro flow_rules keeps_session keeps_session_update [OF assms]) (use that writes_group(1) in blast)
  show "keeps (stored Q) (GroupModel_addGroup E u i role)" if "''GroupUser'' \<notin> T"
    unfolding GroupModel_addGroup_def
    by (intro flow_rules keeps_update [OF assms]) (use that writes_group(2) in blast)
qed

lemma keeps_group_request_model:
  assumes "about T Q"
  shows "''GroupRequest'' \<notin> T \<Longrightarrow> keeps (stored Q) (GroupRequestModel_addGroupRequest E u i)"
    and "''GroupRequest'' \<notin> T \<Longrightarrow> keeps (stored Q) (GroupRequestModel_updateRequestStatus E u i st)"
    and "keeps (stored Q) (GroupRequestModel_isPendingRequest E u i)"
    and "keeps (stored Q) (GroupRequestModel_queryRequestStatus E u i)"
proof -
  show "keeps (stored Q) (GroupRequestModel_isPendingRequest E u i)" "keeps (stored Q) (GroupRequestModel_queryRequestStatus E u i)"
    unfolding GroupRequestModel_isPendingRequest_def GroupRequestModel_queryRequestStatus_def
    by (intro flow_rules keeps_query [OF assms]; simp)+
  show "keeps (stored Q) (GroupRequestModel_addGroupRequest E u i)" if "''GroupRequest'' \<notin> T"
    unfolding GroupRequestModel_addGroupRequest_def
    by (rule keeps_update [OF assms]) (use that writes_group(3) in blast)
  show "keeps (stored Q) (GroupRequestModel_updateRequestStatus E u i st)" if "''GroupRequest'' \<notin> T"
    unfolding GroupRequestModel_updateRequestStatus_def
    by (intro flow_rules keeps_update [OF assms]; use that writes_group(4) in blast)
qed

lemma keeps_offline_model:
  assumes "about T Q"
  shows "''OfflineMessage'' \<notin> T \<Longrightarrow> keeps (stored Q) (OfflineMsgModel_insert E u m)"
    and "''OfflineMessage'' \<notin> T \<Longrightarrow> keeps (stored Q) (OfflineMsgModel_remove E u)"
    and "keeps (stored Q) (OfflineMsgModel_query E u)"
proof -
  show "keeps (stored Q) (OfflineMsgModel_query E u)"
    unfolding OfflineMsgModel_query_def by (intro flow_rules keeps_query [OF assms]) simp
  show "keeps (stored Q) (OfflineMsgModel_insert E u m)" if "''OfflineMessage'' \<notin> T"
    unfolding OfflineMsgModel_insert_def
    by (intro flow_rules keeps_update [OF assms]) (use that writes_offline(1) in blast)
  show "keeps (stored Q) (OfflineMsgModel_remove E u)" if "''OfflineMessage'' \<notin> T"
    unfolding OfflineMsgModel_remove_def
    by (intro flow_rules keeps_update [OF assms]) (use that writes_offline(2) in blast)
qed

lemmas keeps_models = keeps_user_model keeps_friend_model keeps_group_model keeps_group_request_model keeps_offline_model

text \<open>The remote calls.\<close>

lemma keeps_offline_rpc:
  assumes "about T Q"
  shows "''OfflineMessage'' \<notin> T \<Longrightarrow> keeps (stored Q) (insertOfflineMessageByRpc E u m)"
    and "''OfflineMessage'' \<notin> T \<Longrightarrow> keeps (stored Q) (removeOfflineMessagesByRpc E u)"
    and "keeps (stored Q) (queryOfflineMessagesByRpc E u)"
  unfolding insertOfflineMessageByRpc_def removeOfflineMessagesByRpc_def queryOfflineMessagesByRpc_def
    OfflineService_insert_def OfflineService_remove_def OfflineService_query_def
  by (intro flow_rules keeps_rpc keeps_offline_model [OF assms]; assumption)+

lemma keeps_friend_rpc:
  assumes "about T Q"
  shows "''Friend'' \<notin> T \<Longrightarrow> keeps (stored Q) (insertFriendByRpc E u f)"
    and "''FriendRequest'' \<notin> T \<Longrightarrow> keeps (stored Q) (addFriendRequestByRpc E u f)"
    and "''FriendRequest'' \<notin> T \<Longrightarrow> keeps (stored Q) (updateRequestStatusByRpc E u f st)"
    and "keeps (stored Q) (isUserExistByRpc E f)" and "keeps (stored Q) (isFriendByRpc E u f)"
    and "keeps (stored Q) (queryFriendsByRpc E u)" and "keeps (stored Q) (isPendingRequestByRpc E u f)"
    and "keeps (stored Q) (queryRequestStatusByRpc E u f)"
  unfolding insertFriendByRpc_def addFriendRequestByRpc_def updateRequestStatusByRpc_def isUserExistByRpc_def
    isFriendByRpc_def queryFriendsByRpc_def isPendingRequestByRpc_def queryRequestStatusByRpc_def
    FriendService_insertFriend_def FriendService_addFriendRequest_def FriendService_updateRequestStatus_def
    FriendService_isUserExist_def FriendService_isFriend_def FriendService_queryFriends_def
    FriendService_isPendingRequest_def FriendService_queryRequestStatus_def
  by (intro flow_rules keeps_rpc keeps_friend_model [OF assms]; assumption)+

text \<open>The handlers.\<close>

lemma keeps_mark:
  assumes "about T Q" "''User'' \<notin> T"
  shows "keeps (stored_svc Q) (markUserOffline E u)"
  unfolding markUserOffline_def
  by (intro flow_rules keeps_stored_redis keeps_stored_db keeps_user_model(2) [OF assms])

lemma keeps_send: "keeps (stored_svc Q) (sendJson E c j)"
  unfolding sendJson_def by (intro flow_rules keeps_stored_node)

lemma keeps_deliver:
  assumes "about T Q" "''OfflineMessage'' \<notin> T"
  shows "keeps (stored_svc Q) (deliverMessage E u p)" and "keeps (stored_svc Q) (deliverDump E u j)"
    and "keeps (stored_svc Q) (handleRedisSubscribeMessage E u p)"
proof -
  show *: "keeps (stored_svc Q) (deliverMessage E u p)" for p
    unfolding deliverMessage_def
    by (intro flow_rules keeps_stored_node keeps_stored_redis keeps_stored_db keeps_offline_rpc(1) [OF assms]
        keeps_user_model(5) [OF assms(1)])
  show "keeps (stored_svc Q) (deliverDump E u j)"
    unfolding deliverDump_def by (intro flow_rules *)
  show "keeps (stored_svc Q) (handleRedisSubscribeMessage E u p)"
    unfolding handleRedisSubscribeMessage_def
    by (intro flow_rules keeps_stored_node keeps_stored_db keeps_offline_rpc(1) [OF assms])
qed

lemma keeps_session_handlers:
  assumes "about T Q" "''User'' \<notin> T"
  shows "keeps (stored_svc Q) (loginout E c js)" and "keeps (stored_svc Q) (reg E c js)"
    and "keeps (stored_svc Q) (clientCloseException E c)"
    and "''OfflineMessage'' \<notin> T \<Longrightarrow> keeps (stored_svc Q) (login E c js)"
proof -
  show "keeps (stored_svc Q) (loginout E c js)"
    unfolding loginout_def by (intro flow_rules keeps_stored_node keeps_mark [OF assms])
  show "keeps (stored_svc Q) (reg E c js)"
    unfolding reg_def by (intro flow_rules keeps_stored_db keeps_send keeps_user_model(1) [OF assms])
  show "keeps (stored_svc Q) (clientCloseException E c)"
    unfolding clientCloseException_def by (intro flow_rules keeps_stored_node keeps_mark [OF assms])
  show "keeps (stored_svc Q) (login E c js)" if "''OfflineMessage'' \<notin> T"
    unfolding login_def login_success_def
    by (intro flow_rules keeps_stored_node keeps_stored_redis keeps_stored_db keeps_send
        keeps_user_model(2) [OF assms] keeps_user_model(4) [OF assms(1)] keeps_offline_rpc(2,3) [OF assms(1)] that
        keeps_friend_rpc(6) [OF assms(1)] keeps_group_model(9) [OF assms(1)])
qed

lemma keeps_chat_handlers:
  assumes "about T Q" "''OfflineMessage'' \<notin> T"
  shows "keeps (stored_svc Q) (oneChat E c js)" and "keeps (stored_svc Q) (groupChat E c js)"
  unfolding oneChat_def groupChat_def
  by (intro flow_rules keeps_stored_db keeps_send keeps_deliver [OF assms] keeps_friend_rpc(5) [OF assms(1)]
      keeps_group_model(7,8) [OF assms(1)])+

lemma keeps_friend_handlers:
  assumes "about T Q" "''OfflineMessage'' \<notin> T" "''FriendRequest'' \<notin> T"
  shows "keeps (stored_svc Q) (addFriend E c js)" and "''Friend'' \<notin> T \<Longrightarrow> keeps (stored_svc Q) (addFriendHandle E c js)"
proof -
  show "keeps (stored_svc Q) (addFriend E c js)"
    unfolding addFriend_def
    by (intro flow_rules keeps_stored_db keeps_send keeps_deliver(2) [OF assms(1,2)] keeps_friend_rpc(2,3) [OF assms(1,3)]
        keeps_friend_rpc(4,5,8) [OF assms(1)])
  show "keeps (stored_svc Q) (addFriendHandle E c js)" if "''Friend'' \<notin> T"
    unfolding addFriendHandle_def
    by (intro flow_rules keeps_stored_db keeps_send keeps_deliver(2) [OF assms(1,2)] keeps_friend_rpc(3) [OF assms(1,3)]
        keeps_friend_rpc(7) [OF assms(1)] keeps_friend_rpc(1) [OF assms(1) that])
qed

lemma keeps_group_handlers:
  assumes "about T Q"
  shows "''AllGroup'' \<notin> T \<Longrightarrow> ''GroupUser'' \<notin> T \<Longrightarrow> keeps (stored_svc Q) (createGroup E c js)"
    and "''OfflineMessage'' \<notin> T \<Longrightarrow> ''GroupRequest'' \<notin> T \<Longrightarrow> keeps (stored_svc Q) (addGroup E c js)"
    and "''OfflineMessage'' \<notin> T \<Longrightarrow> ''GroupRequest'' \<notin> T \<Longrightarrow> ''GroupUser'' \<notin> T \<Longrightarrow>
      keeps (stored_svc Q) (addGroupHandle E c js)"
proof -
  show "keeps (stored_svc Q) (createGroup E c js)" if "''AllGroup'' \<notin> T" "''GroupUser'' \<notin> T"
    unfolding createGroup_def
    by (intro flow_rules keeps_stored_db keeps_send keeps_group_model(1) [OF assms that(1)]
        keeps_group_model(2) [OF assms that(2)] keeps_group_model(3) [OF assms])
  show "keeps (stored_svc Q) (addGroup E c js)" if "''OfflineMessage'' \<notin> T" "''GroupRequest'' \<notin> T"
    unfolding addGroup_def notify_owner_def
    by (intro flow_rules keeps_stored_db keeps_send keeps_deliver(2) [OF assms that(1)]
        keeps_group_model(4,5,6) [OF assms] keeps_group_request_model(1,2) [OF assms that(2)]
        keeps_group_request_model(4) [OF assms])
  show "keeps (stored_svc Q) (addGroupHandle E c js)"
    if "''OfflineMessage'' \<notin> T" "''GroupRequest'' \<notin> T" "''GroupUser'' \<notin> T"
    unfolding addGroupHandle_def
    by (intro flow_rules keeps_stored_db keeps_send keeps_deliver(2) [OF assms that(1)]
        keeps_group_model(2) [OF assms that(3)] keeps_group_request_model(2) [OF assms that(2)]
        keeps_group_request_model(3) [OF assms])
qed

end

subsection \<open>Steps, one by one\<close>

lemma triple_case_status:
  "(q = Ok \<Longrightarrow> triple P a Q) \<Longrightarrow> (q = NotFound \<Longrightarrow> triple P b Q) \<Longrightarrow> (q = DbError \<Longrightarrow> triple P c Q) \<Longrightarrow>
     triple P (case q of Ok \<Rightarrow> a | NotFound \<Rightarrow> b | DbError \<Rightarrow> c) Q"
  by (cases q) auto

context sql_database
begin

lemma triple_update:
  assumes "sends sql st" and "\<And>db db'. Q db \<Longrightarrow> sql_change coll db st = Some db' \<Longrightarrow> Q' db'"
  shows "triple (stored Q) (run_update E sql) (\<lambda>ok. stored (\<lambda>db. Q' db \<or> \<not> ok \<and> Q db))"
proof (rule tripleI)
  fix d assume "stored Q d"
  then show "stored (\<lambda>db. Q' db \<or> \<not> val_of (run_update E sql) d \<and> Q db) (st_after (run_update E sql) d)"
    using update_runs [OF runs assms(1), of d] assms(2) by (auto simp: stored_def changes_def)
qed

text \<open>What a query answers, in terms of the rows the tables have.\<close>

definition answers :: "sql \<Rightarrow> query_result \<Rightarrow> database \<Rightarrow> bool" where
  "answers st r db \<longleftrightarrow> r = rows_result None \<or> (\<exists>xs. r = rows_result (Some xs) \<and> mset xs = mset (sql_rows coll db st))"

lemma triple_query:
  assumes "sends sql st" "is_select st"
  shows "triple (stored Q) (run_query E sql) (\<lambda>r. stored (\<lambda>db. Q db \<and> answers st r db))"
proof (rule tripleI)
  fix d assume "stored Q d"
  moreover obtain rs d' where r: "sql_query E sql d = (rs, d')" by fastforce
  ultimately show "stored (\<lambda>db. Q db \<and> answers st (val_of (run_query E sql) d) db) (st_after (run_query E sql) d)"
    using query_runs [OF runs assms, of d] by (cases rs) (auto simp: stored_def answers_def)
qed

lemma triple_remote:
  assumes "\<And>d. run_state m d = remote E name impl failed d" and "triple (stored Q) impl (\<lambda>x. stored (R x))"
    and "\<And>db. Q db \<Longrightarrow> R failed db" "\<And>x db. R x db \<Longrightarrow> R failed db"
  shows "triple (stored Q) m (\<lambda>x. stored (R x))"
proof (rule tripleI)
  fix d assume "stored Q d"
  moreover obtain fate d' where f: "ext_rpc E name d = (fate, d')" by fastforce
  ultimately have d': "stored Q d'" using mysql_runsD(3) [OF runs, of name d] by (simp add: stored_def)
  then have i: "stored (R (val_of impl d')) (st_after impl d')" by (rule tripleD [OF assms(2)])
  show "stored (R (val_of m d)) (st_after m d)"
    using d' i assms(3,4) by (cases fate) (auto simp: assms(1) remote_def f stored_def)
qed

lemma triple_on_db: "triple (stored Q) m (\<lambda>x. stored (R x)) \<Longrightarrow> triple (stored_svc Q) (on_db m) (\<lambda>x. stored_svc (R x))"
  by (simp add: triple_def stored_def stored_svc_def)

end

text \<open>A world in which nothing fails: the values are known.\<close>

lemma triple_value:
  "triple P m (\<lambda>x s. P' s \<and> x = v) \<Longrightarrow> triple P' (k v) Q \<Longrightarrow> triple P (State_Monad.bind m k) Q"
  by (simp add: triple_def split_beta)

lemma has_row_mset: "r = rows_result (Some xs) \<Longrightarrow> mset xs = mset ys \<Longrightarrow> has_row r \<longleftrightarrow> ys \<noteq> []"
  using mset_eq_length [of xs ys] by (cases xs) (auto simp: has_row_def)

locale reliable_database = sql_database coll E tables
  for coll :: "string \<Rightarrow> string" and E :: "'d outside" and tables :: "'d \<Rightarrow> database" +
  assumes reliable: "no_failures coll E tables"
begin

lemma value_query:
  assumes "sends sql st" "is_select st"
  shows "triple (stored Q) (run_query E sql)
    (\<lambda>r s. stored Q s \<and> (\<exists>xs. r = rows_result (Some xs) \<and> mset xs = mset (sql_rows coll (tables s) st)))"
proof (rule tripleI)
  fix d assume "stored Q d"
  moreover obtain xs where "fst (sql_query E sql d) = Some xs" "mset xs = mset (sql_rows coll (tables d) st)"
    by (rule reliable_query [OF runs reliable assms])
  ultimately show "stored Q (st_after (run_query E sql) d) \<and> (\<exists>xs. val_of (run_query E sql) d = rows_result (Some xs) \<and>
      mset xs = mset (sql_rows coll (tables (st_after (run_query E sql) d)) st))"
    using query_runs(1) [OF runs assms, of d] by (auto simp: stored_def split_beta)
qed

lemma value_update:
  assumes "sends sql st" "\<And>db. Q db \<Longrightarrow> \<exists>db'. sql_change coll db st = Some db' \<and> Q' db'"
  shows "triple (stored Q) (run_update E sql) (\<lambda>ok s. stored Q' s \<and> ok = True)"
proof (rule tripleI)
  fix d assume "stored Q d"
  then obtain db' where "sql_change coll (tables d) st = Some db'" "Q' db'" using assms(2) by (auto simp: stored_def)
  then show "stored Q' (st_after (run_update E sql) d) \<and> val_of (run_update E sql) d = True"
    using reliable_update [OF runs reliable assms(1)] by (simp add: stored_def)
qed

lemma value_remote:
  assumes "\<And>d. run_state m d = remote E name impl failed d" and "triple (stored Q) impl R"
  shows "triple (stored Q) m R"
proof (rule tripleI)
  fix d assume "stored Q d"
  moreover obtain d' where f: "ext_rpc E name d = (RpcAnswered, d')"
    using reliable unfolding no_failures_def by (metis prod.collapse)
  ultimately have "stored Q d'" using mysql_runsD(3) [OF runs, of name d] by (simp add: stored_def)
  then show "R (val_of m d) (st_after m d)"
    using tripleD [OF assms(2)] by (simp add: assms(1) remote_def f)
qed

lemma value_on_db:
  "triple (stored Q) m (\<lambda>x s. stored Q' s \<and> x = v) \<Longrightarrow> triple (stored_svc Q) (on_db m) (\<lambda>x s. stored_svc Q' s \<and> x = v)"
  by (simp add: triple_def stored_def stored_svc_def)

lemma value_return: "triple P m (\<lambda>x s. P' s \<and> R x s) \<Longrightarrow> (\<And>x s. P' s \<Longrightarrow> R x s \<Longrightarrow> g x = v) \<Longrightarrow>
    triple P (State_Monad.bind m (\<lambda>x. return (g x))) (\<lambda>x s. P' s \<and> x = v)"
  by (auto simp: triple_def split_beta)

end

text \<open>The world with a database keeps the contract.\<close>

interpretation mysql_db: sql_database id MySql fst
  by unfold_locales simp

text \<open>The world with a database does not fail.\<close>

interpretation mysql_reliable: reliable_database id MySql fst
  by unfold_locales simp

text \<open>A node on given tables.\<close>

definition mysql_node :: "database \<Rightarrow> mysql svc" where
  "mysql_node db = \<lparr>userConnMap = [], s_redis = Redis_running, s_world = (db, [], 0), s_sent = []\<rparr>"

lemma mysql_node_tables [simp]: "fst (s_world (mysql_node db)) = db"
  by (simp add: mysql_node_def)

end
