(* ===== verification/Requests.thy ===== *)
theory Requests
  imports Stored
begin

text \<open>
  What the two request workflows, of friends and of groups, share: the query for the status of a
  request and what the model classes read from its answer.
\<close>

lemma pending_state: "''pending'' \<in> set request_states"
  by (simp add: request_states_def)

lemma mset_short:
  assumes "mset xs = mset (case x of None \<Rightarrow> [] | Some st \<Rightarrow> [[Some st]])"
  shows "xs = (case x of None \<Rightarrow> [] | Some st \<Rightarrow> [[Some st]])"
  using assms by (cases x) simp_all

text \<open>What a request query makes of the rows.\<close>

definition status_answer :: "string option \<Rightarrow> request_status_result" where
  "status_answer x = (case x of None \<Rightarrow> (NotFound, []) | Some st \<Rightarrow> (Ok, st))"

definition pending_answer :: "string option \<Rightarrow> bool_query_result" where
  "pending_answer x = (if x = Some ''pending'' then (Ok, True) else (NotFound, False))"

lemma status_of_rows:
  assumes "rows_result (Some (case x of None \<Rightarrow> [] | Some st \<Rightarrow> [[Some st]])) = r" "\<And>st. x = Some st \<Longrightarrow> st \<in> set request_states"
  shows "(if \<not> qr_valid r then (DbError, []) else case QueryResult_next r of
        (True, r) \<Rightarrow> (Ok, QueryResult_getString r 0) | (False, _) \<Rightarrow> (NotFound, [])) = status_answer x"
    and "(if \<not> qr_valid r then (DbError, False) else case QueryResult_next r of
        (True, r) \<Rightarrow> if QueryResult_getString r 0 = ''pending'' then (Ok, True) else (NotFound, False)
      | (False, _) \<Rightarrow> (NotFound, False)) = pending_answer x"
proof -
  have "c_str st = st" if "x = Some st" for st
    using assms(2) [OF that] request_state_safe [of st] by (simp add: c_str_no_nul)
  note * = this assms(1) [symmetric]
  show "(if \<not> qr_valid r then (DbError, []) else case QueryResult_next r of
        (True, r) \<Rightarrow> (Ok, QueryResult_getString r 0) | (False, _) \<Rightarrow> (NotFound, [])) = status_answer x"
    "(if \<not> qr_valid r then (DbError, False) else case QueryResult_next r of
        (True, r) \<Rightarrow> if QueryResult_getString r 0 = ''pending'' then (Ok, True) else (NotFound, False)
      | (False, _) \<Rightarrow> (NotFound, False)) = pending_answer x"
    using * by (cases x; simp add: status_answer_def pending_answer_def rows_result_def QueryResult_def
      QueryResult_next_def QueryResult_getString_def column_def)+
qed

text \<open>\<open>heard x r\<close>: the query failed, or \<open>r\<close> is its answer for a request of status \<open>x\<close>.\<close>

definition heard :: "string option \<Rightarrow> query_result \<Rightarrow> bool" where
  "heard x r \<longleftrightarrow> r = rows_result None \<or> rows_result (Some (case x of None \<Rightarrow> [] | Some st \<Rightarrow> [[Some st]])) = r"

lemma heard_status:
  assumes "heard x r" "\<And>st. x = Some st \<Longrightarrow> st \<in> set request_states"
  shows "(if \<not> qr_valid r then (DbError, []) else case QueryResult_next r of
        (True, r) \<Rightarrow> (Ok, QueryResult_getString r 0) | (False, _) \<Rightarrow> (NotFound, [])) \<in> {status_answer x, (DbError, [])}"
    and "(if \<not> qr_valid r then (DbError, False) else case QueryResult_next r of
        (True, r) \<Rightarrow> if QueryResult_getString r 0 = ''pending'' then (Ok, True) else (NotFound, False)
      | (False, _) \<Rightarrow> (NotFound, False)) \<in> {pending_answer x, (DbError, False)}"
  using assms(1) status_of_rows [OF _ assms(2)] by (auto simp: heard_def)

context sql_database
begin

lemma triple_status:
  assumes "sends sql (Select [''status''] (Table t) (at_key t u f))" "request_table t" "\<And>db. Q db \<Longrightarrow> requests_ok t db"
  shows "triple (stored Q) (run_query E sql) (\<lambda>r. stored (\<lambda>db. Q db \<and> heard (status_at t db (key u f)) r))"
proof (rule triple_post [OF triple_query [OF assms(1)]], simp add: is_select_def)
  fix r d
  assume "stored (\<lambda>db. Q db \<and> answers (Select [''status''] (Table t) (at_key t u f)) r db) d"
  then have a: "Q (tables d)" "answers (Select [''status''] (Table t) (at_key t u f)) r (tables d)" by (simp_all add: stored_def)
  then show "stored (\<lambda>db. Q db \<and> heard (status_at t db (key u f)) r) d"
    using mset_short select_request [OF assms(2) assms(3) [OF a(1)], of coll u f]
    by (auto simp: stored_def answers_def heard_def)
qed

end

end
