(* ===== verification/FriendFlow.thy ===== *)
theory FriendFlow
  imports Requests Sessions
begin

text \<open>
  The friend workflow of \<open>src/server/chatservice.cpp\<close> on the tables \<open>FriendRequest\<close> and
  \<open>Friend\<close>: the state machine of a request, what its steps do when anything may fail, and the
  refinement of an abstract request book when nothing fails and handlers run one after another.
  Handlers that overlap are the subject of \<open>FriendThreads.thy\<close>.
\<close>

subsection \<open>The view\<close>

record friend_book =
  fb_requests :: "pair_key \<Rightarrow> string option"
  fb_friends :: "pair_key set"

definition friend_view :: "database \<Rightarrow> friend_book" where
  "friend_view db = \<lparr>fb_requests = status_at ''FriendRequest'' db, fb_friends = dom (entries ''Friend'' db)\<rparr>"

definition friend_tables :: "database \<Rightarrow> bool" where
  "friend_tables db \<longleftrightarrow> requests_ok ''FriendRequest'' db \<and> pairs_ok ''Friend'' db"

definition known_users :: "database \<Rightarrow> int set" where
  "known_users db = {i. \<exists>r \<in> set (db_rows db ''User''). cell (schema ''User'') r ''id'' = Some (show_int i)}"

text \<open>The friendship of a pair was asked for by one of the two and accepted.\<close>

definition agreed :: "friend_book \<Rightarrow> pair_key \<Rightarrow> bool" where
  "agreed b k \<longleftrightarrow> fb_requests b k = Some ''accepted'' \<or> fb_requests b (prod.swap k) = Some ''accepted''"

definition all_agreed :: "friend_book \<Rightarrow> bool" where
  "all_agreed b \<longleftrightarrow> (\<forall>k \<in> fb_friends b. agreed b k)"

text \<open>What the three statements do to a book.\<close>

definition book_request :: "pair_key \<Rightarrow> friend_book \<Rightarrow> friend_book" where
  "book_request k b = b\<lparr>fb_requests := (fb_requests b)(k \<mapsto> ''pending'')\<rparr>"

definition book_status :: "pair_key \<Rightarrow> string \<Rightarrow> friend_book \<Rightarrow> friend_book" where
  "book_status k st b = b\<lparr>fb_requests := (fb_requests b)(k := map_option (\<lambda>_. st) (fb_requests b k))\<rparr>"

definition book_friend :: "pair_key \<Rightarrow> friend_book \<Rightarrow> friend_book" where
  "book_friend k b = b\<lparr>fb_friends := insert k (fb_friends b)\<rparr>"

text \<open>The statements on the view.\<close>

lemma friend_view_cong:
  assumes "db_rows db ''Friend'' = db_rows db' ''Friend''" "db_rows db ''FriendRequest'' = db_rows db' ''FriendRequest''"
  shows "friend_tables db = friend_tables db'" "friend_view db = friend_view db'"
  using entries_cong [OF assms(1)] status_at_cong [OF assms(2)] assms
  by (simp_all add: friend_tables_def friend_view_def requests_ok_def pairs_ok_def)

lemma about_friends:
  "about {''User'', ''Friend'', ''FriendRequest''} (\<lambda>db. friend_tables db \<and> P (friend_view db) (known_users db))"
  "about {''Friend'', ''FriendRequest''} (\<lambda>db. friend_tables db \<and> R (friend_view db))"
proof -
  have "known_users db = known_users db'" if "db_rows db ''User'' = db_rows db' ''User''" for db db'
    using that by (simp add: known_users_def)
  then show "about {''User'', ''Friend'', ''FriendRequest''} (\<lambda>db. friend_tables db \<and> P (friend_view db) (known_users db))"
    unfolding about_def by (metis friend_view_cong insertI1 insertI2)
  show "about {''Friend'', ''FriendRequest''} (\<lambda>db. friend_tables db \<and> R (friend_view db))"
    unfolding about_def by (metis friend_view_cong insertI1 insertI2)
qed

lemma friend_statements:
  assumes "friend_tables db"
  shows "sql_change coll db (Insert ''FriendRequest'' [''requester_id'', ''target_id'', ''status'']
      [show_int u, show_int f, ''pending'']) = Some db' \<Longrightarrow>
      friend_tables db' \<and> fb_requests (friend_view db) (key u f) = None \<and> friend_view db' = book_request (key u f) (friend_view db)"
    and "st \<in> set request_states \<Longrightarrow> sql_change coll db (Update ''FriendRequest'' [(''status'', st), (''handled_at'', h)]
      [Eq ''requester_id'' (show_int u), Eq ''target_id'' (show_int f)]) = Some db' \<Longrightarrow>
      friend_tables db' \<and> friend_view db' = book_status (key u f) st (friend_view db)"
    and "sql_change coll db (Insert ''Friend'' [] [show_int u, show_int f]) = Some db' \<Longrightarrow>
      friend_tables db' \<and> friend_view db' = book_friend (key u f) (friend_view db)"
proof -
  have p: "requests_ok ''FriendRequest'' db" "pairs_ok ''Friend'' db" "request_table ''FriendRequest''" "pair_table ''Friend''"
    using assms by (simp_all add: friend_tables_def request_table_def pair_table_def)
  have c: "request_columns ''FriendRequest'' = [''requester_id'', ''target_id'', ''status'']"
    "at_key ''FriendRequest'' u f = [Eq ''requester_id'' (show_int u), Eq ''target_id'' (show_int f)]"
    by (simp_all add: request_columns_def at_key_def key_columns_def)
  have e: "target st' \<noteq> Some t \<Longrightarrow> sql_change coll db st' = Some db' \<Longrightarrow>
      entries t db' = entries t db \<and> status_at t db' = status_at t db \<and> pairs_ok t db' = pairs_ok t db \<and>
      requests_ok t db' = requests_ok t db" for st' t
    using change_frame [of coll db st' db' t] entries_cong [of db' t db] status_at_cong [of db' t db]
    by (auto simp: pairs_ok_def requests_ok_def)
  show "friend_tables db' \<and> fb_requests (friend_view db) (key u f) = None \<and> friend_view db' = book_request (key u f) (friend_view db)"
    if s: "sql_change coll db (Insert ''FriendRequest'' [''requester_id'', ''target_id'', ''status'']
      [show_int u, show_int f, ''pending'']) = Some db'"
    using insert_request [OF p(3,1) pending_state, unfolded c, OF s] e [OF _ s, of "''Friend''"] p
    by (simp add: friend_tables_def friend_view_def book_request_def)
  show "friend_tables db' \<and> friend_view db' = book_status (key u f) st (friend_view db)"
    if st: "st \<in> set request_states" and s: "sql_change coll db (Update ''FriendRequest'' [(''status'', st), (''handled_at'', h)]
      [Eq ''requester_id'' (show_int u), Eq ''target_id'' (show_int f)]) = Some db'"
    using update_request [OF p(3,1) st, of coll h u f db', unfolded c, OF s] e [OF _ s, of "''Friend''"] p
    by (simp add: friend_tables_def friend_view_def book_status_def)
  have r: "new_row db ''Friend'' [] [show_int u, show_int f] = [Some (show_int u), Some (show_int f)]"
    by (simp add: new_row_def new_cell_def columns_named_def given_def)
  then have k: "row_key (new_row db ''Friend'' [] [show_int u, show_int f]) = key u f"
    by (simp add: row_key_def key_def)
  show "friend_tables db' \<and> friend_view db' = book_friend (key u f) (friend_view db)"
    if s: "sql_change coll db (Insert ''Friend'' [] [show_int u, show_int f]) = Some db'"
    using insert_pair [OF p(4,2) k s] e [OF _ s, of "''FriendRequest''"] p
    by (simp add: friend_tables_def friend_view_def book_friend_def)
qed

text \<open>The queries on the view.\<close>

lemma friend_queries:
  assumes "friend_tables db"
  shows "sql_rows coll db (Select [''status''] (Table ''FriendRequest'')
      [Eq ''requester_id'' (show_int u), Eq ''target_id'' (show_int f)]) =
      (case fb_requests (friend_view db) (key u f) of None \<Rightarrow> [] | Some st \<Rightarrow> [[Some st]])"
    and "sql_rows coll db (Select [''*''] (Table ''Friend'')
      [Eq ''userid'' (show_int u), Eq ''friendid'' (show_int f)]) = [] \<longleftrightarrow> key u f \<notin> fb_friends (friend_view db)"
    and "sql_rows coll db (Select [''*''] (Table ''User'') [Eq ''id'' (show_int f)]) = [] \<longleftrightarrow> f \<notin> known_users db"
proof -
  have p: "requests_ok ''FriendRequest'' db" "pairs_ok ''Friend'' db" "request_table ''FriendRequest''" "pair_table ''Friend''"
    using assms by (simp_all add: friend_tables_def request_table_def pair_table_def)
  show "sql_rows coll db (Select [''status''] (Table ''FriendRequest'')
      [Eq ''requester_id'' (show_int u), Eq ''target_id'' (show_int f)]) =
      (case fb_requests (friend_view db) (key u f) of None \<Rightarrow> [] | Some st \<Rightarrow> [[Some st]])"
    using select_request [OF p(3,1), of coll u f] by (simp add: friend_view_def at_key_def key_columns_def)
  show "sql_rows coll db (Select [''*''] (Table ''Friend'')
      [Eq ''userid'' (show_int u), Eq ''friendid'' (show_int f)]) = [] \<longleftrightarrow> key u f \<notin> fb_friends (friend_view db)"
    using select_entry [OF p(4,2), of _ u f coll "[''*'']"]
    by (auto simp: friend_view_def key_columns_def split: option.splits)
  have "all_hold coll (schema ''User'') [Eq ''id'' v] r \<longleftrightarrow> cell (schema ''User'') r ''id'' = Some v" for r v
    by (auto simp: all_hold_def same_cell_def same_value_def schema_def split: option.split)
  then show "sql_rows coll db (Select [''*''] (Table ''User'') [Eq ''id'' (show_int f)]) = [] \<longleftrightarrow> f \<notin> known_users db"
    by (auto simp: sql_rows_def filter_empty_conv known_users_def)
qed

subsection \<open>The steps of the workflow when anything may fail\<close>

text \<open>\<open>booked R\<close>: the tables are well formed and \<open>R\<close> holds of the book.\<close>

definition booked :: "(friend_book \<Rightarrow> bool) \<Rightarrow> database \<Rightarrow> bool" where
  "booked R db \<longleftrightarrow> friend_tables db \<and> R (friend_view db)"

lemma about_booked: "about {''Friend'', ''FriendRequest''} (booked R)"
  using about_friends(2) [of R] by (simp add: booked_def [abs_def])

subsection \<open>The calls of the workflow\<close>

lemma request_states_view: "friend_tables db \<Longrightarrow> fb_requests (friend_view db) k = Some st \<Longrightarrow> st \<in> set request_states"
  using status_at_states [of "''FriendRequest''" db k st] by (simp add: friend_tables_def friend_view_def)

context sql_database
begin

lemma triple_friend_status:
  assumes "int32_range u" "int32_range f"
  shows "triple (stored (booked R)) (run_query E (sql_friend_request_status u f))
    (\<lambda>r. stored (booked (\<lambda>b. R b \<and> heard (fb_requests b (key u f)) r)))"
proof -
  have s: "sends (sql_friend_request_status u f) (Select [''status''] (Table ''FriendRequest'') (at_key ''FriendRequest'' u f))"
    using sends_friend_request(2) [OF assms] by (simp add: at_key_def key_columns_def)
  show ?thesis
    by (rule triple_post [OF triple_status [OF s]])
      (auto simp: booked_def friend_tables_def friend_view_def request_table_def stored_def)
qed

lemma triple_queryRequestStatus:
  assumes "int32_range u" "int32_range f"
  shows "triple (stored (booked R)) (queryRequestStatusByRpc E u f)
    (\<lambda>r. stored (booked (\<lambda>b. R b \<and> (r = status_answer (fb_requests b (key u f)) \<or> r = (DbError, [])))))"
proof (rule triple_remote [OF run_queryRequestStatusByRpc], unfold FriendRequestModel_queryRequestStatus_def,
    rule triple_bind [OF triple_friend_status [OF assms]], rule triple_return, goal_cases)
  case (1 r s)
  then show ?case
    using heard_status(1) [of "fb_requests (friend_view (tables s)) (key u f)" r] request_states_view [of "tables s" "key u f"]
    by (simp add: stored_def booked_def del: if_split)
qed (auto simp: booked_def)

lemma triple_isPending:
  assumes "int32_range u" "int32_range f"
  shows "triple (stored (booked R)) (isPendingRequestByRpc E u f)
    (\<lambda>r. stored (booked (\<lambda>b. R b \<and> (r = pending_answer (fb_requests b (key u f)) \<or> r = (DbError, False)))))"
proof (rule triple_remote [OF run_isPendingRequestByRpc], unfold FriendRequestModel_isPendingRequest_def,
    rule triple_bind [OF triple_friend_status [OF assms]], rule triple_return, goal_cases)
  case (1 r s)
  then show ?case
    using heard_status(2) [of "fb_requests (friend_view (tables s)) (key u f)" r] request_states_view [of "tables s" "key u f"]
    by (simp add: stored_def booked_def del: if_split)
qed (auto simp: booked_def)

lemma triple_addFriendRequest:
  assumes "int32_range u" "int32_range f"
    and "\<And>b. R b \<Longrightarrow> fb_requests b (key u f) = None \<Longrightarrow> R' (book_request (key u f) b)"
  shows "triple (stored (booked R)) (addFriendRequestByRpc E u f)
    (\<lambda>ok. stored (booked (\<lambda>b. R' b \<or> \<not> ok \<and> R b)))"
proof (rule triple_remote [OF run_addFriendRequestByRpc])
  have "triple (stored (booked R)) (FriendRequestModel_addFriendRequest E u f) (\<lambda>ok. stored (\<lambda>db. booked R' db \<or> \<not> ok \<and> booked R db))"
    unfolding FriendRequestModel_addFriendRequest_def
    using assms(3) friend_statements(1)
    by (intro triple_update [OF sends_friend_request(1) [OF assms(1,2)]]) (auto simp: booked_def)
  then show "triple (stored (booked R)) (FriendRequestModel_addFriendRequest E u f) (\<lambda>ok. stored (booked (\<lambda>b. R' b \<or> \<not> ok \<and> R b)))"
    by (rule triple_post) (auto simp: stored_def booked_def)
qed (auto simp: booked_def)

lemma triple_updateRequestStatus:
  assumes "int32_range u" "int32_range f" "st \<in> set request_states"
    and "\<And>b. R b \<Longrightarrow> R' (book_status (key u f) st b)"
  shows "triple (stored (booked R)) (updateRequestStatusByRpc E u f st)
    (\<lambda>ok. stored (booked (\<lambda>b. R' b \<or> \<not> ok \<and> R b)))"
proof (rule triple_remote [OF run_updateRequestStatusByRpc])
  have c: "booked R' db'" if "booked R db" "sql_change coll db (Update ''FriendRequest'' [(''status'', st), (''handled_at'', h)]
      [Eq ''requester_id'' (show_int u), Eq ''target_id'' (show_int f)]) = Some db'" for h db db'
    using friend_statements(2) [OF _ assms(3) that(2)] that(1) assms(4) by (simp add: booked_def)
  have "st = ''pending'' \<or> st = ''accepted'' \<or> st = ''rejected''" using assms(3) by (simp add: request_states_def)
  then have "triple (stored (booked R)) (FriendRequestModel_updateRequestStatus E u f st) (\<lambda>ok. stored (\<lambda>db. booked R' db \<or> \<not> ok \<and> booked R db))"
    unfolding FriendRequestModel_updateRequestStatus_def
    by (intro triple_if triple_update [OF sends_friend_request(3) [OF assms(1-3)]]
        triple_update [OF sends_friend_request(4) [OF assms(1-3)]] c) simp_all
  then show "triple (stored (booked R)) (FriendRequestModel_updateRequestStatus E u f st) (\<lambda>ok. stored (booked (\<lambda>b. R' b \<or> \<not> ok \<and> R b)))"
    by (rule triple_post) (auto simp: stored_def booked_def)
qed (auto simp: booked_def)

lemma keeps_insertFriend:
  assumes "int32_range u" "int32_range f" and "\<And>b. R b \<Longrightarrow> R (book_friend (key u f) b)"
  shows "keeps (stored (booked R)) (insertFriendByRpc E u f)"
proof -
  have "triple (stored (booked R)) (run_update E (sql_friend_insert u f)) (\<lambda>ok. stored (\<lambda>db. booked R db \<or> \<not> ok \<and> booked R db))"
    using assms(3) friend_statements(3)
    by (intro triple_update [OF sends_friend(2) [OF assms(1,2)]]) (auto simp: booked_def)
  then have "keeps (stored (booked R)) (run_update E (sql_friend_insert u f))"
    by (intro keeps_triple, elim triple_post) (auto simp: stored_def)
  then show ?thesis
    unfolding insertFriendByRpc_def FriendService_insertFriend_def FriendModel_insert_def
    by (intro flow_rules keeps_rpc)
qed

end

subsection \<open>The workflow refines a book of requests\<close>

text \<open>
  The abstract machine: asking, and answering a request. Asking again after a refusal reopens the
  request; asking for oneself, a stranger or a friend, or again while the request waits, does nothing.
\<close>

definition ask_spec :: "int set \<Rightarrow> int \<Rightarrow> int \<Rightarrow> friend_book \<Rightarrow> friend_book" where
  "ask_spec known u f b = (if u = f \<or> f \<notin> known \<or> key u f \<in> fb_friends b then b
     else case fb_requests b (key u f) of
       None \<Rightarrow> book_request (key u f) b
     | Some st \<Rightarrow> if st = ''rejected'' then book_status (key u f) ''pending'' b else b)"

definition answer_spec :: "int \<Rightarrow> int \<Rightarrow> bool \<Rightarrow> friend_book \<Rightarrow> friend_book" where
  "answer_spec u f accept b = (if fb_requests b (key u f) \<noteq> Some ''pending'' then b
     else if accept then book_friend (key f u) (book_friend (key u f) (book_status (key u f) ''accepted'' b))
     else book_status (key u f) ''rejected'' b)"

fun friend_spec :: "int set \<Rightarrow> svc_event \<Rightarrow> friend_book \<Rightarrow> friend_book" where
  "friend_spec known (Message m c js) b =
     (if m = msg_id ADD_FRIEND_REQUEST then
        (case (int_field js ''userid'', int_field js ''friendid'') of
           (Inr u, Inr f) \<Rightarrow> ask_spec known u f b | _ \<Rightarrow> b)
      else if m = msg_id ADD_FRIEND_HANDLE then
        (case (int_field js ''userid'', int_field js ''friendid'', string_field js ''action'') of
           (Inr u, Inr f, Inr a) \<Rightarrow> answer_spec u f (a = ''accept'') b | _ \<Rightarrow> b)
      else b)"
| "friend_spec known (Closed c) b = b"
| "friend_spec known (FromRedis u p) b = b"

text \<open>The exact contents: the book is \<open>b\<close> and the known users are \<open>known\<close>.\<close>

definition exactly :: "int set \<Rightarrow> friend_book \<Rightarrow> database \<Rightarrow> bool" where
  "exactly known b db \<longleftrightarrow> friend_tables db \<and> friend_view db = b \<and> known_users db = known"

lemma about_exactly: "about {''User'', ''Friend'', ''FriendRequest''} (exactly known b)"
  using about_friends(1) [of "\<lambda>b' k. b' = b \<and> k = known"] by (simp add: exactly_def [abs_def])

context reliable_database
begin

lemma value_isUserExist:
  assumes "int32_range f"
  shows "triple (stored (exactly known b)) (isUserExistByRpc E f) (\<lambda>x s. stored (exactly known b) s \<and> x = (f \<in> known))"
proof (rule value_remote [OF run_isUserExistByRpc])
  show "triple (stored (exactly known b)) (FriendModel_isUserExist E f) (\<lambda>x s. stored (exactly known b) s \<and> x = (f \<in> known))"
    unfolding FriendModel_isUserExist_def
    by (rule value_return [OF value_query [OF sends_user(6) [OF assms]]])
      (auto simp: is_select_def stored_def exactly_def has_row_mset friend_queries(3))
qed

lemma value_isFriend:
  assumes "int32_range u" "int32_range f"
  shows "triple (stored (exactly known b)) (isFriendByRpc E u f) (\<lambda>x s. stored (exactly known b) s \<and> x = (key u f \<in> fb_friends b))"
proof (rule value_remote [OF run_isFriendByRpc])
  show "triple (stored (exactly known b)) (FriendModel_isFriend E u f) (\<lambda>x s. stored (exactly known b) s \<and> x = (key u f \<in> fb_friends b))"
    unfolding FriendModel_isFriend_def
    by (rule value_return [OF value_query [OF sends_friend(1) [OF assms]]])
      (auto simp: is_select_def stored_def exactly_def has_row_mset friend_queries(2))
qed

lemma value_requests:
  assumes "int32_range u" "int32_range f"
  shows "triple (stored (exactly known b)) (queryRequestStatusByRpc E u f)
      (\<lambda>x s. stored (exactly known b) s \<and> x = status_answer (fb_requests b (key u f)))"
    and "triple (stored (exactly known b)) (isPendingRequestByRpc E u f)
      (\<lambda>x s. stored (exactly known b) s \<and> x = pending_answer (fb_requests b (key u f)))"
proof -
  let ?st = "Select [''status''] (Table ''FriendRequest'') [Eq ''requester_id'' (show_int u), Eq ''target_id'' (show_int f)]"
  have r: "rows_result (Some (case fb_requests b (key u f) of None \<Rightarrow> [] | Some st \<Rightarrow> [[Some st]])) = r \<and>
      (\<forall>st. fb_requests b (key u f) = Some st \<longrightarrow> st \<in> set request_states)"
    if "stored (exactly known b) s" "\<exists>xs. r = rows_result (Some xs) \<and> mset xs = mset (sql_rows coll (tables s) ?st)" for r s
    using that mset_short [of _ "fb_requests b (key u f)"] friend_queries(1) [of "tables s" coll u f]
      request_states_view [of "tables s" "key u f"] by (auto simp: stored_def exactly_def)
  note q = value_query [OF sends_friend_request(2) [OF assms], of "exactly known b"]
  show "triple (stored (exactly known b)) (queryRequestStatusByRpc E u f)
      (\<lambda>x s. stored (exactly known b) s \<and> x = status_answer (fb_requests b (key u f)))"
    unfolding FriendRequestModel_queryRequestStatus_def
    by (rule value_remote [OF run_queryRequestStatusByRpc], unfold FriendRequestModel_queryRequestStatus_def,
        rule value_return [OF q], simp add: is_select_def, rule status_of_rows(1)) (use r in blast)+
  show "triple (stored (exactly known b)) (isPendingRequestByRpc E u f)
      (\<lambda>x s. stored (exactly known b) s \<and> x = pending_answer (fb_requests b (key u f)))"
    by (rule value_remote [OF run_isPendingRequestByRpc], unfold FriendRequestModel_isPendingRequest_def,
        rule value_return [OF q], simp add: is_select_def, rule status_of_rows(2)) (use r in blast)+
qed

end

lemma known_users_change:
  "sql_change coll db st = Some db' \<Longrightarrow> target st \<noteq> Some ''User'' \<Longrightarrow> known_users db' = known_users db"
  using change_frame [of coll db st db' "''User''"] by (simp add: known_users_def)

lemma request_statement_works:
  assumes "friend_tables db" "fb_requests (friend_view db) (key u f) = None"
  obtains db' where "sql_change coll db (Insert ''FriendRequest'' [''requester_id'', ''target_id'', ''status'']
      [show_int u, show_int f, ''pending'']) = Some db'"
  using insert_request_works [of "''FriendRequest''" db u f coll "''pending''"] assms
  by (auto simp: friend_tables_def friend_view_def request_table_def request_columns_def key_columns_def)

lemma friend_statement_works:
  assumes "friend_tables db" "key u f \<notin> fb_friends (friend_view db)"
  obtains db' where "sql_change coll db (Insert ''Friend'' [] [show_int u, show_int f]) = Some db'"
proof -
  have "row_key (new_row db ''Friend'' [] [show_int u, show_int f]) = key u f"
    by (simp add: new_row_def new_cell_def columns_named_def given_def row_key_def key_def)
  then show thesis
    using that insert_entry [of "''Friend''" db "[]" "[show_int u, show_int f]" u f coll] assms
    by (auto simp: friend_tables_def friend_view_def pair_table_def domIff)
qed

lemma friend_statement_refused:
  assumes "friend_tables db" "key u f \<in> fb_friends (friend_view db)"
  shows "sql_change coll db (Insert ''Friend'' [] [show_int u, show_int f]) = None"
proof -
  have "row_key (new_row db ''Friend'' [] [show_int u, show_int f]) = key u f"
    by (simp add: new_row_def new_cell_def columns_named_def given_def row_key_def key_def)
  then show ?thesis
    using insert_entry [of "''Friend''" db "[]" "[show_int u, show_int f]" u f coll] assms
    by (auto simp: friend_tables_def friend_view_def pair_table_def)
qed

context reliable_database
begin

lemma value_addFriendRequest:
  assumes "int32_range u" "int32_range f" "fb_requests b (key u f) = None"
  shows "triple (stored (exactly known b)) (addFriendRequestByRpc E u f)
    (\<lambda>ok s. stored (exactly known (book_request (key u f) b)) s \<and> ok = True)"
proof (rule value_remote [OF run_addFriendRequestByRpc], unfold FriendRequestModel_addFriendRequest_def,
    rule value_update [OF sends_friend_request(1) [OF assms(1,2)]])
  fix db assume d: "exactly known b db"
  with assms(3) obtain db' where s: "sql_change coll db (Insert ''FriendRequest'' [''requester_id'', ''target_id'', ''status'']
      [show_int u, show_int f, ''pending'']) = Some db'"
    using request_statement_works [of db u f coll] by (auto simp: exactly_def)
  with d friend_statements(1) [OF _ s] known_users_change [OF s]
  show "\<exists>db'. sql_change coll db (Insert ''FriendRequest'' [''requester_id'', ''target_id'', ''status'']
      [show_int u, show_int f, ''pending'']) = Some db' \<and> exactly known (book_request (key u f) b) db'"
    by (simp add: exactly_def)
qed

lemma value_updateRequestStatus:
  assumes "int32_range u" "int32_range f" "st \<in> set request_states"
  shows "triple (stored (exactly known b)) (updateRequestStatusByRpc E u f st)
    (\<lambda>ok s. stored (exactly known (book_status (key u f) st b)) s \<and> ok = True)"
proof (rule value_remote [OF run_updateRequestStatusByRpc])
  have c: "\<exists>db'. sql_change coll db (Update ''FriendRequest'' [(''status'', st), (''handled_at'', h)]
      [Eq ''requester_id'' (show_int u), Eq ''target_id'' (show_int f)]) = Some db' \<and>
      exactly known (book_status (key u f) st b) db'" if d: "exactly known b db" for h db
  proof -
    obtain db' where s: "sql_change coll db (Update ''FriendRequest'' [(''status'', st), (''handled_at'', h)]
      [Eq ''requester_id'' (show_int u), Eq ''target_id'' (show_int f)]) = Some db'"
      by (simp add: sql_change_def)
    with d friend_statements(2) [OF _ assms(3) s] known_users_change [OF s] show ?thesis by (simp add: exactly_def)
  qed
  have "st = ''pending'' \<or> st = ''accepted'' \<or> st = ''rejected''" using assms(3) by (simp add: request_states_def)
  then show "triple (stored (exactly known b)) (FriendRequestModel_updateRequestStatus E u f st)
      (\<lambda>ok s. stored (exactly known (book_status (key u f) st b)) s \<and> ok = True)"
    unfolding FriendRequestModel_updateRequestStatus_def
    by (intro triple_if value_update [OF sends_friend_request(3) [OF assms]]
        value_update [OF sends_friend_request(4) [OF assms]] c) simp_all
qed

lemma value_insertFriend:
  assumes "int32_range u" "int32_range f"
  shows "triple (stored (exactly known b)) (insertFriendByRpc E u f)
    (\<lambda>x s. stored (exactly known (book_friend (key u f) b)) s \<and> x = ())"
proof (rule tripleI)
  fix d assume "stored (exactly known b) d"
  moreover obtain d' where f: "ext_rpc E ''insertFriend'' d = (RpcAnswered, d')"
    using reliable unfolding no_failures_def by (metis prod.collapse)
  ultimately have d': "exactly known b (tables d')" using mysql_runsD(3) [OF runs, of "''insertFriend''" d] by (simp add: stored_def)
  have a: "st_after (insertFriendByRpc E u f) d = snd (sql_update E (sql_friend_insert u f) d')"
    by (simp add: insertFriendByRpc_def FriendService_insertFriend_def FriendModel_insert_def call_rpc_def f split_beta)
  have "exactly known (book_friend (key u f) b) (tables (snd (sql_update E (sql_friend_insert u f) d')))"
  proof (cases "key u f \<in> fb_friends b")
    case True
    then have "sql_change coll (tables d') (Insert ''Friend'' [] [show_int u, show_int f]) = None"
      using d' friend_statement_refused by (simp add: exactly_def)
    with update_runs [OF runs sends_friend(2) [OF assms], of d']
    have "tables (snd (sql_update E (sql_friend_insert u f) d')) = tables d'" by (simp add: changes_def)
    moreover have "book_friend (key u f) b = b" using True by (simp add: book_friend_def insert_absorb)
    ultimately show ?thesis using d' by simp
  next
    case False
    then obtain db' where s: "sql_change coll (tables d') (Insert ''Friend'' [] [show_int u, show_int f]) = Some db'"
      using d' friend_statement_works [of "tables d'" u f coll] by (auto simp: exactly_def)
    then show ?thesis
      using reliable_update(2) [OF runs reliable sends_friend(2) [OF assms] s] friend_statements(3) [OF _ s]
        known_users_change [OF s] d' by (simp add: exactly_def)
  qed
  then show "stored (exactly known (book_friend (key u f) b)) (st_after (insertFriendByRpc E u f) d) \<and> val_of (insertFriendByRpc E u f) d = ()"
    by (simp add: a stored_def)
qed

lemma exactly_send: "triple (stored_svc (exactly known b)) (sendJson E c j) (\<lambda>_. stored_svc (exactly known b))"
  by (rule triple_keeps [OF keeps_send])

lemma exactly_deliver: "triple (stored_svc (exactly known b)) (deliverDump E i j) (\<lambda>_. stored_svc (exactly known b))"
  by (rule triple_keeps [OF keeps_deliver(2) [OF about_exactly]]) simp

lemmas exactly_reply = exactly_send exactly_deliver triple_keeps [OF keeps_return]

lemma ask_refines:
  assumes "int_field js ''userid'' = Inr u" "int_field js ''friendid'' = Inr f"
  shows "triple (stored_svc (exactly known b)) (addFriend E c js) (\<lambda>_. stored_svc (exactly known (ask_spec known u f b)))"
proof -
  have r: "int32_range u" "int32_range f" using assms by (auto dest: int_field_range)
  note answered = value_on_db [OF value_isUserExist [OF r(2)]] value_on_db [OF value_isFriend [OF r]]
    value_on_db [OF value_requests(1) [OF r]]
  consider "u = f \<or> f \<notin> known \<or> key u f \<in> fb_friends b" | "u \<noteq> f" "f \<in> known" "key u f \<notin> fb_friends b" by blast
  then show ?thesis
  proof cases
    case 1
    then show ?thesis unfolding addFriend_def assms require.simps
      by (intro triple_if triple_value [OF answered(1)] triple_value [OF answered(2)] exactly_send)
        (auto simp: ask_spec_def intro: exactly_send)
  next
    case 2
    have leaf: "triple (stored_svc (exactly known b)) (case fst (status_answer (fb_requests b (key u f))) of
         DbError \<Rightarrow> sendJson E c j1
       | NotFound \<Rightarrow> State_Monad.bind (on_db (addFriendRequestByRpc E u f)) (\<lambda>ok. if \<not> ok then sendJson E c j2 else deliverDump E f js)
       | Ok \<Rightarrow> if snd (status_answer (fb_requests b (key u f))) = ''pending'' then sendJson E c j3
           else if snd (status_answer (fb_requests b (key u f))) = ''rejected'' then
             State_Monad.bind (on_db (updateRequestStatusByRpc E u f ''pending'')) (\<lambda>ok. if \<not> ok then sendJson E c j4 else deliverDump E f js)
           else return None) (\<lambda>_. stored_svc (exactly known (ask_spec known u f b)))" for j1 j2 j3 j4
    proof (cases "fb_requests b (key u f)")
      case None
      then show ?thesis using 2
        by (simp add: status_answer_def ask_spec_def triple_value [OF value_on_db [OF value_addFriendRequest [OF r]]] exactly_deliver)
    next
      case (Some st)
      then show ?thesis using 2
        by (auto simp: status_answer_def ask_spec_def exactly_reply request_states_def
          intro!: triple_value [OF value_on_db [OF value_updateRequestStatus [OF r]]])
    qed
    show ?thesis unfolding addFriend_def assms require.simps using 2
      by (simp only: if_False simp_thms, intro triple_value [OF answered(1)])
        (simp, intro triple_value [OF answered(2)], simp, rule triple_value [OF answered(3)], rule leaf)
  qed
qed

lemma answer_refines:
  assumes "int_field js ''userid'' = Inr u" "int_field js ''friendid'' = Inr f" "string_field js ''action'' = Inr a"
  shows "triple (stored_svc (exactly known b)) (addFriendHandle E c js)
    (\<lambda>_. stored_svc (exactly known (answer_spec u f (a = ''accept'') b)))"
proof -
  have r: "int32_range u" "int32_range f" using assms by (auto dest: int_field_range)
  note pending = triple_value [OF value_on_db [OF value_requests(2) [OF r]]]
  note update = triple_value [OF value_on_db [OF value_updateRequestStatus [OF r]]]
  note inserts = triple_value [OF value_on_db [OF value_insertFriend [OF r]]] triple_value [OF value_on_db [OF value_insertFriend [OF r(2,1)]]]
  show ?thesis
  proof (cases "fb_requests b (key u f) = Some ''pending''")
    case False
    then show ?thesis unfolding addFriendHandle_def assms require.simps
      by (intro pending) (simp add: pending_answer_def answer_spec_def exactly_send)
  next
    case True
    then show ?thesis unfolding addFriendHandle_def assms require.simps
      by (intro pending) (auto simp: pending_answer_def answer_spec_def request_states_def intro!: update inserts exactly_deliver)
  qed
qed

end

text \<open>The other events leave the book alone, and a friend message that is not well formed does, too.\<close>

lemma getHandler_friend [simp]:
  "getHandler E 8 = addFriend E" "getHandler E 9 = addFriendHandle E"
  by (simp_all add: getHandler_def msgHandlerMap_def)

lemma getHandler_not_friend:
  assumes "m \<noteq> msg_id ADD_FRIEND_REQUEST" "m \<noteq> msg_id ADD_FRIEND_HANDLE"
  shows "getHandler E m \<in> {login E, loginout E, reg E, oneChat E, groupChat E, createGroup E, addGroup E,
    addGroupHandle E, (\<lambda>c js. return None)}"
  using assms by (simp add: getHandler_def msgHandlerMap_def split: option.split)

context sql_database
begin

lemma book_of_others:
  assumes "m \<noteq> msg_id ADD_FRIEND_REQUEST" "m \<noteq> msg_id ADD_FRIEND_HANDLE"
  shows "keeps (stored_svc (booked R)) (getHandler E m c js)"
  using getHandler_not_friend [OF assms, of E]
  by (auto intro: keeps_return keeps_session_handlers [OF about_booked] keeps_chat_handlers [OF about_booked]
      keeps_group_handlers [OF about_booked])

lemma book_of_events: "keeps (stored_svc (booked R)) (clientCloseException E c)"
  "keeps (stored_svc (booked R)) (handleRedisSubscribeMessage E u p)"
  by (rule keeps_session_handlers(3) [OF about_booked] keeps_deliver(3) [OF about_booked]; simp)+

end

lemma malformed_friend_messages:
  "int_field js ''userid'' = Inl e \<Longrightarrow>
     st_after (addFriend E c js) s = s \<and> st_after (addFriendHandle E c js) s = s"
  "int_field js ''friendid'' = Inl e \<Longrightarrow>
     st_after (addFriend E c js) s = s \<and> st_after (addFriendHandle E c js) s = s"
  "string_field js ''action'' = Inl e \<Longrightarrow> st_after (addFriendHandle E c js) s = s"
  unfolding addFriend_def addFriendHandle_def
  by (cases "int_field js ''userid''"; cases "int_field js ''friendid''"; auto)+

context reliable_database
begin

lemma book_after:
  assumes "keeps (stored_svc (booked ((=) (friend_view (tables (s_world s)))))) m" "friend_tables (tables (s_world s))"
  shows "friend_tables (tables (s_world (st_after m s))) \<and>
    friend_view (tables (s_world (st_after m s))) = friend_view (tables (s_world s))"
  using keepsD [OF assms(1), of s] assms(2) by (auto simp: stored_svc_def booked_def)

lemma exact_after:
  assumes "triple (stored_svc (exactly (known_users (tables (s_world s))) (friend_view (tables (s_world s))))) m
      (\<lambda>_. stored_svc (exactly K b))" "friend_tables (tables (s_world s))"
  shows "friend_tables (tables (s_world (st_after m s))) \<and> friend_view (tables (s_world (st_after m s))) = b"
  using tripleD [OF assms(1), of s] assms(2) by (auto simp: stored_svc_def exactly_def)

lemma message_refines:
  assumes "friend_tables (tables (s_world s))"
  shows "friend_tables (tables (s_world (svc_step E (Message m c js) s))) \<and>
    friend_view (tables (s_world (svc_step E (Message m c js) s))) =
      friend_spec (known_users (tables (s_world s))) (Message m c js) (friend_view (tables (s_world s)))"
proof -
  consider "m = msg_id ADD_FRIEND_REQUEST" | "m = msg_id ADD_FRIEND_HANDLE"
    | "m \<noteq> msg_id ADD_FRIEND_REQUEST" "m \<noteq> msg_id ADD_FRIEND_HANDLE" by blast
  then show ?thesis
  proof cases
    case 1
    then show ?thesis
      using exact_after [OF ask_refines assms] malformed_friend_messages(1,2) [of js _ E c s] assms
      by (cases "int_field js ''userid''"; cases "int_field js ''friendid''") simp_all
  next
    case 2
    then show ?thesis
      using exact_after [OF answer_refines assms] malformed_friend_messages [of js _ E c s] assms
      by (cases "int_field js ''userid''"; cases "int_field js ''friendid''"; cases "string_field js ''action''") simp_all
  next
    case 3
    then show ?thesis using book_after [OF book_of_others [OF 3, of _ c js] assms] by simp
  qed
qed

lemma event_refines:
  assumes "friend_tables (tables (s_world s))"
  shows "friend_tables (tables (s_world (svc_step E ev s))) \<and>
    friend_view (tables (s_world (svc_step E ev s))) = friend_spec (known_users (tables (s_world s))) ev (friend_view (tables (s_world s)))"
  using message_refines [OF assms] book_after [OF book_of_events(1) assms] book_after [OF book_of_events(2) assms]
  by (cases ev) simp_all

end

text \<open>
  C7: the friend workflow refines the abstract book. When the database and the remote calls do not
  fail, every event of a node, handled without another between its steps, changes the requests and the friendships exactly as \<open>friend_spec\<close>
  says: asking opens or reopens a request, accepting one that waits closes it and makes both
  directions of the friendship, declining closes it, and everything else, other messages,
  messages with missing fields, the ends of connections and the messages of other nodes,
  changes nothing.
\<close>

theorem friend_workflow_refines:
  assumes "mysql_runs coll E tables" "no_failures coll E tables"
    and "friend_tables (tables (s_world s))"
  shows "friend_view (tables (s_world (svc_step E ev s))) =
      friend_spec (known_users (tables (s_world s))) ev (friend_view (tables (s_world s)))"
  using reliable_database.event_refines [OF reliable_database.intro [OF sql_database.intro [OF assms(1)]
    reliable_database_axioms.intro [OF assms(2)]] assms(3)] by simp

text \<open>Two users, one of whom has asked for the other, and his answer.\<close>

definition asked_database :: database where
  "asked_database = \<lparr>db_rows = (\<lambda>_. [])(''User'' := [user_row 7 ''ann'' ''secret'' ''online'', user_row 9 ''bob'' ''word'' ''online''],
     ''FriendRequest'' := [[Some (show_int 7), Some (show_int 9), Some ''pending'', None]]), db_next = (\<lambda>_. 10)\<rparr>"

definition accept_js :: json where
  "accept_js = JObj [(''msgid'', JInt 9), (''userid'', JInt 7), (''friendid'', JInt 9), (''action'', JStr ''accept'')]"

lemma asked_tables [simp]: "friend_tables asked_database" "booked all_agreed asked_database"
  "fb_requests (friend_view asked_database) (key 7 9) = Some ''pending''"
proof -
  show *: "friend_tables asked_database"
    by (simp add: friend_tables_def requests_ok_def pairs_ok_def asked_database_def request_states_def)
  have f: "fb_friends (friend_view asked_database) = {}"
    by (auto simp: friend_view_def entries_def [abs_def] asked_database_def)
  show "booked all_agreed asked_database" using * f by (simp add: booked_def all_agreed_def)
  show "fb_requests (friend_view asked_database) (key 7 9) = Some ''pending''"
    by (simp add: friend_view_def status_at_def entries_def asked_database_def row_key_def key_def)
qed

lemma accept_fields: "int_field accept_js ''userid'' = Inr 7" "int_field accept_js ''friendid'' = Inr 9"
  "string_field accept_js ''action'' = Inr ''accept''"
  by (simp_all add: accept_js_def int32_range_def)

theorem friend_workflow_refines_witness:
  "fb_friends (friend_view (fst (s_world (svc_step MySql (Message 9 4 accept_js) (mysql_node asked_database))))) \<supseteq> {key 7 9, key 9 7}"
proof -
  have "friend_view (fst (s_world (svc_step MySql (Message 9 4 accept_js) (mysql_node asked_database)))) =
      friend_spec (known_users asked_database) (Message 9 4 accept_js) (friend_view asked_database)"
    using friend_workflow_refines [of id MySql fst "mysql_node asked_database" "Message 9 4 accept_js"] by simp
  then show ?thesis by (simp add: accept_fields answer_spec_def book_friend_def)
qed

end
