(* ===== verification/WriteSets.thy ===== *)
theory WriteSets
  imports Stored Sessions
begin

text \<open>
  Which tables an event can change: the statements of a handler name their tables before the
  first value, so no text a client supplies can lead them to another one.
\<close>

fun may_write :: "svc_event \<Rightarrow> string set" where
  "may_write (Message m c js) =
     (if m \<in> msg_id ` {LOGIN_MSG} then {''User'', ''OfflineMessage''}
      else if m \<in> msg_id ` {LOGINOUT_MSG, REG_MSG} then {''User''}
      else if m \<in> msg_id ` {ONE_CHAT_MSG, GROUP_CHAT_MSG} then {''OfflineMessage''}
      else if m = msg_id ADD_FRIEND_REQUEST then {''FriendRequest'', ''OfflineMessage''}
      else if m = msg_id ADD_FRIEND_HANDLE then {''FriendRequest'', ''Friend'', ''OfflineMessage''}
      else if m = msg_id CREATE_GROUP_MSG then {''AllGroup'', ''GroupUser''}
      else if m = msg_id ADD_GROUP_MSG then {''GroupRequest'', ''OfflineMessage''}
      else if m = msg_id ADD_GROUP_HANDLE then {''GroupRequest'', ''GroupUser'', ''OfflineMessage''}
      else {})"
| "may_write (Closed c) = {''User''}"
| "may_write (FromRedis u p) = {''OfflineMessage''}"

definition rows_are :: "string \<Rightarrow> row list \<Rightarrow> database \<Rightarrow> bool" where
  "rows_are t rs db \<longleftrightarrow> db_rows db t = rs"

lemma about_rows: "about {t} (rows_are t rs)"
  by (simp add: about_def rows_are_def)

text \<open>The kinds that have a handler.\<close>

lemma getHandler_kinds:
  obtains "getHandler E m = login E" "m = msg_id LOGIN_MSG"
    | "getHandler E m = loginout E" "m = msg_id LOGINOUT_MSG"
    | "getHandler E m = reg E" "m = msg_id REG_MSG"
    | "getHandler E m = oneChat E" "m = msg_id ONE_CHAT_MSG"
    | "getHandler E m = groupChat E" "m = msg_id GROUP_CHAT_MSG"
    | "getHandler E m = addFriend E" "m = msg_id ADD_FRIEND_REQUEST"
    | "getHandler E m = addFriendHandle E" "m = msg_id ADD_FRIEND_HANDLE"
    | "getHandler E m = createGroup E" "m = msg_id CREATE_GROUP_MSG"
    | "getHandler E m = addGroup E" "m = msg_id ADD_GROUP_MSG"
    | "getHandler E m = addGroupHandle E" "m = msg_id ADD_GROUP_HANDLE"
    | "getHandler E m = (\<lambda>c js. return None)"
proof (cases "map_of (msgHandlerMap E) m")
  case None
  then have "getHandler E m = (\<lambda>c js. return None)" by (simp add: getHandler_def)
  then show ?thesis by (rule that)
next
  case (Some h)
  then have "getHandler E m = h" "(m, h) \<in> set (msgHandlerMap E)"
    by (simp_all add: getHandler_def map_of_SomeD)
  then show ?thesis unfolding msgHandlerMap_def by (auto intro: that)
qed

context sql_database
begin

lemma rows_after_message:
  assumes "t \<notin> may_write (Message m c js)"
  shows "keeps (stored_svc (rows_are t rs)) (getHandler E m c js)"
proof -
  note k = about_rows [of t rs]
  show ?thesis
    by (cases rule: getHandler_kinds [of E m])
      (use assms in \<open>auto intro!: keeps_return keeps_session_handlers [OF k] keeps_chat_handlers [OF k]
        keeps_friend_handlers [OF k] keeps_group_handlers [OF k]\<close>)
qed

lemma rows_after_event:
  assumes "t \<notin> may_write ev"
  shows "db_rows (tables (s_world (svc_step E ev s))) t = db_rows (tables (s_world s)) t"
proof -
  note k = about_rows [of t "db_rows (tables (s_world s)) t"]
  have "stored_svc (rows_are t (db_rows (tables (s_world s)) t)) (svc_step E ev s)"
  proof (cases ev)
    case (Message m c js)
    then show ?thesis using keepsD [OF rows_after_message, of t m c js _ s] assms
      by (simp add: stored_svc_def rows_are_def)
  next
    case (Closed c)
    then show ?thesis using keepsD [OF keeps_session_handlers(3) [OF k, of c], of s] assms
      by (simp add: stored_svc_def rows_are_def)
  next
    case (FromRedis u p)
    then show ?thesis using keepsD [OF keeps_deliver(3) [OF k, of u p], of s] assms
      by (simp add: stored_svc_def rows_are_def)
  qed
  then show ?thesis by (simp add: stored_svc_def rows_are_def)
qed

end

text \<open>
  C11: an event changes no table but its own. Whatever a client writes into the names, passwords and
  messages it sends, and whatever fails, a table outside \<open>may_write\<close> has the same rows after the
  event: chatting cannot make friends, registering cannot touch a group, and no unknown message
  kind touches anything.
\<close>

theorem events_write_their_tables_only:
  assumes "mysql_runs coll E tables" "t \<notin> may_write ev"
  shows "db_rows (tables (s_world (svc_step E ev s))) t = db_rows (tables (s_world s)) t"
  by (rule sql_database.rows_after_event [OF sql_database.intro [OF assms(1)] assms(2)])

text \<open>A registration whose name is a whole statement about another table.\<close>

definition injecting_js :: json where
  "injecting_js = JObj [(''msgid'', JInt 4), (''name'', JStr (quote_char # '',null); insert into Friend value (7,9); #'')),
     (''password'', JStr ''x'')]"

theorem events_write_their_tables_only_witness:
  "db_rows (fst (s_world (svc_step MySql (Message 4 1 injecting_js) (mysql_node empty_database)))) ''Friend'' = []"
proof -
  have "''Friend'' \<notin> may_write (Message 4 1 injecting_js)" by simp
  from events_write_their_tables_only [OF MySql_runs this, of "mysql_node empty_database"]
  show ?thesis by (simp add: empty_database_def)
qed

end
