(* ===== verification/GroupFlow.thy ===== *)
theory GroupFlow
  imports Requests WriteSets
begin

text \<open>
  The group workflow of \<open>src/server/chatservice.cpp\<close> on the tables \<open>GroupRequest\<close> and
  \<open>GroupUser\<close>: nobody is an ordinary member of a group who did not ask for it, whatever fails. When
  nothing fails, joining a group refines an abstract book of requests and roles (\<open>GroupRefines.thy\<close>).
\<close>

subsection \<open>The view\<close>

text \<open>Requests are keyed by user and group, roles by group and user, as the tables are.\<close>

record group_book =
  gb_requests :: "pair_key \<Rightarrow> string option"
  gb_roles :: "pair_key \<Rightarrow> string option"

definition group_view :: "database \<Rightarrow> group_book" where
  "group_view db = \<lparr>gb_requests = status_at ''GroupRequest'' db, gb_roles = status_at ''GroupUser'' db\<rparr>"

definition group_tables :: "database \<Rightarrow> bool" where
  "group_tables db \<longleftrightarrow> requests_ok ''GroupRequest'' db \<and> pairs_ok ''GroupUser'' db \<and>
     (\<forall>r \<in> set (db_rows db ''GroupUser''). r ! 2 \<noteq> None)"

definition grouped :: "(group_book \<Rightarrow> bool) \<Rightarrow> database \<Rightarrow> bool" where
  "grouped R db \<longleftrightarrow> group_tables db \<and> R (group_view db)"

text \<open>Every ordinary member has a request for the group, whatever became of it.\<close>

definition members_asked :: "group_book \<Rightarrow> bool" where
  "members_asked b \<longleftrightarrow> (\<forall>k. gb_roles b k = Some ''normal'' \<longrightarrow> gb_requests b (prod.swap k) \<noteq> None)"

definition set_request :: "pair_key \<Rightarrow> string option \<Rightarrow> group_book \<Rightarrow> group_book" where
  "set_request k st b = b\<lparr>gb_requests := (gb_requests b)(k := st)\<rparr>"

definition set_role :: "pair_key \<Rightarrow> string \<Rightarrow> group_book \<Rightarrow> group_book" where
  "set_role k role b = b\<lparr>gb_roles := (gb_roles b)(k \<mapsto> role)\<rparr>"

lemma group_view_cong:
  assumes "db_rows db ''GroupRequest'' = db_rows db' ''GroupRequest''" "db_rows db ''GroupUser'' = db_rows db' ''GroupUser''"
  shows "group_tables db = group_tables db'" "group_view db = group_view db'"
  using status_at_cong [OF assms(1)] status_at_cong [OF assms(2)] assms
  by (simp_all add: group_tables_def group_view_def requests_ok_def pairs_ok_def)

lemma about_grouped: "about {''GroupRequest'', ''GroupUser''} (grouped R)"
  unfolding about_def grouped_def by (metis group_view_cong insertI1 insertI2)

lemma asked_request:
  assumes "members_asked b" "gb_requests b k = None \<or> st \<noteq> None"
  shows "members_asked (set_request k st b)"
proof -
  have "gb_requests (set_request k st b) (prod.swap k') \<noteq> None" if "gb_roles b k' = Some ''normal''" for k'
  proof -
    have "gb_requests b (prod.swap k') \<noteq> None" using assms(1) that unfolding members_asked_def by blast
    then show ?thesis using assms(2) by (cases "prod.swap k' = k") (auto simp: set_request_def)
  qed
  then show ?thesis by (simp add: members_asked_def set_request_def)
qed

lemma asked_role:
  "members_asked b \<Longrightarrow> role = ''normal'' \<longrightarrow> gb_requests b (prod.swap k) \<noteq> None \<Longrightarrow> members_asked (set_role k role b)"
  by (auto simp: members_asked_def set_role_def)

text \<open>The statements on the view.\<close>

lemma role_row: "new_row db ''GroupUser'' [] [show_int g, show_int u, role] = [Some (show_int g), Some (show_int u), Some role]"
  by (simp add: new_row_def new_cell_def columns_named_def given_def)

lemma group_statements:
  assumes "group_tables db"
  shows "sql_change coll db (Insert ''GroupRequest'' [''requester_id'', ''group_id'', ''status'']
      [show_int u, show_int g, ''pending'']) = Some db' \<Longrightarrow> group_tables db' \<and>
      gb_requests (group_view db) (key u g) = None \<and> group_view db' = set_request (key u g) (Some ''pending'') (group_view db)"
    and "st \<in> set request_states \<Longrightarrow> sql_change coll db (Update ''GroupRequest'' [(''status'', st), (''handled_at'', h)]
      [Eq ''requester_id'' (show_int u), Eq ''group_id'' (show_int g)]) = Some db' \<Longrightarrow> group_tables db' \<and>
      group_view db' = set_request (key u g) (map_option (\<lambda>_. st) (gb_requests (group_view db) (key u g))) (group_view db)"
    and "sql_change coll db (Insert ''GroupUser'' [] [show_int g, show_int u, role]) = Some db' \<Longrightarrow>
      group_tables db' \<and> gb_roles (group_view db) (key g u) = None \<and> group_view db' = set_role (key g u) role (group_view db)"
proof -
  have p: "requests_ok ''GroupRequest'' db" "pairs_ok ''GroupUser'' db" "request_table ''GroupRequest''" "pair_table ''GroupUser''"
    "\<forall>r \<in> set (db_rows db ''GroupUser''). r ! 2 \<noteq> None"
    using assms by (simp_all add: group_tables_def request_table_def pair_table_def)
  have c: "request_columns ''GroupRequest'' = [''requester_id'', ''group_id'', ''status'']"
    "at_key ''GroupRequest'' u g = [Eq ''requester_id'' (show_int u), Eq ''group_id'' (show_int g)]"
    by (simp_all add: request_columns_def at_key_def key_columns_def)
  have e: "target st' \<noteq> Some t \<Longrightarrow> sql_change coll db st' = Some db' \<Longrightarrow>
      db_rows db' t = db_rows db t \<and> status_at t db' = status_at t db \<and> pairs_ok t db' = pairs_ok t db \<and>
      requests_ok t db' = requests_ok t db" for st' t
    using change_frame [of coll db st' db' t] status_at_cong [of db' t db]
    by (auto simp: pairs_ok_def requests_ok_def)
  show "group_tables db' \<and> gb_requests (group_view db) (key u g) = None \<and>
      group_view db' = set_request (key u g) (Some ''pending'') (group_view db)"
    if s: "sql_change coll db (Insert ''GroupRequest'' [''requester_id'', ''group_id'', ''status'']
      [show_int u, show_int g, ''pending'']) = Some db'"
    using insert_request [OF p(3,1) pending_state, unfolded c, OF s] e [OF _ s, of "''GroupUser''"] p
    by (simp add: group_tables_def group_view_def set_request_def)
  show "group_tables db' \<and>
      group_view db' = set_request (key u g) (map_option (\<lambda>_. st) (gb_requests (group_view db) (key u g))) (group_view db)"
    if st: "st \<in> set request_states" and s: "sql_change coll db (Update ''GroupRequest'' [(''status'', st), (''handled_at'', h)]
      [Eq ''requester_id'' (show_int u), Eq ''group_id'' (show_int g)]) = Some db'"
    using update_request [OF p(3,1) st, of coll h u g db', unfolded c, OF s] e [OF _ s, of "''GroupUser''"] p
    by (simp add: group_tables_def group_view_def set_request_def)
  have k: "row_key (new_row db ''GroupUser'' [] [show_int g, show_int u, role]) = key g u"
    by (simp add: role_row row_key_def key_def)
  show "group_tables db' \<and> gb_roles (group_view db) (key g u) = None \<and> group_view db' = set_role (key g u) role (group_view db)"
    if s: "sql_change coll db (Insert ''GroupUser'' [] [show_int g, show_int u, role]) = Some db'"
  proof -
    note i = insert_pair [OF p(4,2) k s]
    have "db_rows db' ''GroupUser'' = db_rows db ''GroupUser'' @ [[Some (show_int g), Some (show_int u), Some role]]"
      using s by (auto simp: sql_change_def Let_def role_row split: if_splits)
    moreover have "status_at ''GroupUser'' db' = (status_at ''GroupUser'' db)(key g u \<mapsto> role)"
      using i(2) by (auto simp: status_at_def role_row fun_eq_iff)
    moreover have "status_at ''GroupUser'' db (key g u) = None" using i(1) by (simp add: status_at_def)
    ultimately show ?thesis using i(3) e [OF _ s, of "''GroupRequest''"] p
      by (auto simp: group_tables_def group_view_def set_role_def)
  qed
qed

subsection \<open>The steps when anything may fail\<close>

lemma sends_group_status:
  assumes "int32_range u" "int32_range g"
  shows "sends (sql_group_request_status u g) (Select [''status''] (Table ''GroupRequest'') (at_key ''GroupRequest'' u g))"
  using sends_group_request(2) [OF assms] by (simp add: at_key_def key_columns_def)

lemma group_states_view: "group_tables db \<Longrightarrow> gb_requests (group_view db) k = Some st \<Longrightarrow> st \<in> set request_states"
  using status_at_states [of "''GroupRequest''" db k st] by (simp add: group_tables_def group_view_def)

context sql_database
begin

lemma grouped_pre:
  "triple (stored_svc (grouped R)) m Q \<Longrightarrow> (\<And>b. R' b \<Longrightarrow> R b) \<Longrightarrow> triple (stored_svc (grouped R')) m Q"
  by (erule triple_pre) (simp add: stored_svc_def grouped_def)

lemma triple_group_pending:
  assumes "int32_range u" "int32_range g"
  shows "triple (stored (grouped R)) (GroupRequestModel_isPendingRequest E u g)
    (\<lambda>x. stored (grouped (\<lambda>b. R b \<and> (x \<longrightarrow> gb_requests b (key u g) = Some ''pending''))))"
proof (unfold GroupRequestModel_isPendingRequest_def, rule triple_bind [OF triple_status [OF sends_group_status [OF assms]]],
    simp add: request_table_def, simp add: grouped_def group_tables_def, rule triple_return)
  fix r s
  assume a: "stored (\<lambda>db. grouped R db \<and> heard (status_at ''GroupRequest'' db (key u g)) r) s"
  let ?x = "gb_requests (group_view (tables s)) (key u g)"
  have "grouped R (tables s)" "heard ?x r" using a by (simp_all add: stored_def group_view_def)
  moreover from this have "c_str st = st" if "?x = Some st" for st
    using that group_states_view [of "tables s" "key u g" st] request_state_safe [of st] by (simp add: grouped_def c_str_no_nul)
  ultimately show "stored (grouped (\<lambda>b. R b \<and> ((if \<not> qr_valid r then False else case QueryResult_next r of
      (True, r) \<Rightarrow> QueryResult_getString r 0 = ''pending'' | (False, _) \<Rightarrow> False) \<longrightarrow> gb_requests b (key u g) = Some ''pending''))) s"
    by (cases ?x) (auto simp: stored_def grouped_def heard_def rows_result_def QueryResult_def QueryResult_next_def
      QueryResult_getString_def column_def)
qed

lemma keeps_group_update:
  assumes "sends sql st" and "\<And>db db'. grouped R db \<Longrightarrow> sql_change coll db st = Some db' \<Longrightarrow> grouped R db'"
  shows "keeps (stored (grouped R)) (run_update E sql)"
  by (rule keeps_triple, rule triple_post [OF triple_update [OF assms]]) (auto simp: stored_def)

lemma keeps_addGroupRequest:
  assumes "int32_range u" "int32_range g" "\<And>b. R b \<Longrightarrow> gb_requests b (key u g) = None \<Longrightarrow> R (set_request (key u g) (Some ''pending'') b)"
  shows "keeps (stored (grouped R)) (GroupRequestModel_addGroupRequest E u g)"
  unfolding GroupRequestModel_addGroupRequest_def
proof (rule keeps_group_update [OF sends_group_request(1) [OF assms(1,2)]])
  fix db db'
  assume d: "grouped R db" and s: "sql_change coll db (Insert ''GroupRequest'' [''requester_id'', ''group_id'', ''status'']
      [show_int u, show_int g, ''pending'']) = Some db'"
  show "grouped R db'" using group_statements(1) [OF _ s] assms(3) d by (simp add: grouped_def)
qed

lemma keeps_group_status:
  assumes "int32_range u" "int32_range g" "st \<in> set request_states"
    and "\<And>b. R b \<Longrightarrow> R (set_request (key u g) (map_option (\<lambda>_. st) (gb_requests b (key u g))) b)"
  shows "keeps (stored (grouped R)) (GroupRequestModel_updateRequestStatus E u g st)"
proof -
  have c: "grouped R db'" if "grouped R db" "sql_change coll db (Update ''GroupRequest'' [(''status'', st), (''handled_at'', h)]
      [Eq ''requester_id'' (show_int u), Eq ''group_id'' (show_int g)]) = Some db'" for h db db'
    using group_statements(2) [OF _ assms(3) that(2)] that(1) assms(4) by (simp add: grouped_def)
  show ?thesis
    unfolding GroupRequestModel_updateRequestStatus_def
    by (intro keeps_if keeps_return; (rule keeps_group_update [OF sends_group_request(3) [OF assms(1-3)]]
        keeps_group_update [OF sends_group_request(4) [OF assms(1-3)]]; rule c; assumption))
qed

lemma keeps_addMember:
  assumes "int32_range u" "int32_range g" "role \<in> {''creator'', ''normal''}"
    and "\<And>b. R b \<Longrightarrow> gb_roles b (key g u) = None \<Longrightarrow> R (set_role (key g u) role b)"
  shows "keeps (stored (grouped R)) (GroupModel_addGroup E u g role)"
proof -
  have "keeps (stored (grouped R)) (run_update E (sql_group_user_insert u g role))"
  proof (rule keeps_group_update [OF sends_group(4) [OF assms(1-3)]])
    fix db db' assume d: "grouped R db" and s: "sql_change coll db (Insert ''GroupUser'' [] [show_int g, show_int u, role]) = Some db'"
    show "grouped R db'" using group_statements(3) [OF _ s] assms(4) d by (simp add: grouped_def)
  qed
  then show ?thesis unfolding GroupModel_addGroup_def by (intro flow_rules)
qed

end

subsection \<open>Nobody is an ordinary member who did not ask\<close>

context sql_database
begin

lemma grouped_send: "keeps (stored_svc (grouped R)) (sendJson E c j)"
  by (rule keeps_send)

lemma grouped_deliver: "keeps (stored_svc (grouped R)) (deliverDump E i j)"
  by (rule keeps_deliver(2) [OF about_grouped]) simp

lemma grouped_queries:
  "keeps (stored_svc (grouped R)) (on_db (GroupModel_isUserInGroup E u g))" "keeps (stored_svc (grouped R)) (on_db (GroupModel_isGroupExist_id E g))"
  "keeps (stored_svc (grouped R)) (on_db (GroupModel_isGroupExist_name E n))"
  "keeps (stored_svc (grouped R)) (on_db (GroupRequestModel_queryRequestStatus E u g))"
  "keeps (stored_svc (grouped R)) (notify_owner E c js g)"
proof -
  show "keeps (stored_svc (grouped R)) (on_db (GroupModel_isUserInGroup E u g))"
    "keeps (stored_svc (grouped R)) (on_db (GroupModel_isGroupExist_id E g))"
    "keeps (stored_svc (grouped R)) (on_db (GroupModel_isGroupExist_name E n))"
    "keeps (stored_svc (grouped R)) (on_db (GroupRequestModel_queryRequestStatus E u g))"
    by (intro keeps_stored_db keeps_group_model [OF about_grouped] keeps_group_request_model [OF about_grouped])+
  show "keeps (stored_svc (grouped R)) (notify_owner E c js g)"
    unfolding notify_owner_def by (intro flow_rules keeps_stored_db keeps_group_model [OF about_grouped] grouped_send grouped_deliver)
qed

lemma asked_addGroup: "keeps (stored_svc (grouped members_asked)) (addGroup E c js)"
proof -
  have ask: "keeps (stored_svc (grouped members_asked)) (on_db (GroupRequestModel_addGroupRequest E u g))"
    "keeps (stored_svc (grouped members_asked)) (on_db (GroupRequestModel_updateRequestStatus E u g ''pending''))"
    if "int32_range u" "int32_range g" for u g
    by (rule keeps_stored_db, rule keeps_addGroupRequest [OF that] keeps_group_status [OF that pending_state];
        rule asked_request; auto)+
  show ?thesis
    unfolding addGroup_def
    by (intro flow_rules grouped_queries grouped_send ask; rule int_field_range; assumption)
qed

lemma asked_addGroupHandle: "keeps (stored_svc (grouped members_asked)) (addGroupHandle E c js)"
proof -
  have steps: "keeps (stored_svc (grouped (\<lambda>b. members_asked b \<and> gb_requests b (key u g) \<noteq> None)))
      (on_db (GroupRequestModel_updateRequestStatus E u g st))"
    "keeps (stored_svc (grouped (\<lambda>b. members_asked b \<and> gb_requests b (key u g) \<noteq> None))) (on_db (GroupModel_addGroup E u g ''normal''))"
    if r: "int32_range u" "int32_range g" "st \<in> set request_states" for u g st
  proof -
    have 1: "members_asked (set_request (key u g) (map_option (\<lambda>_. st) (gb_requests b (key u g))) b) \<and>
        gb_requests (set_request (key u g) (map_option (\<lambda>_. st) (gb_requests b (key u g))) b) (key u g) \<noteq> None"
      if "members_asked b \<and> gb_requests b (key u g) \<noteq> None" for b
      using that asked_request [of b "key u g" "map_option (\<lambda>_. st) (gb_requests b (key u g))"] by (auto simp: set_request_def)
    have 2: "members_asked (set_role (key g u) ''normal'' b) \<and> gb_requests (set_role (key g u) ''normal'' b) (key u g) \<noteq> None"
      if "members_asked b \<and> gb_requests b (key u g) \<noteq> None" for b
      using that asked_role [of b "''normal''" "key g u"] by (auto simp: set_role_def)
    show "keeps (stored_svc (grouped (\<lambda>b. members_asked b \<and> gb_requests b (key u g) \<noteq> None)))
        (on_db (GroupRequestModel_updateRequestStatus E u g st))"
      by (rule keeps_stored_db, rule keeps_group_status [OF r], rule 1)
    show "keeps (stored_svc (grouped (\<lambda>b. members_asked b \<and> gb_requests b (key u g) \<noteq> None))) (on_db (GroupModel_addGroup E u g ''normal''))"
      by (rule keeps_stored_db, rule keeps_addMember [OF r(1,2)], simp, rule 2)
  qed
  have answer: "triple (stored_svc (grouped (\<lambda>b. members_asked b \<and> (p \<longrightarrow> gb_requests b (key u g) = Some ''pending''))))
     (if p then require (string_field js ''action'') (\<lambda>action. State_Monad.bind
        (if action = ''accept'' then State_Monad.bind (on_db (GroupRequestModel_updateRequestStatus E u g ''accepted''))
           (\<lambda>_. State_Monad.bind (on_db (GroupModel_addGroup E u g ''normal'')) (\<lambda>_. return j1))
         else State_Monad.bind (on_db (GroupRequestModel_updateRequestStatus E u g ''rejected'')) (\<lambda>_. return j2))
        (deliverDump E u)) else sendJson E c j3) (\<lambda>_. stored_svc (grouped members_asked))"
    if r: "int32_range u" "int32_range g" for u g p and j1 j2 j3 :: json
  proof (cases p)
    case True
    let ?P = "\<lambda>b. members_asked b \<and> gb_requests b (key u g) \<noteq> None"
    have "keeps (stored_svc (grouped ?P)) (require (string_field js ''action'') (\<lambda>action. State_Monad.bind
        (if action = ''accept'' then State_Monad.bind (on_db (GroupRequestModel_updateRequestStatus E u g ''accepted''))
           (\<lambda>_. State_Monad.bind (on_db (GroupModel_addGroup E u g ''normal'')) (\<lambda>_. return j1))
         else State_Monad.bind (on_db (GroupRequestModel_updateRequestStatus E u g ''rejected'')) (\<lambda>_. return j2))
        (deliverDump E u)))"
      by (intro flow_rules steps [OF r] steps(2) [OF r pending_state] grouped_deliver) (simp_all add: request_states_def)
    then have "triple (stored_svc (grouped ?P)) (require (string_field js ''action'') (\<lambda>action. State_Monad.bind
        (if action = ''accept'' then State_Monad.bind (on_db (GroupRequestModel_updateRequestStatus E u g ''accepted''))
           (\<lambda>_. State_Monad.bind (on_db (GroupModel_addGroup E u g ''normal'')) (\<lambda>_. return j1))
         else State_Monad.bind (on_db (GroupRequestModel_updateRequestStatus E u g ''rejected'')) (\<lambda>_. return j2))
        (deliverDump E u))) (\<lambda>_. stored_svc (grouped members_asked))"
      by (rule triple_post [OF triple_keeps]) (simp add: stored_svc_def grouped_def)
    then show ?thesis using True by (simp, elim grouped_pre) simp
  next
    case False
    then show ?thesis by (simp add: triple_keeps [OF grouped_send])
  qed
  show ?thesis
    unfolding addGroupHandle_def
    by (intro keeps_require keeps_triple, rule triple_bind [OF triple_on_db [OF triple_group_pending]])
      (assumption | rule answer | erule int_field_range)+
qed

end

lemma createGroup_id: "fst (val_of (GroupModel_createGroup E grp) d) \<Longrightarrow> int32_range (g_id (snd (val_of (GroupModel_createGroup E grp) d)))"
  by (auto simp: GroupModel_createGroup_def split_beta split: if_splits)

context sql_database
begin

lemma asked_createGroup: "keeps (stored_svc (grouped members_asked)) (createGroup E c js)"
proof -
  have created: "triple (stored_svc (grouped members_asked)) (on_db (GroupModel_createGroup E grp))
      (\<lambda>x s. stored_svc (grouped members_asked) s \<and> (fst x \<longrightarrow> int32_range (g_id (snd x))))" for grp
    using keepsD [OF keeps_stored_db [OF keeps_group_model(1) [OF about_grouped]]] createGroup_id [of E]
    by (intro tripleI) simp
  have add: "keeps (stored_svc (grouped members_asked)) (on_db (GroupModel_addGroup E u g ''creator''))"
    if "int32_range u" "int32_range g" for u g
    by (rule keeps_stored_db, rule keeps_addMember [OF that], simp, rule asked_role, assumption, simp)
  have create: "keeps (stored_svc (grouped members_asked)) (State_Monad.bind (on_db (GroupModel_createGroup E grp)) (\<lambda>x.
      if fst x then State_Monad.bind (on_db (GroupModel_addGroup E u (g_id (snd x)) ''creator'')) (\<lambda>_. sendJson E c (j (snd x)))
      else sendJson E c j'))" if "int32_range u" for u grp j j'
  proof (rule keeps_triple, rule triple_bind [OF created], rule triple_fact)
    fix x :: "bool \<times> chat_group"
    assume "fst x \<longrightarrow> int32_range (g_id (snd x))"
    with that have "keeps (stored_svc (grouped members_asked)) (if fst x then State_Monad.bind
        (on_db (GroupModel_addGroup E u (g_id (snd x)) ''creator'')) (\<lambda>_. sendJson E c (j (snd x))) else sendJson E c j')"
      by (intro flow_rules add grouped_send) simp_all
    then show "triple (stored_svc (grouped members_asked)) (if fst x then State_Monad.bind
        (on_db (GroupModel_addGroup E u (g_id (snd x)) ''creator'')) (\<lambda>_. sendJson E c (j (snd x))) else sendJson E c j')
        (\<lambda>_. stored_svc (grouped members_asked))"
      by (rule triple_keeps)
  qed
  show ?thesis
    unfolding createGroup_def
    by (intro keeps_require keeps_bind [OF grouped_queries(3)] keeps_case_status grouped_send create) (erule int_field_range)
qed

lemma asked_step: "stored_svc (grouped members_asked) s \<Longrightarrow> stored_svc (grouped members_asked) (svc_step E ev s)"
proof (induction ev)
  case (Message m c js)
  note k = about_grouped [of members_asked]
  have "keeps (stored_svc (grouped members_asked)) (getHandler E m c js)"
    by (cases rule: getHandler_kinds [of E m])
      (auto intro!: keeps_return asked_createGroup asked_addGroup asked_addGroupHandle keeps_session_handlers [OF k]
        keeps_chat_handlers [OF k] keeps_friend_handlers [OF k])
  then show ?case using Message by (auto dest: keepsD)
next
  case (Closed c)
  then show ?case using keeps_session_handlers(3) [OF about_grouped [of members_asked], of c] by (auto dest: keepsD)
next
  case (FromRedis u p)
  then show ?case using keeps_deliver(3) [OF about_grouped [of members_asked], of u p] by (auto dest: keepsD)
qed

end

text \<open>
  C12: group membership needs a request. After any run of a node, whatever the clients send and
  whatever statements fail, an ordinary member of a group has a request for this group on record,
  and the two tables keep one row for a pair. Only the creator is in a group he did not ask for.
  (More does not hold: the handler inserts the member also when marking the request as accepted has
  failed.)
\<close>

theorem membership_needs_request:
  assumes "mysql_runs coll E tables" "grouped members_asked (tables (s_world s))"
  shows "let db = tables (s_world (svc_run E evs s)) in group_tables db \<and>
    (status_at ''GroupUser'' db (key g u) = Some ''normal'' \<longrightarrow> status_at ''GroupRequest'' db (key u g) \<noteq> None)"
proof -
  note i = sql_database.intro [OF assms(1)]
  have "sql_database.stored_svc tables (grouped members_asked) (svc_run E evs s)"
    using assms(2) sql_database.asked_step [OF i]
    by (intro svc_run_invariant [of "sql_database.stored_svc tables (grouped members_asked)"])
      (simp_all add: sql_database.stored_svc_def [OF i])
  then have "grouped members_asked (tables (s_world (svc_run E evs s)))" by (simp add: sql_database.stored_svc_def [OF i])
  then show ?thesis
    by (auto simp: grouped_def members_asked_def group_view_def Let_def simp del: split_paired_All dest: spec [of _ "key g u"])
qed

text \<open>A group with its creator and a member who asked to join it and was admitted.\<close>

definition group_database :: database where
  "group_database = \<lparr>db_rows = (\<lambda>_. [])(''AllGroup'' := [[Some (show_int 5), Some ''chess'', Some ''every friday'']],
     ''GroupUser'' := [[Some (show_int 5), Some (show_int 7), Some ''creator''], [Some (show_int 5), Some (show_int 9), Some ''normal'']],
     ''GroupRequest'' := [[Some (show_int 9), Some (show_int 5), Some ''accepted'', None]]), db_next = (\<lambda>_. 6)\<rparr>"

lemma group_database_grouped: "grouped members_asked group_database"
proof -
  have "group_tables group_database"
    by (simp add: group_tables_def requests_ok_def pairs_ok_def group_database_def request_states_def row_key_def show_int_eq)
  moreover have "members_asked (group_view group_database)"
    by (auto simp: members_asked_def group_view_def status_at_def entries_def group_database_def row_key_def split: if_splits)
  ultimately show ?thesis by (simp add: grouped_def)
qed

theorem membership_needs_request_witness:
  "let db = fst (s_world (svc_run MySql [Message 3 4 (JObj [(''userid'', JInt 9)]), Closed 4] (mysql_node group_database))) in
    status_at ''GroupUser'' db (key 5 9) = Some ''normal'' \<and> status_at ''GroupRequest'' db (key 9 5) \<noteq> None"
proof -
  let ?db = "fst (s_world (svc_run MySql [Message 3 4 (JObj [(''userid'', JInt 9)]), Closed 4] (mysql_node group_database)))"
  have "db_rows ?db ''GroupUser'' = db_rows group_database ''GroupUser''"
    using mysql_db.rows_after_event [of "''GroupUser''" "Message 3 4 (JObj [(''userid'', JInt 9)])" "mysql_node group_database"]
      mysql_db.rows_after_event [of "''GroupUser''" "Closed 4"] by simp
  then have 1: "status_at ''GroupUser'' ?db = status_at ''GroupUser'' group_database" by (rule status_at_cong)
  have 2: "status_at ''GroupUser'' group_database (key 5 9) = Some ''normal''"
    by (simp add: status_at_def entries_def group_database_def row_key_def key_def show_int_eq)
  with 1 have "status_at ''GroupUser'' ?db (key 5 9) = Some ''normal''" by simp
  with membership_needs_request [OF MySql_runs, of "mysql_node group_database" "[Message 3 4 (JObj [(''userid'', JInt 9)]), Closed 4]" 5 9]
  show ?thesis by (simp add: group_database_grouped Let_def)
qed

end
