(* ===== verification/GroupRefines.thy ===== *)
theory GroupRefines
  imports GroupFlow
begin

text \<open>
  The group workflow when nothing fails: asking to join a group and answering a request, as operations
  on the book of requests and roles.
\<close>

subsection \<open>The abstract machine\<close>

definition known_groups :: "database \<Rightarrow> int set" where
  "known_groups db = {g. \<exists>r \<in> set (db_rows db ''AllGroup''). cell (schema ''AllGroup'') r ''id'' = Some (show_int g)}"

text \<open>
  Asking opens a request or reopens a refused one; asking for a group that does not exist, or as a
  member, or again while the request waits or was accepted, does nothing. Accepting makes an ordinary
  member of a user who has no role in the group yet.
\<close>

definition ask_group :: "int set \<Rightarrow> int \<Rightarrow> int \<Rightarrow> group_book \<Rightarrow> group_book" where
  "ask_group known u g b = (if gb_roles b (key g u) \<noteq> None \<or> g \<notin> known then b
     else case gb_requests b (key u g) of
       None \<Rightarrow> set_request (key u g) (Some ''pending'') b
     | Some st \<Rightarrow> if st = ''rejected'' then set_request (key u g) (Some ''pending'') b else b)"

definition admit :: "int \<Rightarrow> int \<Rightarrow> group_book \<Rightarrow> group_book" where
  "admit u g b = (if gb_roles b (key g u) = None then set_role (key g u) ''normal'' b else b)"

definition answer_group_spec :: "int \<Rightarrow> int \<Rightarrow> bool \<Rightarrow> group_book \<Rightarrow> group_book" where
  "answer_group_spec u g accept b = (if gb_requests b (key u g) \<noteq> Some ''pending'' then b
     else if accept then admit u g (set_request (key u g) (Some ''accepted'') b)
     else set_request (key u g) (Some ''rejected'') b)"

text \<open>The creation of a group is left to the theorem: it may add the creator of a group.\<close>

fun group_spec :: "int set \<Rightarrow> svc_event \<Rightarrow> group_book \<Rightarrow> group_book" where
  "group_spec known (Message m c js) b =
     (if m = msg_id ADD_GROUP_MSG then
        (case (int_field js ''userid'', int_field js ''groupid'') of
           (Inr u, Inr g) \<Rightarrow> ask_group known u g b | _ \<Rightarrow> b)
      else if m = msg_id ADD_GROUP_HANDLE then
        (case (int_field js ''userid'', int_field js ''groupid'', string_field js ''action'') of
           (Inr u, Inr g, Inr a) \<Rightarrow> answer_group_spec u g (a = ''accept'') b | _ \<Rightarrow> b)
      else b)"
| "group_spec known (Closed c) b = b"
| "group_spec known (FromRedis u p) b = b"

definition groups_are :: "int set \<Rightarrow> group_book \<Rightarrow> database \<Rightarrow> bool" where
  "groups_are known b db \<longleftrightarrow> group_tables db \<and> group_view db = b \<and> known_groups db = known"

lemma about_groups_are: "about {''AllGroup'', ''GroupRequest'', ''GroupUser''} (groups_are known b)"
proof -
  have "known_groups db = known_groups db'" if "db_rows db ''AllGroup'' = db_rows db' ''AllGroup''" for db db'
    using that by (simp add: known_groups_def)
  then show ?thesis unfolding about_def groups_are_def by (metis group_view_cong insertI1 insertI2)
qed

lemma known_groups_change:
  "sql_change coll db st = Some db' \<Longrightarrow> target st \<noteq> Some ''AllGroup'' \<Longrightarrow> known_groups db' = known_groups db"
  using change_frame [of coll db st db' "''AllGroup''"] by (simp add: known_groups_def)

subsection \<open>Queries and statements\<close>

lemma group_queries:
  assumes "group_tables db"
  shows "sql_rows coll db (Select [''*''] (Table ''GroupUser'') [Eq ''userid'' (show_int u), Eq ''groupid'' (show_int g)]) = [] \<longleftrightarrow>
      gb_roles (group_view db) (key g u) = None"
    and "sql_rows coll db (Select [''id''] (Table ''AllGroup'') [Eq ''id'' (show_int g)]) = [] \<longleftrightarrow> g \<notin> known_groups db"
    and "sql_rows coll db (Select [''status''] (Table ''GroupRequest'') [Eq ''requester_id'' (show_int u), Eq ''group_id'' (show_int g)]) =
      (case gb_requests (group_view db) (key u g) of None \<Rightarrow> [] | Some st \<Rightarrow> [[Some st]])"
proof -
  have p: "requests_ok ''GroupRequest'' db" "pairs_ok ''GroupUser'' db" "request_table ''GroupRequest''" "pair_table ''GroupUser''"
    "\<forall>r \<in> set (db_rows db ''GroupUser''). r ! 2 \<noteq> None"
    using assms by (simp_all add: group_tables_def request_table_def pair_table_def)
  have "status_at ''GroupUser'' db (key g u) = None \<longleftrightarrow> entries ''GroupUser'' db (key g u) = None"
  proof (cases "entries ''GroupUser'' db (key g u)")
    case (Some r)
    then have "r \<in> set (db_rows db ''GroupUser'')" by (auto simp: entries_def find_Some_iff)
    with p(5) Some show ?thesis by (simp add: status_at_def)
  qed (simp add: status_at_def)
  then show "sql_rows coll db (Select [''*''] (Table ''GroupUser'') [Eq ''userid'' (show_int u), Eq ''groupid'' (show_int g)]) = [] \<longleftrightarrow>
      gb_roles (group_view db) (key g u) = None"
    using select_entry [OF p(4,2), of _ g u coll "[''*'']"] by (auto simp: group_view_def key_columns_def split: option.splits)
  have "all_hold coll (schema ''AllGroup'') [Eq ''id'' v] r \<longleftrightarrow> cell (schema ''AllGroup'') r ''id'' = Some v" for r v
    by (auto simp: all_hold_def same_cell_def same_value_def schema_def split: option.split)
  then show "sql_rows coll db (Select [''id''] (Table ''AllGroup'') [Eq ''id'' (show_int g)]) = [] \<longleftrightarrow> g \<notin> known_groups db"
    by (auto simp: sql_rows_def filter_empty_conv known_groups_def)
  show "sql_rows coll db (Select [''status''] (Table ''GroupRequest'') [Eq ''requester_id'' (show_int u), Eq ''group_id'' (show_int g)]) =
      (case gb_requests (group_view db) (key u g) of None \<Rightarrow> [] | Some st \<Rightarrow> [[Some st]])"
    using select_request [OF p(3,1), of coll u g] by (simp add: group_view_def at_key_def key_columns_def)
qed

lemma group_statements_work:
  assumes "group_tables db"
  shows "gb_requests (group_view db) (key u g) = None \<Longrightarrow>
      \<exists>db'. sql_change coll db (Insert ''GroupRequest'' [''requester_id'', ''group_id'', ''status''] [show_int u, show_int g, ''pending'']) = Some db'"
    and "gb_roles (group_view db) (key g u) = None \<Longrightarrow>
      \<exists>db'. sql_change coll db (Insert ''GroupUser'' [] [show_int g, show_int u, role]) = Some db'"
    and "gb_roles (group_view db) (key g u) \<noteq> None \<Longrightarrow>
      sql_change coll db (Insert ''GroupUser'' [] [show_int g, show_int u, role]) = None"
proof -
  have p: "requests_ok ''GroupRequest'' db" "pairs_ok ''GroupUser'' db" "request_table ''GroupRequest''" "pair_table ''GroupUser''"
    "\<forall>r \<in> set (db_rows db ''GroupUser''). r ! 2 \<noteq> None"
    using assms by (simp_all add: group_tables_def request_table_def pair_table_def)
  have k: "row_key (new_row db ''GroupUser'' [] [show_int g, show_int u, role]) = key g u"
    by (simp add: role_row row_key_def key_def)
  have r: "gb_roles (group_view db) (key g u) = None \<longleftrightarrow> entries ''GroupUser'' db (key g u) = None"
    using group_queries(1) [OF assms, of "\<lambda>x. x" u g] select_entry [OF p(4,2), of _ g u "\<lambda>x. x" "[''*'']"]
    by (auto simp: key_columns_def split: option.splits)
  show "\<exists>db'. sql_change coll db (Insert ''GroupRequest'' [''requester_id'', ''group_id'', ''status''] [show_int u, show_int g, ''pending'']) = Some db'"
    if "gb_requests (group_view db) (key u g) = None"
    using insert_request_works [OF p(3,1), of u g coll "''pending''"] that
    by (auto simp: group_view_def request_columns_def key_columns_def)
  show "\<exists>db'. sql_change coll db (Insert ''GroupUser'' [] [show_int g, show_int u, role]) = Some db'"
    if "gb_roles (group_view db) (key g u) = None"
    using insert_entry [OF p(4,2) k, of coll] that r by auto
  show "sql_change coll db (Insert ''GroupUser'' [] [show_int g, show_int u, role]) = None"
    if "gb_roles (group_view db) (key g u) \<noteq> None"
    using insert_entry [OF p(4,2) k, of coll] that r by auto
qed

lemma exists_answer:
  "r = rows_result (Some xs) \<Longrightarrow> mset xs = mset ys \<Longrightarrow> exists_result r = (if ys = [] then (NotFound, False) else (Ok, True))"
  by (cases xs) (auto simp: exists_result_def rows_result_def QueryResult_def QueryResult_next_def)

lemma pending_of_rows:
  assumes "rows_result (Some (case x of None \<Rightarrow> [] | Some st \<Rightarrow> [[Some st]])) = r" "\<And>st. x = Some st \<Longrightarrow> st \<in> set request_states"
  shows "(if \<not> qr_valid r then False else case QueryResult_next r of
      (True, r) \<Rightarrow> QueryResult_getString r 0 = ''pending'' | (False, _) \<Rightarrow> False) \<longleftrightarrow> x = Some ''pending''"
proof -
  have "c_str st = st" if "x = Some st" for st
    using assms(2) [OF that] request_state_safe [of st] by (simp add: c_str_no_nul)
  then show ?thesis using assms(1) [symmetric]
    by (cases x) (simp_all add: rows_result_def QueryResult_def QueryResult_next_def QueryResult_getString_def column_def)
qed

context reliable_database
begin

lemma value_exists:
  assumes "sends sql st" "is_select st" "\<And>db. groups_are known b db \<Longrightarrow> sql_rows coll db st = [] \<longleftrightarrow> \<not> p"
  shows "triple (stored (groups_are known b)) (State_Monad.bind (run_query E sql) (\<lambda>r. return (exists_result r)))
    (\<lambda>x s. stored (groups_are known b) s \<and> x = (if p then (Ok, True) else (NotFound, False)))"
proof (rule value_return [OF value_query [OF assms(1,2)]])
  fix x s assume s: "stored (groups_are known b) s"
    and "\<exists>xs. x = rows_result (Some xs) \<and> mset xs = mset (sql_rows coll (tables s) st)"
  then obtain xs where "x = rows_result (Some xs)" "mset xs = mset (sql_rows coll (tables s) st)" by blast
  from exists_answer [OF this] show "exists_result x = (if p then (Ok, True) else (NotFound, False))"
    using assms(3) [of "tables s"] s by (simp add: stored_def)
qed

lemma value_group_queries:
  assumes "int32_range u" "int32_range g"
  shows "triple (stored (groups_are known b)) (GroupModel_isGroupExist_id E g)
      (\<lambda>x s. stored (groups_are known b) s \<and> x = (if g \<in> known then (Ok, True) else (NotFound, False)))"
    and "triple (stored (groups_are known b)) (GroupModel_isUserInGroup E u g)
      (\<lambda>x s. stored (groups_are known b) s \<and> x = (if gb_roles b (key g u) \<noteq> None then (Ok, True) else (NotFound, False)))"
  unfolding GroupModel_isGroupExist_id_def GroupModel_isUserInGroup_def
proof -
  have "sql_rows coll db (Select [''id''] (Table ''AllGroup'') [Eq ''id'' (show_int g)]) = [] \<longleftrightarrow> \<not> g \<in> known"
    "sql_rows coll db (Select [''*''] (Table ''GroupUser'') [Eq ''userid'' (show_int u), Eq ''groupid'' (show_int g)]) = [] \<longleftrightarrow>
      \<not> gb_roles b (key g u) \<noteq> None" if "groups_are known b db" for db
    using that group_queries(1,2) [of db coll] by (auto simp: groups_are_def)
  then show "triple (stored (groups_are known b)) (State_Monad.bind (run_query E (sql_group_by_id g)) (\<lambda>r. return (exists_result r)))
      (\<lambda>x s. stored (groups_are known b) s \<and> x = (if g \<in> known then (Ok, True) else (NotFound, False)))"
    "triple (stored (groups_are known b)) (State_Monad.bind (run_query E (sql_group_user_exists u g)) (\<lambda>r. return (exists_result r)))
      (\<lambda>x s. stored (groups_are known b) s \<and> x = (if gb_roles b (key g u) \<noteq> None then (Ok, True) else (NotFound, False)))"
    by (intro value_exists [OF sends_group(2) [OF assms(2)]] value_exists [OF sends_group(5) [OF assms]]; simp add: is_select_def)+
qed

lemma value_group_requests:
  assumes "int32_range u" "int32_range g"
  shows "triple (stored (groups_are known b)) (GroupRequestModel_queryRequestStatus E u g)
      (\<lambda>x s. stored (groups_are known b) s \<and> x = status_answer (gb_requests b (key u g)))"
    and "triple (stored (groups_are known b)) (GroupRequestModel_isPendingRequest E u g)
      (\<lambda>x s. stored (groups_are known b) s \<and> x = (gb_requests b (key u g) = Some ''pending''))"
proof -
  let ?st = "Select [''status''] (Table ''GroupRequest'') [Eq ''requester_id'' (show_int u), Eq ''group_id'' (show_int g)]"
  have r: "rows_result (Some (case gb_requests b (key u g) of None \<Rightarrow> [] | Some st \<Rightarrow> [[Some st]])) = r \<and>
      (\<forall>st. gb_requests b (key u g) = Some st \<longrightarrow> st \<in> set request_states)"
    if "stored (groups_are known b) s" "\<exists>xs. r = rows_result (Some xs) \<and> mset xs = mset (sql_rows coll (tables s) ?st)" for r s
    using that mset_short [of _ "gb_requests b (key u g)"] group_queries(3) [of "tables s" coll u g]
      group_states_view [of "tables s" "key u g"] by (auto simp: stored_def groups_are_def)
  note q = value_query [OF sends_group_request(2) [OF assms], of "groups_are known b"]
  show "triple (stored (groups_are known b)) (GroupRequestModel_queryRequestStatus E u g)
      (\<lambda>x s. stored (groups_are known b) s \<and> x = status_answer (gb_requests b (key u g)))"
    unfolding GroupRequestModel_queryRequestStatus_def
    by (rule value_return [OF q], simp add: is_select_def, rule status_of_rows(1)) (use r in blast)+
  show "triple (stored (groups_are known b)) (GroupRequestModel_isPendingRequest E u g)
      (\<lambda>x s. stored (groups_are known b) s \<and> x = (gb_requests b (key u g) = Some ''pending''))"
    unfolding GroupRequestModel_isPendingRequest_def
    by (rule value_return [OF q], simp add: is_select_def, rule pending_of_rows) (use r in blast)+
qed

lemma value_addGroupRequest:
  assumes "int32_range u" "int32_range g" "gb_requests b (key u g) = None"
  shows "triple (stored (groups_are known b)) (GroupRequestModel_addGroupRequest E u g)
    (\<lambda>ok s. stored (groups_are known (set_request (key u g) (Some ''pending'') b)) s \<and> ok = True)"
proof (unfold GroupRequestModel_addGroupRequest_def, rule value_update [OF sends_group_request(1) [OF assms(1,2)]])
  fix db assume d: "groups_are known b db"
  with assms(3) obtain db' where s: "sql_change coll db (Insert ''GroupRequest'' [''requester_id'', ''group_id'', ''status'']
      [show_int u, show_int g, ''pending'']) = Some db'"
    using group_statements_work(1) [of db u g coll] by (auto simp: groups_are_def)
  with d group_statements(1) [OF _ s] known_groups_change [OF s]
  show "\<exists>db'. sql_change coll db (Insert ''GroupRequest'' [''requester_id'', ''group_id'', ''status'']
      [show_int u, show_int g, ''pending'']) = Some db' \<and> groups_are known (set_request (key u g) (Some ''pending'') b) db'"
    by (simp add: groups_are_def)
qed

lemma value_group_status:
  assumes "int32_range u" "int32_range g" "st \<in> set request_states"
  shows "triple (stored (groups_are known b)) (GroupRequestModel_updateRequestStatus E u g st)
    (\<lambda>ok s. stored (groups_are known (set_request (key u g) (map_option (\<lambda>_. st) (gb_requests b (key u g))) b)) s \<and> ok = True)"
proof -
  let ?b = "set_request (key u g) (map_option (\<lambda>_. st) (gb_requests b (key u g))) b"
  have c: "\<exists>db'. sql_change coll db (Update ''GroupRequest'' [(''status'', st), (''handled_at'', h)]
      [Eq ''requester_id'' (show_int u), Eq ''group_id'' (show_int g)]) = Some db' \<and> groups_are known ?b db'"
    if d: "groups_are known b db" for h db
  proof -
    obtain db' where s: "sql_change coll db (Update ''GroupRequest'' [(''status'', st), (''handled_at'', h)]
      [Eq ''requester_id'' (show_int u), Eq ''group_id'' (show_int g)]) = Some db'"
      by (simp add: sql_change_def)
    with d group_statements(2) [OF _ assms(3) s] known_groups_change [OF s] show ?thesis by (auto simp: groups_are_def)
  qed
  have "st = ''pending'' \<or> st = ''accepted'' \<or> st = ''rejected''" using assms(3) by (simp add: request_states_def)
  then show ?thesis
    unfolding GroupRequestModel_updateRequestStatus_def
    by (intro triple_if value_update [OF sends_group_request(3) [OF assms]]
        value_update [OF sends_group_request(4) [OF assms]] c) simp_all
qed

text \<open>The insert of a user who is in the group already is refused; the code does not look at the result.\<close>

lemma value_admit:
  assumes "int32_range u" "int32_range g"
  shows "triple (stored (groups_are known b)) (GroupModel_addGroup E u g ''normal'')
    (\<lambda>x s. stored (groups_are known (admit u g b)) s \<and> x = ())"
proof (rule tripleI)
  fix d assume "stored (groups_are known b) d"
  then have d: "groups_are known b (tables d)" by (simp add: stored_def)
  let ?ins = "Insert ''GroupUser'' [] [show_int g, show_int u, ''normal'']"
  let ?d' = "snd (sql_update E (sql_group_user_insert u g ''normal'') d)"
  have r: "sends (sql_group_user_insert u g ''normal'') ?ins" using sends_group(4) [OF assms] by simp
  have "groups_are known (admit u g b) (tables ?d')"
  proof (cases "gb_roles b (key g u) = None")
    case False
    then have "sql_change coll (tables d) ?ins = None" using d group_statements_work(3) by (auto simp: groups_are_def)
    with update_runs [OF runs r, of d] have "tables ?d' = tables d" by (simp add: changes_def)
    then show ?thesis using d False by (auto simp: admit_def)
  next
    case True
    then obtain db' where s: "sql_change coll (tables d) ?ins = Some db'"
      using d group_statements_work(2) [of "tables d" g u coll "''normal''"] by (auto simp: groups_are_def)
    then show ?thesis
      using reliable_update(2) [OF runs reliable r s] group_statements(3) [OF _ s] known_groups_change [OF s] d True
      by (auto simp: groups_are_def admit_def)
  qed
  then show "stored (groups_are known (admit u g b)) (st_after (GroupModel_addGroup E u g ''normal'') d) \<and>
      val_of (GroupModel_addGroup E u g ''normal'') d = ()"
    by (simp add: GroupModel_addGroup_def stored_def split_beta)
qed

end

subsection \<open>The handlers and the other events\<close>

lemma malformed_group_messages:
  "int_field js ''userid'' = Inl e \<Longrightarrow> st_after (addGroup E c js) s = s \<and> st_after (addGroupHandle E c js) s = s"
  "int_field js ''groupid'' = Inl e \<Longrightarrow> st_after (addGroup E c js) s = s \<and> st_after (addGroupHandle E c js) s = s"
  unfolding addGroup_def addGroupHandle_def
  by (cases "int_field js ''userid''"; cases "int_field js ''groupid''"; auto)+

lemma getHandler_group:
  "getHandler E 13 = addGroup E" "getHandler E 14 = addGroupHandle E"
  by (simp_all add: getHandler_def msgHandlerMap_def)

context reliable_database
begin

lemma groups_send: "triple (stored_svc (groups_are known b)) (sendJson E c j) (\<lambda>_. stored_svc (groups_are known b))"
  by (rule triple_keeps [OF keeps_send])

lemma groups_deliver: "keeps (stored_svc (groups_are known b)) (deliverDump E i j)"
  by (rule keeps_deliver(2) [OF about_groups_are]) simp

lemma groups_notify: "triple (stored_svc (groups_are known b)) (notify_owner E c js g) (\<lambda>_. stored_svc (groups_are known b))"
  unfolding notify_owner_def
  by (intro triple_keeps flow_rules keeps_stored_db keeps_group_model [OF about_groups_are] keeps_send groups_deliver)

lemmas groups_reply = groups_send triple_keeps [OF groups_deliver] groups_notify triple_keeps [OF keeps_return]

lemma ask_group_refines:
  assumes "int_field js ''userid'' = Inr u" "int_field js ''groupid'' = Inr g"
  shows "triple (stored_svc (groups_are known b)) (addGroup E c js) (\<lambda>_. stored_svc (groups_are known (ask_group known u g b)))"
proof -
  have r: "int32_range u" "int32_range g" using assms by (auto dest: int_field_range)
  note answered = value_on_db [OF value_group_queries(2) [OF r]] value_on_db [OF value_group_queries(1) [OF r]]
    value_on_db [OF value_group_requests(1) [OF r]]
  consider "gb_roles b (key g u) \<noteq> None \<or> g \<notin> known" | "gb_roles b (key g u) = None" "g \<in> known" by blast
  then show ?thesis
  proof cases
    case 1
    then show ?thesis unfolding addGroup_def assms require.simps
      by (cases "gb_roles b (key g u)"; intro triple_value [OF answered(1)])
        (auto simp: ask_group_def intro: groups_send intro!: triple_value [OF answered(2)])
  next
    case 2
    have leaf: "triple (stored_svc (groups_are known b)) (case fst (status_answer (gb_requests b (key u g))) of
         Ok \<Rightarrow> if snd (status_answer (gb_requests b (key u g))) = ''pending'' then sendJson E c j3
           else if snd (status_answer (gb_requests b (key u g))) = ''rejected'' then
             State_Monad.bind (on_db (GroupRequestModel_updateRequestStatus E u g ''pending''))
               (\<lambda>ok. if \<not> ok then sendJson E c j4 else notify_owner E c js g)
           else return None
       | NotFound \<Rightarrow> State_Monad.bind (on_db (GroupRequestModel_addGroupRequest E u g))
           (\<lambda>ok. if \<not> ok then sendJson E c j2 else notify_owner E c js g)
       | DbError \<Rightarrow> sendJson E c j1) (\<lambda>_. stored_svc (groups_are known (ask_group known u g b)))" for j1 j2 j3 j4
    proof (cases "gb_requests b (key u g)")
      case None
      then show ?thesis using 2
        by (simp add: status_answer_def ask_group_def triple_value [OF value_on_db [OF value_addGroupRequest [OF r]]] groups_notify)
    next
      case (Some st)
      note update = value_on_db [OF value_group_status [OF r pending_state, of known b]]
      show ?thesis using 2 Some
        by (auto simp: status_answer_def ask_group_def groups_reply intro!: triple_value [OF update])
    qed
    show ?thesis unfolding addGroup_def assms require.simps using 2
      by (intro triple_value [OF answered(1)])
        (simp, intro triple_value [OF answered(2)], simp, rule triple_value [OF answered(3)], rule leaf)
  qed
qed

lemma answer_group_refines:
  assumes "int_field js ''userid'' = Inr u" "int_field js ''groupid'' = Inr g"
  shows "triple (stored_svc (groups_are known b)) (addGroupHandle E c js) (\<lambda>_. stored_svc (groups_are known
    (case string_field js ''action'' of Inl e \<Rightarrow> b | Inr a \<Rightarrow> answer_group_spec u g (a = ''accept'') b)))"
proof -
  have r: "int32_range u" "int32_range g" using assms by (auto dest: int_field_range)
  have s: "''accepted'' \<in> set request_states" "''rejected'' \<in> set request_states" by (simp_all add: request_states_def)
  note pending = triple_value [OF value_on_db [OF value_group_requests(2) [OF r]]]
  note update = triple_value [OF value_on_db [OF value_group_status [OF r s(1)]]] triple_value [OF value_on_db [OF value_group_status [OF r s(2)]]]
  note admits = triple_value [OF value_on_db [OF value_admit [OF r]]]
  show ?thesis
  proof (cases "gb_requests b (key u g) = Some ''pending''")
    case False
    then show ?thesis unfolding addGroupHandle_def assms require.simps
      by (intro pending) (simp add: answer_group_spec_def groups_send split: sum.split)
  next
    case True
    then show ?thesis unfolding addGroupHandle_def assms require.simps
      by (intro pending, cases "string_field js ''action''")
        (auto simp: answer_group_spec_def intro!: update admits groups_reply)
  qed
qed

lemma groups_after_message:
  assumes "m \<noteq> msg_id CREATE_GROUP_MSG"
  shows "triple (stored_svc (groups_are known b)) (getHandler E m c js)
    (\<lambda>_. stored_svc (groups_are known (group_spec known (Message m c js) b)))"
proof -
  note k = about_groups_are [of known b]
  consider "m = msg_id ADD_GROUP_MSG" | "m = msg_id ADD_GROUP_HANDLE" "m \<noteq> msg_id ADD_GROUP_MSG"
    | "m \<noteq> msg_id ADD_GROUP_MSG" "m \<noteq> msg_id ADD_GROUP_HANDLE" by blast
  then show ?thesis
  proof cases
    case 1
    then show ?thesis
      by (cases "int_field js ''userid''"; cases "int_field js ''groupid''")
        (simp_all add: getHandler_group malformed_group_messages triple_def ask_group_refines [unfolded triple_def])
  next
    case 2
    then show ?thesis
      by (cases "int_field js ''userid''"; cases "int_field js ''groupid''")
        (use answer_group_refines [of js _ _ known b c] in \<open>simp_all add: getHandler_group malformed_group_messages triple_def\<close>)
  next
    case 3
    have "keeps (stored_svc (groups_are known b)) (getHandler E m c js)"
      by (cases rule: getHandler_kinds [of E m])
        (use assms 3 in \<open>auto intro!: keeps_return keeps_session_handlers [OF k] keeps_chat_handlers [OF k]
          keeps_friend_handlers [OF k]\<close>)
    then show ?thesis using 3 by (simp del: msg_id.simps add: triple_keeps)
  qed
qed

lemma groups_after_event:
  assumes "stored_svc (groups_are known b) s" "\<And>m c js. ev = Message m c js \<Longrightarrow> m \<noteq> msg_id CREATE_GROUP_MSG"
  shows "stored_svc (groups_are known (group_spec known ev b)) (svc_step E ev s)"
proof (cases ev)
  case (Message m c js)
  then show ?thesis using tripleD [OF groups_after_message [OF assms(2) [OF Message]], of known b s c js] assms(1) by simp
next
  case (Closed c)
  then show ?thesis using keepsD [OF keeps_session_handlers(3) [OF about_groups_are [of known b], of c], of s] assms(1) by simp
next
  case (FromRedis u p)
  then show ?thesis using keepsD [OF keeps_deliver(3) [OF about_groups_are [of known b], of u p], of s] assms(1) by simp
qed

lemma groups_after_run:
  assumes "stored_svc (groups_are known b) s" "\<And>m c js. Message m c js \<in> set evs \<Longrightarrow> m \<noteq> msg_id CREATE_GROUP_MSG"
  shows "stored_svc (groups_are known (fold (group_spec known) evs b)) (svc_run E evs s)"
  using assms
proof (induction evs arbitrary: b s)
  case (Cons ev evs)
  have "stored_svc (groups_are known (group_spec known ev b)) (svc_step E ev s)"
    by (rule groups_after_event [OF Cons.prems(1)]) (use Cons.prems(2) in auto)
  from Cons.IH [OF this] Cons.prems(2) show ?case by (metis fold_simps(2) list.set_intros(2) svc_run_simps(2))
qed simp

end

text \<open>
  C8: joining a group refines the abstract book. When the database does not fail and no group is
  created meanwhile, the requests and roles after any run of a node are those that \<open>group_spec\<close>
  computes from its events: asking for a group that exists opens a request or reopens a refused one,
  an answer closes one that waits and admits the user or not, and all else, chats, logins, ends
  of connections, messages of other nodes, answers to a request that does not wait, changes nothing.
\<close>

theorem group_workflow_refines:
  assumes "mysql_runs coll E tables" "no_failures coll E tables"
    and "group_tables (tables (s_world s))"
    and "\<And>m c js. Message m c js \<in> set evs \<Longrightarrow> m \<noteq> msg_id CREATE_GROUP_MSG"
  shows "group_view (tables (s_world (svc_run E evs s))) =
      fold (group_spec (known_groups (tables (s_world s)))) evs (group_view (tables (s_world s)))"
proof -
  note i = sql_database.intro [OF assms(1)]
  note r = reliable_database.intro [OF i reliable_database_axioms.intro [OF assms(2)]]
  note stored = sql_database.stored_svc_def [OF i]
  show ?thesis
    using reliable_database.groups_after_run [OF r _ assms(4), of "known_groups (tables (s_world s))" "group_view (tables (s_world s))"]
      assms(3) by (simp add: stored groups_are_def)
qed

text \<open>User 11 asks to join the group of \<open>group_database\<close>, is admitted, and asks again.\<close>

definition join_js :: json where
  "join_js = JObj [(''msgid'', JInt 13), (''userid'', JInt 11), (''groupid'', JInt 5), (''action'', JStr ''accept'')]"

definition join_events :: "svc_event list" where
  "join_events = [Message (msg_id ADD_GROUP_MSG) 4 join_js, Message (msg_id ADD_GROUP_HANDLE) 2 join_js,
     Message (msg_id ADD_GROUP_MSG) 4 join_js]"

lemma join_fields: "int_field join_js ''userid'' = Inr 11" "int_field join_js ''groupid'' = Inr 5"
  "string_field join_js ''action'' = Inr ''accept''"
  by (simp_all add: join_js_def int32_range_def)

theorem group_workflow_refines_witness:
  "let b = group_view (fst (s_world (svc_run MySql join_events (mysql_node group_database)))) in
    gb_roles b (key 5 11) = Some ''normal'' \<and> gb_requests b (key 11 5) = Some ''accepted'' \<and>
    gb_roles b (key 5 7) = Some ''creator''"
proof -
  have g: "group_tables group_database" using group_database_grouped by (simp add: grouped_def)
  have e: "m \<noteq> msg_id CREATE_GROUP_MSG" if "Message m c js \<in> set join_events" for m c js
    using that by (auto simp: join_events_def)
  have k: "5 \<in> known_groups group_database" by (simp add: known_groups_def group_database_def schema_def cell_def)
  have v: "gb_roles (group_view group_database) (key 5 11) = None" "gb_requests (group_view group_database) (key 11 5) = None"
    "gb_roles (group_view group_database) (key 5 7) = Some ''creator''"
    by (simp_all add: group_view_def status_at_def entries_def group_database_def row_key_def key_def show_int_eq)
  have "key 5 7 \<noteq> key 5 11" by (simp add: key_def show_int_eq)
  with group_workflow_refines [OF MySql_runs MySql_reliable, of "mysql_node group_database" join_events] g e k v
  show ?thesis
    by (simp add: join_events_def join_fields ask_group_def answer_group_spec_def admit_def set_request_def set_role_def Let_def)
qed

end
