(* ===== verification/OfflineFlow.thy ===== *)
theory OfflineFlow
  imports Stored EndToEnd
begin

text \<open>
  Offline messages on the table \<open>OfflineMessage\<close>: what a delivery puts in the inbox of a user who is
  not online, what a login takes out of it, and what becomes of texts that are not safe between
  quotes.
\<close>

subsection \<open>The inbox\<close>

text \<open>The table promises no order, so an inbox is a multiset.\<close>

definition inbox :: "database \<Rightarrow> int \<Rightarrow> string multiset" where
  "inbox db u = mset (map (\<lambda>r. the (r ! 1)) (filter (\<lambda>r. r ! 0 = Some (show_int u)) (db_rows db ''OfflineMessage'')))"

definition inbox_ok :: "database \<Rightarrow> bool" where
  "inbox_ok db \<longleftrightarrow> (\<forall>r \<in> set (db_rows db ''OfflineMessage''). \<exists>i m. r = [i, Some m] \<and> no_nul m)"

lemma schema_offline: "schema ''OfflineMessage'' = [(''userid'', IntCol), (''message'', Text 500)]"
  by (simp add: schema_def)

lemma inbox_cong:
  assumes "db_rows db ''OfflineMessage'' = db_rows db' ''OfflineMessage''"
  shows "inbox db = inbox db'" "inbox_ok db = inbox_ok db'"
  using assms by (simp_all add: inbox_def [abs_def] inbox_ok_def)

lemma about_inbox: "about {''OfflineMessage''} (\<lambda>db. inbox_ok db \<and> Q (inbox db))"
  unfolding about_def using inbox_cong by (metis insertI1)

lemma insert_offline:
  assumes "inbox_ok db" "no_nul m" and "sql_change coll db (Insert ''OfflineMessage'' [] [show_int u, m]) = Some db'"
  shows "inbox_ok db'" and "inbox db' = (inbox db)(u := add_mset m (inbox db u))"
proof -
  have rows: "db_rows db' ''OfflineMessage'' = db_rows db ''OfflineMessage'' @ [[Some (show_int u), Some m]]"
    using assms(3) by (auto simp: sql_change_def Let_def new_row_def new_cell_def columns_named_def given_def
        schema_offline split: if_splits)
  show "inbox_ok db'" using assms(1,2) by (auto simp: inbox_ok_def rows)
  show "inbox db' = (inbox db)(u := add_mset m (inbox db u))"
    by (auto simp: inbox_def rows fun_eq_iff show_int_eq)
qed

lemma insert_offline_works: "sql_change coll db (Insert ''OfflineMessage'' [] [show_int u, m]) \<noteq> None"
  by (simp add: sql_change_def Let_def conflict_def unique_keys_def list_ex_iff)

lemma holds_offline:
  assumes "inbox_ok db" "r \<in> set (db_rows db ''OfflineMessage'')"
  shows "all_hold coll (schema ''OfflineMessage'') [Eq ''userid'' (show_int u)] r \<longleftrightarrow> r ! 0 = Some (show_int u)"
proof -
  obtain i m where r: "r = [i, Some m]" using assms by (auto simp: inbox_ok_def)
  show ?thesis unfolding r by (cases i) (simp_all add: all_hold_def same_cell_def cell_def same_value_def schema_offline)
qed

lemma delete_offline:
  assumes "inbox_ok db" and "sql_change coll db (Delete ''OfflineMessage'' [Eq ''userid'' (show_int u)]) = Some db'"
  shows "inbox_ok db'" and "inbox db' = (inbox db)(u := {#})"
proof -
  have "db_rows db' ''OfflineMessage'' = filter (\<lambda>r. \<not> all_hold coll (schema ''OfflineMessage'') [Eq ''userid'' (show_int u)] r)
      (db_rows db ''OfflineMessage'')"
    using assms(2) by (auto simp: sql_change_def)
  also have "\<dots> = filter (\<lambda>r. r ! 0 \<noteq> Some (show_int u)) (db_rows db ''OfflineMessage'')"
    using holds_offline [OF assms(1)] by (intro filter_cong) simp_all
  finally have rows: "db_rows db' ''OfflineMessage'' = filter (\<lambda>r. r ! 0 \<noteq> Some (show_int u)) (db_rows db ''OfflineMessage'')" .
  show "inbox_ok db'" using assms(1) by (auto simp: inbox_ok_def rows)
  have f: "filter (\<lambda>r. r ! 0 = Some (show_int v)) (filter (\<lambda>r. r ! 0 \<noteq> Some (show_int u)) xs) =
      (if v = u then [] else filter (\<lambda>r. r ! 0 = Some (show_int v)) xs)" for v and xs :: "row list"
    by (induction xs) (auto simp: show_int_eq)
  show "inbox db' = (inbox db)(u := {#})"
  proof
    fix v
    show "inbox db' v = ((inbox db)(u := {#})) v" unfolding inbox_def rows f by simp
  qed
qed

lemma select_offline:
  assumes "inbox_ok db"
  shows "mset (map (\<lambda>r. QueryResult_getString (at_row r) 0)
      (sql_rows coll db (Select [''message''] (Table ''OfflineMessage'') [Eq ''userid'' (show_int u)]))) = inbox db u"
proof -
  let ?rs = "filter (\<lambda>r. r ! 0 = Some (show_int u)) (db_rows db ''OfflineMessage'')"
  have "sql_rows coll db (Select [''message''] (Table ''OfflineMessage'') [Eq ''userid'' (show_int u)]) =
      map (project (schema ''OfflineMessage'') [''message'']) ?rs"
    unfolding sql_rows_def using holds_offline [OF assms] by (simp cong: filter_cong)
  moreover
  have "QueryResult_getString (at_row (project (schema ''OfflineMessage'') [''message''] r)) 0 = the (r ! 1)"
    if "r \<in> set ?rs" for r
    using that assms by (auto simp: inbox_ok_def project_def cell_def schema_offline QueryResult_getString_def c_str_no_nul)
  then have "map (\<lambda>r. QueryResult_getString (at_row (project (schema ''OfflineMessage'') [''message''] r)) 0) ?rs =
      map (\<lambda>r. the (r ! 1)) ?rs" by (rule map_cong [OF refl])
  ultimately show ?thesis by (simp only: inbox_def map_map comp_def)
qed

subsection \<open>The calls\<close>

definition inbox_is :: "(int \<Rightarrow> string multiset) \<Rightarrow> database \<Rightarrow> bool" where
  "inbox_is b db \<longleftrightarrow> inbox_ok db \<and> inbox db = b"

lemma about_inbox_is: "about {''OfflineMessage''} (inbox_is b)"
  using about_inbox [of "(=) b"] unfolding inbox_is_def [abs_def] by (simp add: eq_commute)

context reliable_database
begin

lemma value_offline_insert:
  assumes "int32_range u" "text_up_to 500 m"
  shows "triple (stored (inbox_is b)) (insertOfflineMessageByRpc E u m)
    (\<lambda>x s. stored (inbox_is (b(u := add_mset m (b u)))) s \<and> x = True)"
proof (rule tripleI)
  fix d assume "stored (inbox_is b) d"
  moreover obtain d' where f: "ext_rpc E ''insert'' d = (RpcAnswered, d')"
    using reliable unfolding no_failures_def by (metis prod.collapse)
  ultimately have d': "inbox_is b (tables d')" using mysql_runsD(3) [OF runs, of "''insert''" d] by (simp add: stored_def)
  obtain db' where s: "sql_change coll (tables d') (Insert ''OfflineMessage'' [] [show_int u, m]) = Some db'"
    using insert_offline_works by blast
  have "tables (snd (sql_update E (sql_offline_insert u m) d')) = db'"
    by (rule reliable_update(2) [OF runs reliable sends_offline(1) [OF assms] s])
  with insert_offline [OF _ text_no_nul [OF assms(2)] s] d'
  show "stored (inbox_is (b(u := add_mset m (b u)))) (st_after (insertOfflineMessageByRpc E u m) d) \<and>
      val_of (insertOfflineMessageByRpc E u m) d = True"
    by (simp add: run_insertOfflineMessageByRpc f stored_def inbox_is_def)
qed

lemma value_offline_query:
  assumes "int32_range u"
  shows "triple (stored (inbox_is b)) (queryOfflineMessagesByRpc E u)
    (\<lambda>x s. stored (inbox_is b) s \<and> mset x = b u)"
proof (rule value_remote [OF run_queryOfflineMessagesByRpc], unfold OfflineMsgModel_query_def,
    rule triple_bind [OF value_query [OF sends_offline(3) [OF assms]]], simp add: is_select_def, rule triple_return)
  fix r s
  let ?st = "Select [''message''] (Table ''OfflineMessage'') [Eq ''userid'' (show_int u)]"
  assume a: "stored (inbox_is b) s \<and> (\<exists>xs. r = rows_result (Some xs) \<and> mset xs = mset (sql_rows coll (tables s) ?st))"
  then obtain xs where r: "r = rows_result (Some xs)" "mset xs = mset (sql_rows coll (tables s) ?st)" by blast
  then have "mset (map (\<lambda>r. QueryResult_getString (at_row r) 0) xs) = b u"
    using a select_offline [of "tables s" coll u] by (simp add: stored_def inbox_is_def)
  then show "stored (inbox_is b) s \<and> mset (if qr_valid r then fetch_loop (\<lambda>r. QueryResult_getString r 0) r else []) = b u"
    using a r(1) by (simp add: fetch_loop_rows)
qed

lemma value_offline_remove:
  assumes "int32_range u"
  shows "triple (stored (inbox_is b)) (removeOfflineMessagesByRpc E u) (\<lambda>x. stored (inbox_is (b(u := {#}))))"
proof (rule tripleI)
  fix d assume "stored (inbox_is b) d"
  moreover obtain d' where f: "ext_rpc E ''remove'' d = (RpcAnswered, d')"
    using reliable unfolding no_failures_def by (metis prod.collapse)
  ultimately have d': "inbox_is b (tables d')" using mysql_runsD(3) [OF runs, of "''remove''" d] by (simp add: stored_def)
  obtain db' where s: "sql_change coll (tables d') (Delete ''OfflineMessage'' [Eq ''userid'' (show_int u)]) = Some db'"
    by (simp add: sql_change_def)
  have "tables (snd (sql_update E (sql_offline_delete u) d')) = db'"
    by (rule reliable_update(2) [OF runs reliable sends_offline(2) [OF assms] s])
  with delete_offline [OF _ s] d' show "stored (inbox_is (b(u := {#}))) (st_after (removeOfflineMessagesByRpc E u) d)"
    by (simp add: removeOfflineMessagesByRpc_def OfflineService_remove_def OfflineMsgModel_remove_def call_rpc_def f
        split_beta stored_def inbox_is_def)
qed

end

subsection \<open>A delivery and a login\<close>

text \<open>The database does not say that the user is online.\<close>

definition not_online :: "int \<Rightarrow> database \<Rightarrow> bool" where
  "not_online u db \<longleftrightarrow> (\<forall>r \<in> set (db_rows db ''User''). cell (schema ''User'') r ''id'' = Some (show_int u) \<longrightarrow>
     QueryResult_getString (at_row r) 3 \<noteq> ''online'')"

lemma about_not_online: "about {''User''} (not_online u)"
  by (simp add: about_def not_online_def)

lemma keeps_conj: "keeps P m \<Longrightarrow> keeps Q m \<Longrightarrow> keeps (\<lambda>s. P s \<and> Q s) m"
  by (simp add: keeps_def)

lemma st_after_for_each_run: "st_after (for_each m (x # xs)) s = st_after (for_each m xs) (st_after (m x) s)"
  by (simp add: split_beta)

context sql_database
begin

lemma tables_subscribe: "tables (snd (st_after (Redis_subscribe E u) (r, d))) = tables d"
  by (simp add: Redis_subscribe_def tables_send_command)

lemma tables_mark: "inbox_is b (tables (st_after (UserModel_updateState E user) d)) = inbox_is b (tables d)"
proof -
  have "\<not> text_writes (sql_user_update_state user) ''OfflineMessage''" using writes_user(2) [of user "''OfflineMessage''"] by auto
  from inbox_cong [OF frame_runs(1) [OF runs this, of d]] show ?thesis
    by (simp add: inbox_is_def UserModel_updateState_def)
qed

end

context reliable_database
begin

lemma value_offline_user:
  assumes "int32_range u"
  shows "triple (stored (\<lambda>db. inbox_is b db \<and> not_online u db)) (UserModel_query_id E u)
    (\<lambda>x s. stored (\<lambda>db. inbox_is b db \<and> not_online u db) s \<and> u_state x \<noteq> ''online'')"
proof (unfold UserModel_query_id_def, rule triple_bind [OF value_query [OF sends_user(3) [OF assms]]],
    simp add: is_select_def, rule triple_return)
  fix r s
  let ?st = "Select [''*''] (Table ''User'') [Eq ''id'' (show_int u)]"
  assume a: "stored (\<lambda>db. inbox_is b db \<and> not_online u db) s \<and>
    (\<exists>xs. r = rows_result (Some xs) \<and> mset xs = mset (sql_rows coll (tables s) ?st))"
  then obtain xs where r: "r = rows_result (Some xs)" "mset xs = mset (sql_rows coll (tables s) ?st)" by blast
  have "QueryResult_getString (at_row x) 3 \<noteq> ''online''" if "x \<in> set xs" for x
  proof -
    have "x \<in> set (sql_rows coll (tables s) ?st)" using that r(2) by (metis set_mset_mset)
    then have "x \<in> set (db_rows (tables s) ''User'')" "cell (schema ''User'') x ''id'' = Some (show_int u)"
      by (auto simp: sql_rows_def project_def all_hold_def same_cell_def same_value_def schema_def split: option.splits)
    then show ?thesis using a by (simp add: stored_def not_online_def)
  qed
  then have "u_state (if qr_valid r then (case QueryResult_next r of
        (True, r) \<Rightarrow> User\<lparr>u_id := QueryResult_getInt r 0, u_name := QueryResult_getString r 1, u_state := QueryResult_getString r 3\<rparr>
      | (False, _) \<Rightarrow> User) else User) \<noteq> ''online''"
    by (cases xs) (auto simp: r(1) User_def QueryResult_getString_def column_def at_row_def)
  with a show "stored (\<lambda>db. inbox_is b db \<and> not_online u db) s \<and> u_state (if qr_valid r then (case QueryResult_next r of
        (True, r) \<Rightarrow> User\<lparr>u_id := QueryResult_getInt r 0, u_name := QueryResult_getString r 1, u_state := QueryResult_getString r 3\<rparr>
      | (False, _) \<Rightarrow> User) else User) \<noteq> ''online''" by blast
qed

lemma offline_delivery:
  assumes "int32_range u" "text_up_to 500 p" "findLocalConnection u s = None"
    and "inbox_is b (tables (s_world s))" "not_online u (tables (s_world s))"
  shows "inbox_is (b(u := add_mset p (b u))) (tables (s_world (st_after (deliverMessage E u p) s)))"
    and "not_online u (tables (s_world (st_after (deliverMessage E u p) s)))"
    and "findLocalConnection u (st_after (deliverMessage E u p) s) = None"
proof -
  obtain x d where q: "run_state (UserModel_query_id E u) (s_world s) = (x, d)" by fastforce
  have d: "inbox_is b (tables d)" "not_online u (tables d)" "u_state x \<noteq> ''online''"
    using tripleD [OF value_offline_user [OF assms(1)], of b "s_world s"] assms(4,5) by (simp_all add: q stored_def)
  then have a: "st_after (deliverMessage E u p) s = s\<lparr>s_world := st_after (insertOfflineMessageByRpc E u p) d\<rparr>"
    by (simp add: run_deliverMessage assms(3) q)
  show "inbox_is (b(u := add_mset p (b u))) (tables (s_world (st_after (deliverMessage E u p) s)))"
    using tripleD [OF value_offline_insert [OF assms(1,2)], of b d] d by (simp add: a stored_def)
  show "not_online u (tables (s_world (st_after (deliverMessage E u p) s)))"
    using keepsD [OF keeps_offline_rpc(1) [OF about_not_online], of u d u p] d by (simp add: a stored_def)
  show "findLocalConnection u (st_after (deliverMessage E u p) s) = None"
    using assms(3) by (simp add: a findLocalConnection_def)
qed

lemma offline_deliveries:
  assumes "int32_range u" "list_all (text_up_to 500) ps" "findLocalConnection u s = None"
    and "inbox_is b (tables (s_world s))" "not_online u (tables (s_world s))"
  shows "inbox_is (b(u := b u + mset ps)) (tables (s_world (st_after (for_each (deliverMessage E u) ps) s)))"
  using assms(2-5)
proof (induction ps arbitrary: s b)
  case (Cons p ps)
  let ?s = "st_after (deliverMessage E u p) s"
  have "text_up_to 500 p" using Cons.prems(1) by simp
  note d = offline_delivery [OF assms(1) this Cons.prems(2-4)]
  have "inbox_is ((b(u := add_mset p (b u)))(u := (b(u := add_mset p (b u))) u + mset ps))
      (tables (s_world (st_after (for_each (deliverMessage E u) ps) ?s)))"
    using Cons.prems(1) by (intro Cons.IH d) simp
  moreover have "(b(u := add_mset p (b u)))(u := (b(u := add_mset p (b u))) u + mset ps) = b(u := b u + mset (p # ps))"
    by (simp add: fun_eq_iff)
  ultimately show ?case by (simp only: st_after_for_each_run)
qed simp

lemma login_empties_inbox:
  assumes "int32_range (u_id user)"
  shows "triple (stored_svc (inbox_is b)) (login_success E c user) (\<lambda>_. stored_svc (inbox_is (b(u_id user := {#}))))"
proof -
  have q: "triple (stored_svc (inbox_is b)) (on_db (queryOfflineMessagesByRpc E (u_id user)))
      (\<lambda>off. stored_svc (\<lambda>db. inbox_is b db \<and> mset off = b (u_id user)))"
    by (rule triple_on_db, rule triple_post [OF value_offline_query [OF assms]]) (simp add: stored_def)
  have r: "triple (stored_svc (\<lambda>db. inbox_is b db \<and> mset off = b (u_id user)))
      (if off \<noteq> [] then State_Monad.bind (on_db (removeOfflineMessagesByRpc E (u_id user))) (\<lambda>_. return j) else return j')
      (\<lambda>_. stored_svc (inbox_is (b(u_id user := {#}))))" for off and j j' :: json
  proof (rule triple_if)
    show "triple (stored_svc (\<lambda>db. inbox_is b db \<and> mset off = b (u_id user)))
      (State_Monad.bind (on_db (removeOfflineMessagesByRpc E (u_id user))) (\<lambda>_. return j))
      (\<lambda>_. stored_svc (inbox_is (b(u_id user := {#}))))"
      by (rule triple_bind [OF triple_pre [OF triple_on_db [OF value_offline_remove [OF assms]]]])
        (auto simp: stored_svc_def intro: triple_return)
    assume "\<not> off \<noteq> []"
    then show "triple (stored_svc (\<lambda>db. inbox_is b db \<and> mset off = b (u_id user))) (return j')
      (\<lambda>_. stored_svc (inbox_is (b(u_id user := {#}))))"
      by (intro triple_return) (auto simp: stored_svc_def fun_upd_idem)
  qed
  have first: "keeps (stored_svc (inbox_is b)) (on_db (UserModel_updateState E user))"
    "keeps (stored_svc (inbox_is b)) (modify (userConnMap_update f))"
    "keeps (stored_svc (inbox_is b)) (on_rd (Redis_subscribe E (u_id user)))" for f
    by (rule keeps_stored_db, rule keeps_user_model(2) [OF about_inbox_is], simp)
      (rule keeps_stored_node(2), rule keeps_stored_redis(1))
  show ?thesis
    unfolding login_success_def
    by (rule triple_bind [OF triple_keeps [OF first(1)]], rule triple_bind [OF triple_keeps [OF first(2)]],
        rule triple_bind [OF triple_keeps [OF first(3)]], rule triple_bind [OF q], rule triple_bind [OF r],
        rule triple_keeps)
      (intro flow_rules keeps_send keeps_stored_db keeps_friend_rpc(6) [OF about_inbox_is] keeps_group_model(9) [OF about_inbox_is])
qed

lemma login_reads_inbox:
  assumes "int32_range (u_id user)" "inbox_is b (tables (s_world s))"
  shows "mset (fst (login_data E user s)) = b (u_id user)"
proof -
  let ?d1 = "st_after (UserModel_updateState E user) (s_world s)"
  obtain r d2 where 2: "st_after (Redis_subscribe E (u_id user)) (s_redis s, ?d1) = (r, d2)" by fastforce
  have "tables d2 = tables ?d1" using tables_subscribe [of "u_id user" "s_redis s" ?d1] 2 by simp
  then have d2: "stored (inbox_is b) d2" using assms(2) by (simp add: stored_def tables_mark)
  have "fst (login_data E user s) = val_of (queryOfflineMessagesByRpc E (u_id user)) d2"
    by (simp add: login_data_def 2 split_beta Let_def)
  then show ?thesis using tripleD [OF value_offline_query [OF assms(1)] d2] by simp
qed

end

text \<open>
  C10: offline messages survive and are handed over once. When the database and the remote calls do
  not fail, the texts delivered to a user who is neither connected to the node nor marked online
  are, together with those that were waiting, exactly what his next login reads for its answer, in
  some order; after the login none is left, and the inbox of everybody else is as it was. The
  texts must be printable ASCII without apostrophe or backslash and have at most 500 characters.
\<close>

theorem offline_messages_roundtrip:
  assumes "mysql_runs coll E tables" "no_failures coll E tables"
    and "inbox_ok (tables (s_world s))" "findLocalConnection u s = None" "not_online u (tables (s_world s))"
    and "int32_range u" "u_id user = u" "list_all (text_up_to 500) ps"
  shows "let s1 = st_after (for_each (deliverMessage E u) ps) s; s2 = st_after (login_success E c user) s1;
      before = inbox (tables (s_world s)); after = inbox (tables (s_world s2))
    in mset (fst (login_data E user s1)) = before u + mset ps \<and> after u = {#} \<and> (\<forall>v. v \<noteq> u \<longrightarrow> after v = before v)"
proof -
  note db = reliable_database.intro [OF sql_database.intro [OF assms(1)] reliable_database_axioms.intro [OF assms(2)]]
  let ?b = "inbox (tables (s_world s))" and ?s1 = "st_after (for_each (deliverMessage E u) ps) s"
  have 1: "inbox_is (?b(u := ?b u + mset ps)) (tables (s_world ?s1))"
    by (rule reliable_database.offline_deliveries [OF db assms(6,8,4) _ assms(5)]) (simp add: inbox_is_def assms(3))
  have 2: "mset (fst (login_data E user ?s1)) = ?b u + mset ps"
    using reliable_database.login_reads_inbox [OF db _ 1, of user] assms(6,7) by simp
  have "inbox_is ((?b(u := ?b u + mset ps))(u := {#})) (tables (s_world (st_after (login_success E c user) ?s1)))"
    using tripleD [OF reliable_database.login_empties_inbox [OF db, of user "?b(u := ?b u + mset ps)"], of ?s1 c] 1 assms(6,7)
    by (simp add: sql_database.stored_svc_def [OF sql_database.intro [OF assms(1)]])
  with 2 show ?thesis by (simp add: inbox_is_def Let_def)
qed

theorem offline_messages_roundtrip_witness:
  "let s = mysql_node (empty_database\<lparr>db_rows := (\<lambda>_. [])(''OfflineMessage'' := [[Some (show_int 7), Some ''hello'']])\<rparr>);
       s1 = st_after (for_each (deliverMessage MySql 7) [''how are you?'', ''bye'']) s
   in mset (fst (login_data MySql (User\<lparr>u_id := 7\<rparr>) s1)) = {#''hello'', ''how are you?'', ''bye''#} \<and>
      inbox (fst (s_world (st_after (login_success MySql 4 (User\<lparr>u_id := 7\<rparr>)) s1))) 7 = {#}"
proof -
  let ?db = "empty_database\<lparr>db_rows := (\<lambda>_. [])(''OfflineMessage'' := [[Some (show_int 7), Some ''hello'']])\<rparr>"
  have "inbox ?db 7 = {#''hello''#}" by (simp add: inbox_def)
  moreover have "inbox_ok (fst (s_world (mysql_node ?db)))" "not_online 7 (fst (s_world (mysql_node ?db)))"
    "findLocalConnection 7 (mysql_node ?db) = None"
    by (simp_all add: inbox_ok_def not_online_def) (simp add: mysql_node_def findLocalConnection_def)
  moreover have "list_all (text_up_to 500) [''how are you?'', ''bye'']"
    by (simp add: text_up_to_def safe_text_def safe_char_def)
  ultimately show ?thesis
    using offline_messages_roundtrip [OF MySql_runs MySql_reliable, of "mysql_node ?db" 7 "User\<lparr>u_id := 7\<rparr>"
      "[''how are you?'', ''bye'']" 4]
    by (simp add: Let_def int32_range_def)
qed

subsection \<open>Texts that are not safe between quotes\<close>

lemma literal_open:
  assumes "q \<notin> set v" "backslash \<notin> set v"
  shows "literal q v = None"
  using assms
proof (induction v)
  case (Cons c v)
  then show ?case by (cases v) auto
qed simp

lemma open_skip: "list_all (\<lambda>c. \<not> quotes c \<and> \<not> odd_char c \<and> c \<noteq> CHR ''-'') a \<Longrightarrow> open_literal (a @ s) = open_literal s"
  by (induction a) (simp_all add: open_literal.simps(2))

lemma open_after_value:
  assumes "safe_text v" "r = [] \<or> hd r \<noteq> quote_char"
  shows "open_literal (quoted v @ r) = open_literal r"
proof -
  have "quote_char \<notin> set v" "backslash \<notin> set v"
    using assms(1) by (auto simp: safe_text_def safe_char_def list_all_iff)
  from literal_safe [OF this assms(2)] show ?thesis by (simp add: quoted_def open_literal.simps(2) quotes_def)
qed

lemma open_offline_insert:
  assumes "safe_text a" "b \<noteq> []" "hd b \<noteq> quote_char" "open_literal (b @ [quote_char] @ '')'')"
  shows "open_literal (sql_offline_insert u (a @ quote_char # b))"
proof -
  let ?r = "quoted a @ b @ [quote_char] @ '')''"
  have s: "sql_offline_insert u (a @ quote_char # b) =
      ''insert into OfflineMessage value ('' @ quoted (show_int u) @ '','' @ ?r"
    by (simp add: sql_offline_insert_def quoted_def)
  have 1: "open_literal (''insert into OfflineMessage value ('' @ quoted (show_int u) @ '','' @ ?r) =
      open_literal (quoted (show_int u) @ '','' @ ?r)"
    by (rule open_skip) (simp add: quotes_def odd_char_def)
  have 2: "open_literal (quoted (show_int u) @ '','' @ ?r) = open_literal ('','' @ ?r)"
    by (rule open_after_value) simp_all
  have 3: "open_literal ('','' @ ?r) = open_literal ?r"
    by (rule open_skip) (simp add: quotes_def odd_char_def)
  have 4: "open_literal ?r = open_literal (b @ [quote_char] @ '')'')"
    by (rule open_after_value) (use assms in simp_all)
  show ?thesis unfolding s 1 2 3 4 by (rule assms(4))
qed

text \<open>
  C38: an apostrophe loses the message. The model class puts the text between quotes as it is, so
  a text whose first apostrophe leaves a literal open to the end of the statement is refused by
  the database; the tables do not change, the service answers success all the same, and the
  sender is told nothing.
\<close>

theorem apostrophe_loses_message:
  assumes "mysql_runs coll E tables" "ext_rpc E ''insert'' d = (RpcAnswered, d')"
    and "safe_text a" "b \<noteq> []" "hd b \<noteq> quote_char" "no_nul b" "open_literal (b @ [quote_char] @ '')'')"
  shows "val_of (insertOfflineMessageByRpc E u (a @ quote_char # b)) d = True \<and>
    tables (st_after (insertOfflineMessageByRpc E u (a @ quote_char # b)) d) = tables d"
proof -
  have n: "no_nul (a @ quote_char # b)" using assms(6) safe_no_nul [OF assms(3)] by simp
  then have o: "open_literal (c_str (sql_offline_insert u (a @ quote_char # b)))"
    using open_offline_insert [OF assms(3,4,5,7)] by simp
  have "tables (snd (sql_update E (sql_offline_insert u (a @ quote_char # b)) d')) = tables d'"
    by (rule unterminated_runs(2) [OF assms(1) o])
  moreover have "tables d' = tables d" using mysql_runsD(3) [OF assms(1), of "''insert''" d] assms(2) by simp
  ultimately show ?thesis by (simp add: run_insertOfflineMessageByRpc assms(2))
qed

definition apostrophe_text :: string where
  "apostrophe_text = ''{\"msg\":\"it'' @ quote_char # ''s\",\"msgid\":6}''"

theorem apostrophe_loses_message_witness:
  "val_of (insertOfflineMessageByRpc MySql 7 apostrophe_text) (empty_database, [], 0) = True \<and>
   fst (st_after (insertOfflineMessageByRpc MySql 7 apostrophe_text) (empty_database, [], 0)) = empty_database"
proof -
  have "open_literal (''s\",\"msgid\":6}'' @ [quote_char] @ '')'')"
    by (simp add: open_literal.simps(2) quotes_def odd_char_def)
  then show ?thesis
    using apostrophe_loses_message [OF MySql_runs, of "(empty_database, [], 0)" "(empty_database, [], 0)"
      "''{\"msg\":\"it''" "''s\",\"msgid\":6}''" 7]
    by (simp add: apostrophe_text_def MySql_def safe_text_def safe_char_def)
qed

lemma literal_escaped:
  assumes "safe_text a" "safe_text b" "r = [] \<or> hd r \<noteq> quote_char"
  shows "literal quote_char (a @ backslash # CHR 0x22 # b @ quote_char # r) = Some (a @ CHR 0x22 # b, r)"
  using assms(1)
proof (induction a)
  case Nil
  have "quote_char \<notin> set b" "backslash \<notin> set b"
    using assms(2) by (auto simp: safe_text_def safe_char_def list_all_iff)
  from literal_safe [OF this assms(3)] show ?case by (simp add: unescape_def)
next
  case (Cons c a)
  then have c: "c \<noteq> quote_char" "c \<noteq> backslash" by (auto simp: safe_text_def safe_char_def)
  have "literal quote_char (a @ backslash # CHR 0x22 # b @ quote_char # r) = Some (a @ CHR 0x22 # b, r)"
    using Cons by (simp add: safe_text_def)
  then show ?case using c by (cases "a @ backslash # CHR 0x22 # b @ quote_char # r") auto
qed

lemma sends_escaped:
  assumes "int32_range u" "text_up_to 500 (a @ CHR 0x22 # b)"
  shows "sends (sql_offline_insert u (a @ [backslash, CHR 0x22] @ b)) (Insert ''OfflineMessage'' [] [show_int u, a @ CHR 0x22 # b])"
proof -
  have s: "safe_text a" "safe_text b" using assms(2) by (auto simp: text_up_to_def safe_text_def)
  have n: "no_nul (a @ [backslash, CHR 0x22] @ b)" using safe_no_nul [OF s(1)] safe_no_nul [OF s(2)] by simp
  have "sql_lex [] (quoted (a @ [backslash, CHR 0x22] @ b) @ '')'') = Some [Lit (a @ CHR 0x22 # b), Sym CHR '')'']"
    using literal_escaped [OF s, of "'')''"]
    by (simp add: quoted_def sql_lex.simps quotes_def separator_def symbol_def word_token_Nil)
  then have "sql_parse (sql_offline_insert u (a @ [backslash, CHR 0x22] @ b)) =
      Some (Insert ''OfflineMessage'' [] [show_int u, a @ CHR 0x22 # b])"
    by (simp add: sql_offline_insert_def read_defs)
  then show ?thesis using assms n
    by (simp add: sends_def fits_defs fits_def text_up_to_def)
qed

text \<open>
  Escapes do not survive. A backslash in the text is the database's escape, not a character: the
  text with an escaped double quote, which is how the JSON of a message with a quote in it looks,
  is stored without the backslash, and so is no longer the JSON of the message.
\<close>

theorem escaped_quote_is_stored_bare:
  assumes "mysql_runs coll E tables" "no_failures coll E tables" "inbox_ok (tables d)" "int32_range u"
    and "text_up_to 500 (a @ CHR 0x22 # b)"
  shows "inbox (tables (st_after (insertOfflineMessageByRpc E u (a @ [backslash, CHR 0x22] @ b)) d)) u =
    add_mset (a @ CHR 0x22 # b) (inbox (tables d) u)"
proof -
  let ?m = "a @ [backslash, CHR 0x22] @ b"
  obtain d' where f: "ext_rpc E ''insert'' d = (RpcAnswered, d')"
    using assms(2) unfolding no_failures_def by (metis prod.collapse)
  have d': "tables d' = tables d" using mysql_runsD(3) [OF assms(1), of "''insert''" d] f by simp
  obtain db' where s: "sql_change coll (tables d') (Insert ''OfflineMessage'' [] [show_int u, a @ CHR 0x22 # b]) = Some db'"
    using insert_offline_works by blast
  have "tables (snd (sql_update E (sql_offline_insert u ?m) d')) = db'"
    by (rule reliable_update(2) [OF assms(1,2) sends_escaped [OF assms(4,5)] s])
  with insert_offline(2) [OF _ text_no_nul [OF assms(5)] s] assms(3) show ?thesis
    by (simp add: run_insertOfflineMessageByRpc f d')
qed

theorem escaped_quote_is_stored_bare_witness:
  "inbox (fst (st_after (insertOfflineMessageByRpc MySql 7 (''{\"msg\":\"say '' @ [backslash, CHR 0x22] @ ''hi'' @ ''!\"}'')) (empty_database, [], 0))) 7 =
   {#''{\"msg\":\"say \"hi!\"}''#}"
proof -
  have "text_up_to 500 (''{\"msg\":\"say '' @ CHR 0x22 # ''hi!\"}'')"
    by (simp add: text_up_to_def safe_text_def safe_char_def)
  then show ?thesis
    using escaped_quote_is_stored_bare [OF MySql_runs MySql_reliable, of "(empty_database, [], 0)" 7 "''{\"msg\":\"say ''" "''hi!\"}''"]
    by (simp add: inbox_ok_def inbox_def empty_database_def int32_range_def)
qed

end
