(* ===== verification/UserFlow.thy ===== *)
theory UserFlow
  imports Stored Sessions
begin

text \<open>
  Presence on the table \<open>User\<close>: logging in, logging out, the loss of a connection and the reset at the
  end of a server, on the set of the users whose \<open>state\<close> is \<open>online\<close>.
\<close>

subsection \<open>The view\<close>

definition users_ok :: "database \<Rightarrow> bool" where
  "users_ok db \<longleftrightarrow> (\<forall>r \<in> set (db_rows db ''User''). length r = 4)"

definition user_ids :: "database \<Rightarrow> int set" where
  "user_ids db = {i. \<exists>r \<in> set (db_rows db ''User''). cell (schema ''User'') r ''id'' = Some (show_int i)}"

definition online_users :: "database \<Rightarrow> int set" where
  "online_users db = {i. \<exists>r \<in> set (db_rows db ''User''). cell (schema ''User'') r ''id'' = Some (show_int i) \<and>
     cell (schema ''User'') r ''state'' = Some ''online''}"

definition nobody_online :: "database \<Rightarrow> bool" where
  "nobody_online db \<longleftrightarrow> (\<forall>r \<in> set (db_rows db ''User''). cell (schema ''User'') r ''state'' \<noteq> Some ''online'')"

text \<open>The row of the user with a name, as the query by name finds it.\<close>

definition account :: "(string \<Rightarrow> string) \<Rightarrow> string \<Rightarrow> row list \<Rightarrow> database \<Rightarrow> bool" where
  "account coll name rs db \<longleftrightarrow> sql_rows coll db (Select [''*''] (Table ''User'') [Eq ''name'' name]) = rs"

text \<open>The two statements that change the state.\<close>

definition mark_user :: "int \<Rightarrow> string \<Rightarrow> sql" where
  "mark_user i st = Update ''User'' [(''state'', st)] [Eq ''id'' (show_int i)]"

definition reset_users :: sql where
  "reset_users = Update ''User'' [(''state'', ''offline'')] [Eq ''state'' ''online'']"

lemma row_of_4: "length r = 4 \<longleftrightarrow> (\<exists>a b c d. r = [a, b, c, d])"
  by (auto simp: length_Suc_conv eval_nat_numeral)

lemma user_cells [simp]:
  "cell (schema ''User'') [a, b, c, d] ''id'' = a" "cell (schema ''User'') [a, b, c, d] ''state'' = d"
  "cell (schema ''User'') [a, b, c, d] ''name'' = b"
  "set_cells (schema ''User'') [(''state'', st)] [a, b, c, d] = [a, b, c, Some st]"
  "all_hold coll (schema ''User'') [Eq ''id'' v] [a, b, c, d] \<longleftrightarrow> a = Some v"
  "all_hold coll (schema ''User'') [Eq ''state'' v] [a, b, c, d] \<longleftrightarrow> d = Some v"
  by (auto simp: cell_def schema_def set_cells_def all_hold_def same_cell_def same_value_def split: option.splits)

lemma mark_user_rows:
  assumes "users_ok db" "sql_change coll db (mark_user i st) = Some db'"
  shows "users_ok db'" and "user_ids db' = user_ids db"
    and "online_users db' = (if st = ''online'' then (if i \<in> user_ids db then insert i (online_users db) else online_users db)
      else online_users db - {i})"
proof -
  define f where "f = (\<lambda>r. if all_hold coll (schema ''User'') [Eq ''id'' (show_int i)] r
    then set_cells (schema ''User'') [(''state'', st)] r else r)"
  have rows: "db_rows db' ''User'' = map f (db_rows db ''User'')"
    using assms(2) by (auto simp: sql_change_def mark_user_def f_def)
  have f: "length (f r) = 4 \<and> cell (schema ''User'') (f r) ''id'' = cell (schema ''User'') r ''id'' \<and>
      cell (schema ''User'') (f r) ''state'' = (if cell (schema ''User'') r ''id'' = Some (show_int i) then Some st
        else cell (schema ''User'') r ''state'')" if "r \<in> set (db_rows db ''User'')" for r
    using assms(1) that by (auto simp: users_ok_def row_of_4 f_def)
  show "users_ok db'" using f by (simp add: users_ok_def rows)
  show "user_ids db' = user_ids db" using f by (simp add: user_ids_def rows)
  have "i' \<in> online_users db' \<longleftrightarrow> (\<exists>r \<in> set (db_rows db ''User''). cell (schema ''User'') r ''id'' = Some (show_int i') \<and>
      (if i' = i then st = ''online'' else cell (schema ''User'') r ''state'' = Some ''online''))" for i'
  proof -
    have "i' \<in> online_users db' \<longleftrightarrow> (\<exists>r \<in> set (db_rows db ''User''). cell (schema ''User'') (f r) ''id'' = Some (show_int i') \<and>
        cell (schema ''User'') (f r) ''state'' = Some ''online'')" by (simp add: online_users_def rows)
    moreover have "\<dots> \<longleftrightarrow> (\<exists>r \<in> set (db_rows db ''User''). cell (schema ''User'') r ''id'' = Some (show_int i') \<and>
        (if i' = i then st = ''online'' else cell (schema ''User'') r ''state'' = Some ''online''))"
      by (rule bex_cong [OF refl]) (auto simp: f show_int_eq)
    ultimately show ?thesis by blast
  qed
  then show "online_users db' = (if st = ''online'' then (if i \<in> user_ids db then insert i (online_users db) else online_users db)
      else online_users db - {i})"
    by (auto simp: online_users_def user_ids_def)
qed

lemma reset_users_rows:
  assumes "users_ok db" "sql_change coll db reset_users = Some db'"
  shows "users_ok db' \<and> user_ids db' = user_ids db \<and> nobody_online db' \<and> online_users db' = {}"
    and "account coll name [[a, b, c, Some d]] db \<Longrightarrow>
      account coll name [[a, b, c, Some (if d = ''online'' then ''offline'' else d)]] db'"
proof -
  define g where "g = (\<lambda>r. if all_hold coll (schema ''User'') [Eq ''state'' ''online''] r
    then set_cells (schema ''User'') [(''state'', ''offline'')] r else r)"
  have rows: "db_rows db' ''User'' = map g (db_rows db ''User'')"
    using assms(2) by (auto simp: sql_change_def reset_users_def g_def)
  have g4: "g [a, b, c, d] = [a, b, c, if d = Some ''online'' then Some ''offline'' else d]" for a b c d
    by (simp add: g_def)
  then have g: "length (g r) = 4 \<and> cell (schema ''User'') (g r) ''id'' = cell (schema ''User'') r ''id'' \<and>
      cell (schema ''User'') (g r) ''state'' \<noteq> Some ''online'' \<and>
      all_hold coll (schema ''User'') [Eq ''name'' name] (g r) = all_hold coll (schema ''User'') [Eq ''name'' name] r"
    if r: "r \<in> set (db_rows db ''User'')" for r name
  proof -
    obtain a b c d where "r = [a, b, c, d]" using assms(1) r by (auto simp: users_ok_def row_of_4)
    then show ?thesis using g4 [of a b c d] by (simp add: all_hold_def same_cell_def)
  qed
  then show "users_ok db' \<and> user_ids db' = user_ids db \<and> nobody_online db' \<and> online_users db' = {}"
    by (auto simp: users_ok_def user_ids_def nobody_online_def online_users_def rows)
  have "filter (all_hold coll (schema ''User'') [Eq ''name'' name]) (map g (db_rows db ''User'')) =
      map g (filter (all_hold coll (schema ''User'') [Eq ''name'' name]) (db_rows db ''User''))"
    using g by (simp add: filter_map o_def cong: filter_cong)
  then show "account coll name [[a, b, c, Some (if d = ''online'' then ''offline'' else d)]] db'"
    if "account coll name [[a, b, c, Some d]] db"
  proof -
    have p: "project h [''*''] = (\<lambda>r. r)" for h by (simp add: project_def fun_eq_iff)
    from that \<open>filter _ (map g _) = _\<close> show ?thesis by (simp add: account_def sql_rows_def rows p g4 del: map_map)
  qed
qed

subsection \<open>The handlers\<close>

text \<open>Presence is a matter of the table \<open>User\<close> alone.\<close>

definition presence :: "int set \<Rightarrow> database \<Rightarrow> bool" where
  "presence on db \<longleftrightarrow> users_ok db \<and> online_users db = on"

lemma about_presence: "about {''User''} (presence on)" "about {''User''} (\<lambda>db. presence on db \<and> user_ids db = ids)"
  unfolding about_def presence_def users_ok_def online_users_def user_ids_def by simp_all

text \<open>What \<open>UserModel::query\<close> makes of an account.\<close>

definition account_user :: "int \<Rightarrow> string \<Rightarrow> string \<Rightarrow> string \<Rightarrow> user" where
  "account_user i name pwd st = User\<lparr>u_id := i, u_name := name, u_password := pwd, u_state := st\<rparr>"

context reliable_database
begin

lemma value_account:
  assumes "text_up_to 50 name" "int32_range i" "no_nul n" "no_nul pwd" "no_nul st"
    and "\<And>db. Q db \<Longrightarrow> account coll name [[Some (show_int i), Some n, Some pwd, Some st]] db"
  shows "triple (stored Q) (UserModel_query_name E name) (\<lambda>u s. stored Q s \<and> u = account_user i n pwd st)"
  unfolding UserModel_query_name_def
proof (rule value_return [OF value_query [OF sends_user(2) [OF assms(1)]]])
  show "is_select (Select [''*''] (Table ''User'') [Eq ''name'' name])" by (simp add: is_select_def)
  fix r d
  assume "stored Q d"
    "\<exists>xs. r = rows_result (Some xs) \<and> mset xs = mset (sql_rows coll (tables d) (Select [''*''] (Table ''User'') [Eq ''name'' name]))"
  then have "r = rows_result (Some [[Some (show_int i), Some n, Some pwd, Some st]])"
    using assms(6) [of "tables d"] by (auto simp: stored_def account_def)
  then show "(if qr_valid r then case QueryResult_next r of (True, r) \<Rightarrow> read_user r | (False, _) \<Rightarrow> User else User) =
      account_user i n pwd st"
    using assms(2-5) by (simp add: rows_result_def QueryResult_def read_user_def account_user_def
        QueryResult_getInt_def QueryResult_getString_def column_def c_str_no_nul)
qed

lemma triple_mark:
  assumes "int32_range (u_id u)" "u_state u \<in> {''online'', ''offline''}"
  shows "triple (stored (\<lambda>db. presence on db \<and> user_ids db = ids)) (UserModel_updateState E u)
    (\<lambda>ok. stored (presence (if u_state u = ''online'' then (if u_id u \<in> ids then insert (u_id u) on else on) else on - {u_id u})))"
  unfolding UserModel_updateState_def
proof (rule triple_post [OF value_update [OF sends_user(4) [OF assms]]])
  fix db assume "presence on db \<and> user_ids db = ids"
  moreover obtain db' where "sql_change coll db (mark_user (u_id u) (u_state u)) = Some db'"
    by (simp add: sql_change_def mark_user_def)
  ultimately show "\<exists>db'. sql_change coll db (Update ''User'' [(''state'', u_state u)] [Eq ''id'' (show_int (u_id u))]) = Some db' \<and>
      presence (if u_state u = ''online'' then (if u_id u \<in> ids then insert (u_id u) on else on) else on - {u_id u}) db'"
    using mark_user_rows [of db coll "u_id u" "u_state u" db'] by (auto simp: presence_def mark_user_def)
qed simp

lemma triple_markUserOffline:
  assumes "int32_range u"
  shows "triple (stored_svc (\<lambda>db. presence on db \<and> user_ids db = ids)) (markUserOffline E u) (\<lambda>_. stored_svc (presence (on - {u})))"
  unfolding markUserOffline_def
  by (intro triple_bind [OF triple_keeps [OF keeps_stored_redis(2)]]
      triple_bind [OF triple_on_db [OF triple_mark [where u = "\<lparr>u_id = u, u_name = [], u_password = [], u_state = ''offline''\<rparr>"]]]
      triple_return) (use assms in simp_all)

end

context reliable_database
begin

lemma keeps_presence:
  "keeps (stored_svc (presence on)) (sendJson E c j)"
  "keeps (stored_svc (presence on)) (on_rd (Redis_subscribe E u))"
  "keeps (stored_svc (presence on)) (modify (userConnMap_update f))"
  "keeps (stored_svc (presence on)) (on_db (queryOfflineMessagesByRpc E u))"
  "keeps (stored_svc (presence on)) (on_db (removeOfflineMessagesByRpc E u))"
  "keeps (stored_svc (presence on)) (on_db (queryFriendsByRpc E u))"
  "keeps (stored_svc (presence on)) (on_db (GroupModel_queryGroup E u))"
  by (intro keeps_send keeps_stored_redis keeps_stored_node keeps_stored_db
      keeps_offline_rpc(2,3) [OF about_presence(1)] keeps_friend_rpc(6) [OF about_presence(1)]
      keeps_group_model(9) [OF about_presence(1)]; simp)+

lemma login_success_presence:
  assumes "int32_range (u_id u)" "u_state u = ''online''"
  shows "triple (stored_svc (\<lambda>db. presence on db \<and> user_ids db = ids)) (login_success E c u)
    (\<lambda>_. stored_svc (presence (if u_id u \<in> ids then insert (u_id u) on else on)))"
proof -
  let ?on = "if u_id u \<in> ids then insert (u_id u) on else on"
  have u: "triple (stored_svc (\<lambda>db. presence on db \<and> user_ids db = ids)) (on_db (UserModel_updateState E u))
      (\<lambda>ok. stored_svc (presence ?on))"
    by (rule triple_on_db, rule triple_post [OF triple_mark]) (use assms in simp_all)
  show ?thesis
    unfolding login_success_def
    by (rule triple_bind [OF u], rule triple_keeps, intro flow_rules keeps_presence)
qed

lemma login_presence:
  assumes "string_field js ''name'' = Inr name" "string_field js ''password'' = Inr typed"
    and "text_up_to 50 name" "int32_range i" "n \<noteq> []" "no_nul n" "no_nul pwd" "no_nul st"
    and "st \<in> {''online'', ''offline''}"
  shows "triple (stored_svc (\<lambda>db. (presence on db \<and> user_ids db = ids) \<and>
      account coll name [[Some (show_int i), Some n, Some pwd, Some st]] db)) (login E c js)
    (\<lambda>_. stored_svc (presence (if pwd = typed \<and> st = ''offline'' \<and> i \<in> ids then insert i on else on)))"
proof -
  let ?Q = "\<lambda>db. presence on db \<and> user_ids db = ids" and ?u = "account_user i n pwd st"
  have q: "triple (stored_svc (\<lambda>db. ?Q db \<and> account coll name [[Some (show_int i), Some n, Some pwd, Some st]] db))
      (on_db (UserModel_query_name E name)) (\<lambda>x s. stored_svc ?Q s \<and> x = ?u)"
    by (rule value_on_db, rule triple_post [OF value_account [OF assms(3,4,6-8)]]) (auto simp: stored_def)
  have a: "triple (stored_svc ?Q) (sendJson E c j) (\<lambda>_. stored_svc (presence on))" for j
    by (rule triple_pre [OF triple_keeps [OF keeps_presence(1)]]) (simp add: stored_svc_def)
  have "st = ''online'' \<or> st = ''offline''" using assms(9) by simp
  then show ?thesis
    unfolding login_def assms(1,2) require.simps
    by (intro triple_value [OF q] triple_if triple_post [OF a] triple_post [OF login_success_presence [of _ on ids]])
      (use assms(4,5) in \<open>auto simp: account_user_def split: if_splits\<close>)
qed

end

lemma account_row:
  assumes "account coll name [[Some (show_int i), Some n, Some pwd, Some st]] db"
  shows "i \<in> user_ids db" and "st = ''online'' \<Longrightarrow> i \<in> online_users db"
proof -
  have p: "project h [''*''] = (\<lambda>r. r)" for h by (simp add: project_def fun_eq_iff)
  have "[Some (show_int i), Some n, Some pwd, Some st] \<in>
      set (filter (all_hold coll (schema ''User'') [Eq ''name'' name]) (db_rows db ''User''))"
    using assms by (simp add: account_def sql_rows_def p)
  then have r: "[Some (show_int i), Some n, Some pwd, Some st] \<in> set (db_rows db ''User'')" by simp
  show "i \<in> user_ids db" using r by (force simp: user_ids_def)
  show "i \<in> online_users db" if "st = ''online''" using r that by (force simp: online_users_def)
qed

context reliable_database
begin

lemma loginout_presence:
  assumes "int_field js ''userid'' = Inr u" "int32_range u"
  shows "triple (stored_svc (\<lambda>db. presence on db \<and> user_ids db = ids)) (loginout E c js)
    (\<lambda>_. stored_svc (presence (on - {u})))"
  unfolding loginout_def assms(1) require.simps
  by (rule triple_bind [OF triple_keeps [OF keeps_stored_node(2)]], rule triple_bind [OF triple_markUserOffline [OF assms(2)]],
      rule triple_return)

lemma reset_presence:
  assumes "\<And>db db'. users_ok db \<Longrightarrow> P db \<Longrightarrow> sql_change coll db reset_users = Some db' \<Longrightarrow> P' db'"
  shows "triple (stored_svc (\<lambda>db. (presence on db \<and> user_ids db = ids) \<and> P db)) (ChatService_reset E)
    (\<lambda>_. stored_svc (\<lambda>db. ((presence {} db \<and> user_ids db = ids) \<and> P' db) \<and> nobody_online db))"
proof -
  have "triple (stored (\<lambda>db. (presence on db \<and> user_ids db = ids) \<and> P db)) (run_update E sql_user_reset_state)
      (\<lambda>_. stored (\<lambda>db. ((presence {} db \<and> user_ids db = ids) \<and> P' db) \<and> nobody_online db))"
  proof (rule triple_post [OF value_update [OF sends_user(5)]])
    fix db assume "(presence on db \<and> user_ids db = ids) \<and> P db"
    moreover obtain db' where "sql_change coll db reset_users = Some db'"
      by (simp add: sql_change_def reset_users_def)
    ultimately show "\<exists>db'. sql_change coll db (Update ''User'' [(''state'', ''offline'')] [Eq ''state'' ''online'']) = Some db' \<and>
        ((presence {} db' \<and> user_ids db' = ids) \<and> P' db') \<and> nobody_online db'"
      using reset_users_rows(1) [of db coll db'] assms [of db db'] by (auto simp: presence_def reset_users_def)
  qed simp
  then show ?thesis
    unfolding ChatService_reset_def UserModel_resetState_def
    by (intro triple_on_db triple_bind triple_return)
qed

lemma close_presence:
  assumes "find (\<lambda>e. snd e = c) (userConnMap s) = e" "stored_svc (presence on) s"
    and "\<And>i c'. e = Some (i, c') \<Longrightarrow> int32_range i \<and> i \<noteq> - 1"
  shows "stored_svc (presence (case e of None \<Rightarrow> on | Some (i, _) \<Rightarrow> on - {i})) (st_after (clientCloseException E c) s)"
proof (cases e)
  case None
  with assms show ?thesis by (simp add: clientCloseException_def Let_def)
next
  case (Some p)
  then obtain i c' where p: "e = Some (i, c')" by (cases p) simp
  with assms(3) have i: "int32_range i" "i \<noteq> - 1" by simp_all
  let ?s = "userConnMap_update (erase_conn i) s"
  have "st_after (clientCloseException E c) s = st_after (markUserOffline E i) ?s"
    using assms(1) p i by (simp add: clientCloseException_def Let_def)
  moreover have "stored_svc (\<lambda>db. presence on db \<and> user_ids db = user_ids (tables (s_world s))) ?s"
    using assms(2) by (simp add: stored_svc_def)
  ultimately show ?thesis
    using tripleD [OF triple_markUserOffline [OF i(1)], of on "user_ids (tables (s_world s))" ?s] p by simp
qed

end

subsection \<open>Presence is a set of users\<close>

text \<open>C9: presence. When the database carries out its statements and nothing fails, a handler that runs
  without another between its steps changes the set of the users marked online exactly so: a login
  with the right password adds the user, one with a wrong password changes nothing; a logout removes
  the user it names; the loss of a connection removes the user whom the table of connections names
  first for it; the reset at the end of a server empties the set.\<close>

theorem presence_refines:
  assumes "mysql_runs coll E tables" and "no_failures coll E tables" and "users_ok (tables (s_world s))"
    and "string_field js ''name'' = Inr name" and "string_field js ''password'' = Inr typed"
    and "account coll name [[Some (show_int i), Some n, Some pwd, Some st]] (tables (s_world s))"
    and "text_up_to 50 name" and "int32_range i" and "n \<noteq> []" and "no_nul n" and "no_nul pwd"
    and "st \<in> {''online'', ''offline''}"
    and "int_field bye ''userid'' = Inr u" and "int32_range u"
    and "find (\<lambda>e. snd e = c) (userConnMap s) = Some (k, c)" and "int32_range k" and "k \<noteq> - 1"
  shows "let on = online_users (tables (s_world s)); after = (\<lambda>s'. online_users (tables (s_world s'))) in
    after (st_after (login E c js) s) = (if pwd = typed then insert i on else on) \<and>
    after (st_after (loginout E c bye) s) = on - {u} \<and>
    after (st_after (clientCloseException E c) s) = on - {k} \<and>
    after (st_after (ChatService_reset E) s) = {}"
proof -
  note sql = sql_database.intro [OF assms(1)]
  note db = reliable_database.intro [OF sql reliable_database_axioms.intro [OF assms(2)]]
  note stored = sql_database.stored_svc_def [OF sql] presence_def
  let ?db = "tables (s_world s)"
  have nul: "no_nul st" using assms(12) by auto
  have "st \<noteq> ''offline'' \<longrightarrow> i \<in> online_users ?db" using account_row(2) [OF assms(6)] assms(12) by blast
  then have "online_users (tables (s_world (st_after (login E c js) s))) = (if pwd = typed then insert i (online_users ?db) else online_users ?db)"
    using tripleD [OF reliable_database.login_presence [OF db assms(4,5,7-11) nul assms(12), of "online_users ?db" "user_ids ?db" c], of s]
      assms(3,6) account_row(1) [OF assms(6)] by (auto simp: stored)
  moreover have "online_users (tables (s_world (st_after (loginout E c bye) s))) = online_users ?db - {u}"
    using tripleD [OF reliable_database.loginout_presence [OF db assms(13,14), of "online_users ?db" "user_ids ?db" c], of s] assms(3)
    by (simp add: stored)
  moreover have "online_users (tables (s_world (st_after (clientCloseException E c) s))) = online_users ?db - {k}"
    using reliable_database.close_presence [OF db assms(15), of "online_users ?db"] assms(3,16,17) by (simp add: stored)
  moreover have "online_users (tables (s_world (st_after (ChatService_reset E) s))) = {}"
    using tripleD [OF reliable_database.reset_presence [OF db, of "\<lambda>_. True" "\<lambda>_. True" "online_users ?db" "user_ids ?db"], of s] assms(3)
    by (simp add: stored)
  ultimately show ?thesis by (simp add: Let_def)
qed

text \<open>Two users, of whom one is online on connection 4.\<close>

definition two_users :: database where
  "two_users = \<lparr>db_rows = (\<lambda>_. [])(''User'' := [[Some ''7'', Some ''ann'', Some ''secret'', Some ''online''],
     [Some ''8'', Some ''bob'', Some ''1234'', Some ''offline'']]), db_next = (\<lambda>_. 9)\<rparr>"

definition login_json :: "string \<Rightarrow> string \<Rightarrow> json" where
  "login_json name password = JObj [(''msgid'', JInt (msg_id LOGIN_MSG)), (''name'', JStr name), (''password'', JStr password)]"

lemma two_users_bob:
  "account id ''bob'' [[Some (show_int 8), Some ''bob'', Some ''1234'', Some ''offline'']] two_users"
  "users_ok two_users" "online_users two_users = {7}" "text_up_to 50 ''bob''"
proof -
  have d: "show_int 8 = ''8''" "show_int 7 = ''7''" by (simp_all add: show_int_def show_nat.simps digit_char_def char_of_def bit_0)
  show "account id ''bob'' [[Some (show_int 8), Some ''bob'', Some ''1234'', Some ''offline'']] two_users"
    by (simp add: d account_def two_users_def sql_rows_def project_def all_hold_def same_cell_def same_value_def cell_def schema_def)
  show "users_ok two_users" by (simp add: users_ok_def two_users_def)
  show "online_users two_users = {7}"
  proof -
    have "show_int i = ''7'' \<longleftrightarrow> i = 7" "''7'' = show_int i \<longleftrightarrow> i = 7" for i using d(2) show_int_eq by metis+
    then show ?thesis by (auto simp: online_users_def two_users_def)
  qed
  show "text_up_to 50 ''bob''" by (simp add: text_up_to_def safe_text_def safe_char_def)
qed

theorem presence_refines_witness:
  "let s = (mysql_node two_users)\<lparr>userConnMap := [(7, 4)]\<rparr>; after = (\<lambda>s'. online_users (fst (s_world s'))) in
     after (st_after (login MySql 4 (login_json ''bob'' ''1234'')) s) = {7, 8} \<and>
     after (st_after (clientCloseException MySql 4) s) = {}"
proof -
  let ?s = "(mysql_node two_users)\<lparr>userConnMap := [(7, 4)]\<rparr>"
  have "string_field (login_json ''bob'' ''1234'') ''name'' = Inr ''bob''" "string_field (login_json ''bob'' ''1234'') ''password'' = Inr ''1234''"
    by (simp_all add: login_json_def)
  from presence_refines [OF MySql_runs MySql_reliable _ this, of ?s 8 "''bob''" "''1234''" "''offline''"
      "JObj [(''userid'', JInt 7)]" 7 4 7] two_users_bob
  show ?thesis by (simp add: Let_def int32_range_def insert_commute)
qed

end
