(* ===== verification/Lifecycle.thy ===== *)
theory Lifecycle
  imports ChatServer Logger UserFlow
begin

text \<open>
  \<open>src/server/main.cpp\<close>: the life of the server process. Its start checks the arguments and brings up
  the logger, the service and the pool; its end is what \<open>main\<close> does after the event loop returns and
  the destructor of the \<open>ChatServer\<close> object after that, interleaved with the threads that are still
  running: the IO threads, the workers, the Redis listener and the logging thread. The start of the two
  services is here, too.
\<close>

subsection \<open>Starting\<close>

text \<open>
  Where \<open>main\<close> stands: in the event loop; out of it, with the farewell line logged; after the users
  are reset; after the logger is shut down; in the destructor of the pool, which is the member of
  \<open>ChatServer\<close> destroyed first, joining the workers; with the pool gone.
\<close>

datatype main_phase = InLoop | LoopLeft | UsersReset | LoggerDown | JoiningPool | PoolGone

record ('d, 'o) process =
  pr_phase :: main_phase
  pr_server :: "'d server"
  pr_logger :: "'o logger"
  pr_ip :: string
  pr_port :: "16 word"

text \<open>\<open>"ChatServer started at %s:%d\n"\<close> and its two sisters; \<open>%s\<close> ends at a NUL as the argument does.\<close>

definition main_line :: "string \<Rightarrow> string \<Rightarrow> 16 word \<Rightarrow> string" where
  "main_line what ip port = ''ChatServer '' @ what @ '' at '' @ ip @ '':'' @ show_nat (unat port) @ [newline]"

text \<open>
  \<open>main\<close> up to \<open>loop.loop()\<close>. \<open>cap_env\<close> is the environment variable with the capacity of the log
  queue, \<open>log_dir\<close> the compiled-in directory, \<open>created\<close> the number of threads the system lets the pool
  create. The exit code \<open>-1\<close> is 255 to the parent process.
\<close>

definition server_main_start :: "'o os \<Rightarrow> 'd outside \<Rightarrow> string option \<Rightarrow> string \<Rightarrow> string list \<Rightarrow> nat \<Rightarrow> 'o logger \<Rightarrow> 'd \<Rightarrow>
    exit_status + ('d, 'o) process" where
  "server_main_start L E cap_env log_dir argv created lg d =
     (if length argv < 3 then Inl (ExitCode (- 1))
      else let ip = argv ! 1; port = word_of_int (atoi (argv ! 2)) in
        (case Logger_Init L cap_env log_dir ''chatserver'' (show_nat (unat port)) lg of
           (False, _) \<Rightarrow> Inl (ExitCode 1)
         | (True, lg) \<Rightarrow>
             (case ChatService_new E d of
                None \<Rightarrow> Inl (ExitCode 1)
              | Some s \<Rightarrow>
                  (case ThreadPool_new makeBusinessThreadPoolConfig created of
                     Inl _ \<Rightarrow> Inl UncaughtException
                   | Inr p \<Rightarrow> Inr \<lparr>pr_phase = InLoop,
                       pr_server = \<lparr>srv_recvBuf = (\<lambda>_. None), srv_pool = p, srv_svc = s\<rparr>,
                       pr_logger = LOG_macro L INFO (main_line ''started'' ip port) lg,
                       pr_ip = ip, pr_port = port\<rparr>))))"

text \<open>
  The two services (\<open>src/services\<close>) start in the same way: the logger, without an instance tag, then
  the RPC library, whose loop does not return.
\<close>

definition service_main :: "'o os \<Rightarrow> string option \<Rightarrow> string \<Rightarrow> string \<Rightarrow> 'o logger \<Rightarrow> exit_status + 'o logger" where
  "service_main L cap_env log_dir name lg = (case Logger_Init L cap_env log_dir name [] lg of
     (False, _) \<Rightarrow> Inl (ExitCode 1) | (True, lg) \<Rightarrow> Inr lg)"

definition friend_service_main :: "'o os \<Rightarrow> string option \<Rightarrow> string \<Rightarrow> 'o logger \<Rightarrow> exit_status + 'o logger" where
  "friend_service_main L cap_env log_dir = service_main L cap_env log_dir ''friend_service''"

definition offline_service_main :: "'o os \<Rightarrow> string option \<Rightarrow> string \<Rightarrow> 'o logger \<Rightarrow> exit_status + 'o logger" where
  "offline_service_main L cap_env log_dir = service_main L cap_env log_dir ''offline_msg_service''"

lemma service_main_logs:
  assumes "service_main L cap_env log_dir name lg = Inr lg'"
  shows "lg_initialized lg' \<and> lg_instanceTag lg' = [] \<and> lg_logDir lg' = log_dir \<and> \<not> IsShutdown lg' \<and>
    lg_configEpoch lg' = Suc (lg_configEpoch lg)"
  using assms by (auto simp: service_main_def Logger_Init_def IsShutdown_def Let_def split: prod.splits bool.splits if_splits)

subsection \<open>Stopping\<close>

text \<open>
  The next step of \<open>main\<close>. \<open>None\<close>: it is waiting, in the joins of the pool's destructor, or done. The
  event loop may return at any time, on SIGINT.
\<close>

definition on_server :: "('d server \<Rightarrow> 'd server) \<Rightarrow> ('d, 'o) process \<Rightarrow> ('d, 'o) process" where
  "on_server f pr = pr\<lparr>pr_server := f (pr_server pr)\<rparr>"

definition main_next :: "'o os \<Rightarrow> 'd outside \<Rightarrow> ('d, 'o) process \<Rightarrow> ('d, 'o) process option" where
  "main_next L E pr = (case pr_phase pr of
     InLoop \<Rightarrow> Some (pr\<lparr>pr_phase := LoopLeft,
         pr_logger := LOG_macro L INFO (main_line ''stopping'' (pr_ip pr) (pr_port pr)) (pr_logger pr)\<rparr>)
   | LoopLeft \<Rightarrow> Some (on_server (\<lambda>srv. srv\<lparr>srv_svc := st_after (ChatService_reset E) (srv_svc srv)\<rparr>)
         (pr\<lparr>pr_phase := UsersReset\<rparr>))
   | UsersReset \<Rightarrow> Some (pr\<lparr>pr_phase := LoggerDown,
         pr_logger := Shutdown L (LOG_macro L INFO (main_line ''stopped'' (pr_ip pr) (pr_port pr)) (pr_logger pr))\<rparr>)
   | LoggerDown \<Rightarrow>
       (case shutdown_begin None (srv_pool (pr_server pr)) of
          Inr (_, p) \<Rightarrow> Some (on_server (\<lambda>srv. srv\<lparr>srv_pool := p\<rparr>) (pr\<lparr>pr_phase := JoiningPool\<rparr>))
        | Inl _ \<Rightarrow> None)
   | JoiningPool \<Rightarrow>
       (if joined (srv_pool (pr_server pr)) then Some (pr\<lparr>pr_phase := PoolGone\<rparr>) else None)
   | PoolGone \<Rightarrow> None)"

text \<open>
  The threads of the process. Until the pool is gone the others go on: the IO threads still take
  bytes and lose connections, the workers work, and anyone logs. With the pool gone nothing is
  claimed of them any more.
\<close>

inductive process_step :: "'o os \<Rightarrow> 'd outside \<Rightarrow> ('d, 'o) process \<Rightarrow> ('d, 'o) process \<Rightarrow> bool" for L E where
  main_moves: "main_next L E pr = Some pr' \<Longrightarrow> process_step L E pr pr'"
| serves: "pr_phase pr \<noteq> PoolGone \<Longrightarrow> srv_step E (pr_server pr) srv \<Longrightarrow> process_step L E pr (pr\<lparr>pr_server := srv\<rparr>)"
| worker_returns: "i < length (tp_workers (srv_pool (pr_server pr))) \<Longrightarrow>
    tp_workers (srv_pool (pr_server pr)) ! i = Waiting \<Longrightarrow>
    worker_wait i (srv_pool (pr_server pr)) = WorkerReturns p \<Longrightarrow>
    process_step L E pr (on_server (\<lambda>srv. srv\<lparr>srv_pool := p\<rparr>) pr)"
| logs: "process_step L E pr (pr\<lparr>pr_logger := LOG_macro L level txt (pr_logger pr)\<rparr>)"
| log_written: "consume L (pr_logger pr) = (Got m, lg) \<Longrightarrow> process_step L E pr (pr\<lparr>pr_logger := lg\<rparr>)"

inductive process_run :: "'o os \<Rightarrow> 'd outside \<Rightarrow> ('d, 'o) process \<Rightarrow> ('d, 'o) process \<Rightarrow> bool" for L E where
  run_refl: "process_run L E pr pr"
| run_step: "process_step L E pr pr1 \<Longrightarrow> process_run L E pr1 pr2 \<Longrightarrow> process_run L E pr pr2"

lemma process_run_trans: "process_run L E a b \<Longrightarrow> process_run L E b c \<Longrightarrow> process_run L E a c"
  by (induction rule: process_run.induct) (auto intro: process_run.run_step)

lemma process_run_one: "process_step L E a b \<Longrightarrow> process_run L E a b"
  by (blast intro: process_run.intros)

lemma on_server_simps [simp]:
  "pr_phase (on_server f pr) = pr_phase pr" "pr_server (on_server f pr) = f (pr_server pr)"
  "pr_logger (on_server f pr) = pr_logger pr"
  by (simp_all add: on_server_def)

subsection \<open>A stop always comes to its end\<close>

text \<open>The steps of a stopped pool are steps of the process.\<close>

lemma pool_step_lifts:
  assumes "tp_step (srv_pool (pr_server pr)) e p" "tp_stopped (srv_pool (pr_server pr))" "pr_phase pr \<noteq> PoolGone"
  shows "\<exists>pr'. process_step L E pr pr' \<and> srv_pool (pr_server pr') = p \<and> pr_phase pr' = pr_phase pr"
  using assms(1)
proof (cases rule: tp_step.cases)
  case (takes i t)
  from process_step.serves [OF assms(3) srv_step.worker_takes [OF takes(2-4)], of L] show ?thesis
    by (rule_tac exI, intro conjI) (assumption | simp)+
next
  case (returns i)
  from process_step.worker_returns [OF returns(2-4), of L E] show ?thesis
    by (rule_tac exI, intro conjI) (assumption | simp)+
next
  case (finishes i t)
  from process_step.serves [OF assms(3) srv_step.worker_runs [OF finishes(3,4), of E], of L] show ?thesis
    using finishes(2) by (rule_tac exI, intro conjI) (assumption | simp)+
qed (use assms(2) in \<open>simp_all add: enqueue_def shutdown_begin_def\<close>)

lemma pool_run_lifts:
  assumes "tp_stopped (srv_pool (pr_server pr))" "pr_phase pr \<noteq> PoolGone"
  shows "\<exists>pr'. process_run L E pr pr' \<and> pr_phase pr' = pr_phase pr \<and> joined (srv_pool (pr_server pr'))"
  using assms
proof (induction "remaining (srv_pool (pr_server pr))" arbitrary: pr rule: less_induct)
  case less
  show ?case
  proof (cases "joined (srv_pool (pr_server pr))")
    case True
    then show ?thesis by (blast intro: process_run.run_refl)
  next
    case False
    then obtain e p where s: "tp_step (srv_pool (pr_server pr)) e p"
      using stopped_progress less.prems(1) by blast
    obtain pr1 where 1: "process_step L E pr pr1" "srv_pool (pr_server pr1) = p" "pr_phase pr1 = pr_phase pr"
      using pool_step_lifts [OF s less.prems] by blast
    with less stopped_step_decreases [OF s] obtain pr2 where
      "process_run L E pr1 pr2" "pr_phase pr2 = pr_phase pr1" "joined (srv_pool (pr_server pr2))"
      by metis
    with 1 show ?thesis by (metis process_run.run_step)
  qed
qed

text \<open>The number of steps \<open>main\<close> has before it.\<close>

fun steps_left :: "main_phase \<Rightarrow> nat" where
  "steps_left InLoop = 5"
| "steps_left LoopLeft = 4"
| "steps_left UsersReset = 3"
| "steps_left LoggerDown = 2"
| "steps_left JoiningPool = 1"
| "steps_left PoolGone = 0"

text \<open>The phases in the order in which \<open>main\<close> goes through them.\<close>

instantiation main_phase :: linorder
begin

definition less_eq_main_phase :: "main_phase \<Rightarrow> main_phase \<Rightarrow> bool" where
  "less_eq_main_phase a b \<longleftrightarrow> steps_left b \<le> steps_left a"

definition less_main_phase :: "main_phase \<Rightarrow> main_phase \<Rightarrow> bool" where
  "less_main_phase a b \<longleftrightarrow> steps_left b < steps_left a"

instance
proof
  fix a b c :: main_phase
  have inj: "steps_left a = steps_left b \<Longrightarrow> a = b" by (cases a; cases b) simp_all
  show "a < b \<longleftrightarrow> a \<le> b \<and> \<not> b \<le> a" by (auto simp: less_eq_main_phase_def less_main_phase_def)
  show "a \<le> a" by (simp add: less_eq_main_phase_def)
  show "a \<le> b \<Longrightarrow> b \<le> c \<Longrightarrow> a \<le> c" by (simp add: less_eq_main_phase_def)
  show "a \<le> b \<Longrightarrow> b \<le> a \<Longrightarrow> a = b" using inj by (simp add: less_eq_main_phase_def)
  show "a \<le> b \<or> b \<le> a" by (simp add: less_eq_main_phase_def linear)
qed

end

definition pool_joining :: "('d, 'o) process \<Rightarrow> bool" where
  "pool_joining pr \<longleftrightarrow> pr_phase pr = JoiningPool \<longrightarrow> tp_stopped (srv_pool (pr_server pr))"

lemma shutdown_begin_stops: "shutdown_begin None p = Inr (b, p\<lparr>tp_stopped := True\<rparr>) \<longleftrightarrow> b = (\<not> tp_stopped p)"
  by (auto simp: shutdown_begin_def)

lemma main_next_moves:
  assumes "main_next L E pr = Some pr'"
  shows "steps_left (pr_phase pr') < steps_left (pr_phase pr)" and "pool_joining pr'"
  using assms
  by (auto simp: main_next_def pool_joining_def shutdown_begin_def split: main_phase.splits if_splits)

text \<open>No step of any thread takes \<open>main\<close> back.\<close>

lemma process_step_forward: "process_step L E pr pr' \<Longrightarrow> pr_phase pr \<le> pr_phase pr'"
  by (erule process_step.cases) (auto simp: less_eq_main_phase_def dest: main_next_moves(1))

lemma process_run_forward: "process_run L E pr pr' \<Longrightarrow> pr_phase pr \<le> pr_phase pr'"
  by (induction rule: process_run.induct) (auto intro: order_trans process_step_forward)

lemma main_next_waits:
  "main_next L E pr = None \<longleftrightarrow> pr_phase pr = PoolGone \<or> pr_phase pr = JoiningPool \<and> \<not> joined (srv_pool (pr_server pr))"
  by (auto simp: main_next_def shutdown_begin_def split: main_phase.splits)

lemma stop_finishes:
  assumes "pool_joining pr"
  shows "\<exists>pr'. process_run L E pr pr' \<and> pr_phase pr' = PoolGone"
  using assms
proof (induction "steps_left (pr_phase pr)" arbitrary: pr rule: less_induct)
  case less
  show ?case
  proof (cases "main_next L E pr")
    case (Some pr1)
    with less(1) [of pr1] main_next_moves [OF Some] show ?thesis
      by (blast intro: process_run.run_step process_step.main_moves)
  next
    case None
    show ?thesis
    proof (cases "pr_phase pr = PoolGone")
      case True
      then show ?thesis by (blast intro: process_run.run_refl)
    next
      case False
      with None have j: "pr_phase pr = JoiningPool" by (simp add: main_next_waits)
      with less.prems obtain pr1 where 1: "process_run L E pr pr1" "pr_phase pr1 = JoiningPool" "joined (srv_pool (pr_server pr1))"
        using pool_run_lifts [of pr L E] by (auto simp: pool_joining_def)
      then have "process_step L E pr1 (pr1\<lparr>pr_phase := PoolGone\<rparr>)"
        by (intro process_step.main_moves) (simp add: main_next_def)
      with 1 show ?thesis
        by (metis process_run_trans process_run_one ext process.select_convs(1) process.surjective process.update_convs(1))
    qed
  qed
qed

subsection \<open>What holds of a running process\<close>

text \<open>What every change of the pool keeps, the server's steps keep.\<close>

lemma frame_loop_pool:
  assumes "\<And>t p p'. enqueue t p = Inr p' \<Longrightarrow> P p \<Longrightarrow> P p'" and "P (srv_pool srv)"
  shows "P (srv_pool (frame_loop E conn srv))"
  using assms(2)
proof (induction E conn srv rule: frame_loop.induct)
  case (1 E conn srv)
  show ?case
  proof (cases "find_char newline (buf_of srv conn)")
    case None
    with 1(2) show ?thesis by (subst frame_loop.simps) simp
  next
    case (Some pos)
    define srv1 where "srv1 = set_buf conn (drop (pos + 1) (buf_of srv conn)) srv"
    define r where "r = handle_frame E conn (take pos (buf_of srv conn)) srv1"
    have loop: "frame_loop E conn srv = (if fst r then snd r else frame_loop E conn (snd r))"
      by (subst frame_loop.simps) (simp add: Some Let_def r_def srv1_def)
    have "srv_pool srv1 = srv_pool srv" by (simp add: srv1_def set_buf_def)
    then have "srv_pool (snd r) = srv_pool srv \<or> (\<exists>t. enqueue t (srv_pool srv) = Inr (srv_pool (snd r)))"
      by (auto simp: r_def handle_frame_def send_busy_def split: option.split sum.split)
    then have r: "P (srv_pool (snd r))" using 1(2) assms(1) by metis
    show ?thesis
    proof (cases "fst r")
      case True
      with loop r show ?thesis by simp
    next
      case False
      with 1(1) [OF Some refl srv1_def r_def] r loop show ?thesis by simp
    qed
  qed
qed

lemma srv_step_pool:
  assumes "srv_step E srv srv'" and "\<And>e p p'. tp_step p e p' \<Longrightarrow> P p \<Longrightarrow> P p'" and "P (srv_pool srv)"
  shows "P (srv_pool srv')"
  using assms(1)
proof cases
  case (bytes_arrive conn bytes)
  have "P (srv_pool (set_buf conn b srv))" for b using assms(3) by (simp add: set_buf_def)
  then show ?thesis unfolding bytes_arrive onMessage_def
    by (rule frame_loop_pool [rotated]) (rule assms(2) [OF tp_step.enqueues])
next
  case (peer_gone conn)
  have "srv_pool srv' = srv_pool srv \<or> (\<exists>t. enqueue t (srv_pool srv) = Inr (srv_pool srv'))"
    by (auto simp: peer_gone onConnection_def onDisconnect_def Let_def split: sum.split)
  with assms(3) assms(2) [OF tp_step.enqueues] show ?thesis by metis
next
  case (worker_takes i t p)
  with assms(2) [OF tp_step.takes [OF worker_takes(2-4)]] assms(3) show ?thesis by simp
next
  case (worker_runs i t)
  with assms(2) [OF tp_step.finishes [OF worker_runs(2,3)]] assms(3) show ?thesis by simp
next
  case redis_message
  with assms(3) show ?thesis by simp
qed

lemma LOG_macro_shutdown [simp]: "lg_shutdown (LOG_macro L level txt lg) = lg_shutdown lg"
  by (simp add: LOG_macro_def Log_def IsShutdown_def split: prod.split)

lemma consume_shutdown: "consume L lg = (r, lg') \<Longrightarrow> lg_shutdown lg' = lg_shutdown lg"
proof -
  have w: "lg_shutdown (writeLine L l x) = lg_shutdown x" for l x
    by (simp add: writeLine_def Let_def split: prod.split option.split)
  have "lg_shutdown (snd (consume L lg)) = lg_shutdown lg"
    by (simp add: consume_def Let_def w report_dropped_def refreshConfig_def split: prod.split pop_result.split)
  then show "consume L lg = (r, lg') \<Longrightarrow> lg_shutdown lg' = lg_shutdown lg" by simp
qed

lemma consumer_loop_shutdown: "lg_shutdown (consumer_loop L lg) = lg_shutdown lg"
proof (induction L lg rule: consumer_loop.induct)
  case (1 L lg)
  then show ?case
    by (subst consumer_loop.simps) (auto split: prod.split pop_result.split dest: consume_shutdown)
qed

lemma Shutdown_shutdown [simp]: "lg_shutdown (Shutdown L lg)"
  by (simp add: Shutdown_def consumer_loop_shutdown)

text \<open>
  The pool keeps its own invariant and its four workers, it is stopped in its destructor and joined
  after it, and the logger is down from its shutdown on.
\<close>

definition process_inv :: "('d, 'o) process \<Rightarrow> bool" where
  "process_inv pr \<longleftrightarrow> tp_inv (srv_pool (pr_server pr)) \<and> length (tp_workers (srv_pool (pr_server pr))) = 4 \<and>
     (pr_phase pr \<in> {JoiningPool, PoolGone} \<longrightarrow> tp_stopped (srv_pool (pr_server pr))) \<and>
     (pr_phase pr = PoolGone \<longrightarrow> joined (srv_pool (pr_server pr))) \<and>
     (pr_phase pr \<in> {LoggerDown, JoiningPool, PoolGone} \<longrightarrow> lg_shutdown (pr_logger pr))"

lemma tp_step_keeps:
  assumes "tp_step p e p'"
  shows "tp_inv p \<and> length (tp_workers p) = 4 \<and> (b \<longrightarrow> tp_stopped p) \<Longrightarrow>
    tp_inv p' \<and> length (tp_workers p') = 4 \<and> (b \<longrightarrow> tp_stopped p')"
  using tp_step_inv [OF assms] tp_step_workers [OF assms] stopped_step_decreases(2) [OF assms] by auto

lemma main_next_inv:
  assumes "main_next L E pr = Some pr'" "process_inv pr"
  shows "process_inv pr'"
proof (cases "pr_phase pr")
  case LoggerDown
  with assms show ?thesis
    by (auto simp: main_next_def process_inv_def shutdown_begin_def tp_inv_def split: if_splits)
qed (use assms in \<open>auto simp: main_next_def process_inv_def split: if_splits\<close>)

lemma process_step_inv:
  assumes "process_step L E pr pr'" "process_inv pr"
  shows "process_inv pr'"
  using assms(1)
proof cases
  case main_moves
  then show ?thesis using assms(2) by (rule main_next_inv)
next
  case (serves srv)
  have "tp_inv (srv_pool srv) \<and> length (tp_workers (srv_pool srv)) = 4 \<and>
      (pr_phase pr \<in> {JoiningPool, PoolGone} \<longrightarrow> tp_stopped (srv_pool srv))"
    by (rule srv_step_pool [OF serves(3), of "\<lambda>p. tp_inv p \<and> length (tp_workers p) = 4 \<and>
        (pr_phase pr \<in> {JoiningPool, PoolGone} \<longrightarrow> tp_stopped p)", OF tp_step_keeps])
      (use assms(2) in \<open>simp_all add: process_inv_def\<close>)
  with serves assms(2) show ?thesis by (simp add: process_inv_def)
next
  case (worker_returns i p)
  have "tp_stopped (srv_pool (pr_server pr)) \<and> tp_tasks (srv_pool (pr_server pr)) = []"
    using worker_returns(4) by (auto simp: worker_wait_def split: if_splits)
  moreover have "p = (srv_pool (pr_server pr))\<lparr>tp_workers := (tp_workers (srv_pool (pr_server pr)))[i := Returned]\<rparr>"
    using worker_returns(4) by (auto simp: worker_wait_def split: if_splits)
  ultimately show ?thesis
    using assms(2) worker_returns(1)
    by (auto simp: process_inv_def tp_inv_def joined_def dest!: set_update_subset_insert [THEN subsetD])
next
  case logs
  with assms(2) show ?thesis by (simp add: process_inv_def)
next
  case (log_written m lg)
  with assms(2) consume_shutdown [OF log_written(2)] show ?thesis by (simp add: process_inv_def)
qed

lemma process_run_inv: "process_run L E pr pr' \<Longrightarrow> process_inv pr \<Longrightarrow> process_inv pr'"
  by (induction rule: process_run.induct) (auto dest: process_step_inv)

lemma server_main_start_inv:
  assumes "server_main_start L E cap_env log_dir argv created lg d = Inr pr"
  shows "process_inv pr"
proof -
  obtain s p where "pr_server pr = \<lparr>srv_recvBuf = (\<lambda>_. None), srv_pool = p, srv_svc = s\<rparr>" "pr_phase pr = InLoop"
    and p: "ThreadPool_new makeBusinessThreadPoolConfig created = Inr p"
    using assms by (auto simp: server_main_start_def Let_def split: if_splits prod.splits bool.splits option.splits sum.splits)
  with ThreadPool_new_inv [OF p] show ?thesis
    by (auto simp: process_inv_def ThreadPool_new_def makeBusinessThreadPoolConfig_def split: if_splits)
qed

lemma joined_no_tasks: "tp_inv p \<Longrightarrow> joined p \<Longrightarrow> tp_workers p \<noteq> [] \<Longrightarrow> tp_tasks p = []"
  by (cases "tp_workers p") (auto simp: tp_inv_def joined_def)

lemma process_step_pool:
  assumes "process_step L E pr pr'" "tp_stopped (srv_pool (pr_server pr))"
  shows "srv_pool (pr_server pr') = srv_pool (pr_server pr) \<or>
    remaining (srv_pool (pr_server pr')) < remaining (srv_pool (pr_server pr))"
  using assms(1)
proof cases
  case main_moves
  then show ?thesis using assms(2)
    by (auto simp: main_next_def shutdown_begin_def split: main_phase.splits if_splits)
next
  case (serves srv)
  let ?p = "srv_pool (pr_server pr)"
  have "tp_stopped (srv_pool srv) \<and> (srv_pool srv = ?p \<or> remaining (srv_pool srv) < remaining ?p)"
  proof (rule srv_step_pool [OF serves(3), of "\<lambda>p. tp_stopped p \<and> (p = ?p \<or> remaining p < remaining ?p)"])
    show "tp_stopped p' \<and> (p' = ?p \<or> remaining p' < remaining ?p)"
      if "tp_step p e p'" "tp_stopped p \<and> (p = ?p \<or> remaining p < remaining ?p)" for e p p'
      using that stopped_step_decreases [of p e p'] by auto
  qed (use assms(2) in simp)
  with serves show ?thesis by simp
next
  case (worker_returns i p)
  with stopped_step_decreases(1) [OF tp_step.returns assms(2)] show ?thesis by auto
qed simp_all

text \<open>C18: a server that is told to stop comes to its end. From every state of a started process, with
  any input under way, \<open>main\<close> can reach its end; while the destructor joins the workers no thread
  can add work to the pool, and every step on the pool brings the end nearer; at the end no task
  is left or running, and the logger is down.\<close>

theorem stop_always_finishes:
  assumes "server_main_start L E cap_env log_dir argv created lg d = Inr pr0" and "process_run L E pr0 pr"
  shows "(\<exists>pr'. process_run L E pr pr' \<and> pr_phase pr' = PoolGone) \<and>
    (pr_phase pr = JoiningPool \<longrightarrow> (\<forall>pr'. process_step L E pr pr' \<longrightarrow>
       srv_pool (pr_server pr') = srv_pool (pr_server pr) \<or>
       remaining (srv_pool (pr_server pr')) < remaining (srv_pool (pr_server pr)))) \<and>
    (pr_phase pr = PoolGone \<longrightarrow> tp_tasks (srv_pool (pr_server pr)) = [] \<and>
       running (srv_pool (pr_server pr)) = {#} \<and> lg_shutdown (pr_logger pr))"
proof (intro conjI impI allI)
  have inv: "process_inv pr"
    by (rule process_run_inv [OF assms(2) server_main_start_inv [OF assms(1)]])
  then show "\<exists>pr'. process_run L E pr pr' \<and> pr_phase pr' = PoolGone"
    by (intro stop_finishes) (simp add: pool_joining_def process_inv_def)
  show "srv_pool (pr_server pr') = srv_pool (pr_server pr) \<or>
      remaining (srv_pool (pr_server pr')) < remaining (srv_pool (pr_server pr))"
    if "pr_phase pr = JoiningPool" "process_step L E pr pr'" for pr'
    using process_step_pool [OF that(2)] inv that(1) by (simp add: process_inv_def)
  show "tp_tasks (srv_pool (pr_server pr)) = []" if "pr_phase pr = PoolGone"
    using inv that by (intro joined_no_tasks) (auto simp: process_inv_def)
  show "running (srv_pool (pr_server pr)) = {#}" if "pr_phase pr = PoolGone"
    using inv that joined_running by (auto simp: process_inv_def)
  show "lg_shutdown (pr_logger pr)" if "pr_phase pr = PoolGone"
    using inv that by (simp add: process_inv_def)
qed

definition scripted_process :: "(script, nat) process" where
  "scripted_process = \<lparr>pr_phase = InLoop, pr_server = scripted_server [],
     pr_logger = LOG_macro test_os INFO (main_line ''started'' ''127.0.0.1'' 6000)
       (snd (Logger_Init test_os None ''logs'' ''chatserver'' (show_nat 6000) (Logger_init None 0))),
     pr_ip = ''127.0.0.1'', pr_port = 6000\<rparr>"

lemma scripted_process_start:
  "server_main_start test_os scripted None ''logs'' [''ChatServer'', ''127.0.0.1'', ''6000''] 4 (Logger_init None 0) ([], []) =
     Inr scripted_process"
proof -
  have "atoi ''6000'' = 6000"
    by (simp add: atoi_def scan_int_def scan_sign_def is_space_def is_digit_def signed_val_def digits_val_def
        digit_val_def clamp64_def to_int32_def)
  moreover have "fst (Logger_Init test_os None ''logs'' ''chatserver'' (show_nat 6000) (Logger_init None 0))"
    by (simp add: Logger_Init_def IsShutdown_def Logger_init_def EnsureDirectory_def test_os_def)
  ultimately show ?thesis
    by (cases "Logger_Init test_os None ''logs'' ''chatserver'' (show_nat 6000) (Logger_init None 0)")
      (simp add: Let_def server_main_start_def scripted_process_def scripted_start scripted_server_def ThreadPool_new_def
        makeBusinessThreadPoolConfig_def)
qed

theorem stop_always_finishes_witness:
  "\<exists>pr. process_run test_os scripted scripted_process pr \<and> pr_phase pr = PoolGone"
  using stop_always_finishes [OF scripted_process_start process_run.run_refl] by blast

subsection \<open>What a stop does to the users and the log\<close>

lemma ChatService_reset_offline:
  assumes "mysql_runs coll E tables" "no_failures coll E tables" "users_ok (tables (s_world s))"
  shows "nobody_online (tables (s_world (st_after (ChatService_reset E) s)))"
    and "users_ok (tables (s_world (st_after (ChatService_reset E) s)))"
proof -
  note sql = sql_database.intro [OF assms(1)]
  note db = reliable_database.intro [OF sql reliable_database_axioms.intro [OF assms(2)]]
  show "nobody_online (tables (s_world (st_after (ChatService_reset E) s)))"
    "users_ok (tables (s_world (st_after (ChatService_reset E) s)))"
    using tripleD [OF reliable_database.reset_presence [OF db, of "\<lambda>_. True" "\<lambda>_. True" "online_users (tables (s_world s))" "user_ids (tables (s_world s))"], of s]
      assms(3) by (simp_all add: sql_database.stored_svc_def [OF sql] presence_def)
qed

definition has_room :: "nat \<Rightarrow> 'o logger \<Rightarrow> bool" where
  "has_room n lg \<longleftrightarrow> \<not> lg_shutdown lg \<and> \<not> lq_stop (lg_lockQueue lg) \<and>
     (lq_capacity (lg_lockQueue lg) = 0 \<or> length (lq_queue (lg_lockQueue lg)) + n \<le> lq_capacity (lg_lockQueue lg))"

text \<open>A line as the macro logs it, after the prefix with the level and the time.\<close>

definition logged_text :: "string \<Rightarrow> string" where
  "logged_text txt = take 1023 (c_str txt) @ [newline]"

lemma LOG_macro_line:
  assumes "has_room (Suc n) lg"
  shows "\<exists>a. lq_queue (lg_lockQueue (LOG_macro L level txt lg)) = lq_queue (lg_lockQueue lg) @ [a @ logged_text txt]"
    and "has_room n (LOG_macro L level txt lg)" and "written (LOG_macro L level txt lg) = written lg"
    and "pending_note (LOG_macro L level txt lg) = pending_note lg"
  using assms
  by (auto simp: LOG_macro_def Log_def IsShutdown_def has_room_def Push_def Let_def logged_text_def written_def
      pending_note_def split: prod.split)

lemma Shutdown_written:
  assumes "os_works L" "\<not> lg_shutdown lg" "lq_queue (lg_lockQueue lg) \<noteq> []"
  shows "written (Shutdown L lg) = written lg @ pending_note lg @ map c_str (lq_queue (lg_lockQueue lg))"
  using consumer_loop_written [OF assms(1), of "lg\<lparr>lg_shutdown := True, lg_lockQueue := Stop (lg_lockQueue lg)\<rparr>"] assms(2,3)
  by (simp add: Shutdown_def Stop_def pending_note_def written_def)

text \<open>C19: what \<open>main\<close> does after the event loop. In a world where the database carries out its
  statements and the log files open, the three steps after the loop leave no user online in the table
  \<open>User\<close>, not those of other nodes either; everything logged before and the two lines of \<open>main\<close> are in
  the log file, in order, after the note on dropped lines if one is due; and from then on logging
  does nothing.\<close>

theorem stop_resets_and_flushes:
  assumes "mysql_runs coll E tables" and "no_failures coll E tables" and "os_works L"
    and "users_ok (tables (s_world (srv_svc (pr_server pr))))"
    and "pr_phase pr = InLoop" and "has_room 2 (pr_logger pr)"
    and "main_next L E pr = Some p1" and "main_next L E p1 = Some p2" and "main_next L E p2 = Some p3"
  shows "pr_phase p3 = LoggerDown \<and> nobody_online (tables (s_world (srv_svc (pr_server p3)))) \<and>
    (\<exists>a b. written (pr_logger p3) = written (pr_logger pr) @ pending_note (pr_logger pr) @
       map c_str (lq_queue (lg_lockQueue (pr_logger pr)) @
         [a @ logged_text (main_line ''stopping'' (pr_ip pr) (pr_port pr)),
          b @ logged_text (main_line ''stopped'' (pr_ip pr) (pr_port pr))])) \<and>
    LOG_macro L level txt (pr_logger p3) = pr_logger p3"
proof -
  let ?lg1 = "LOG_macro L INFO (main_line ''stopping'' (pr_ip pr) (pr_port pr)) (pr_logger pr)"
  let ?lg2 = "LOG_macro L INFO (main_line ''stopped'' (pr_ip pr) (pr_port pr)) ?lg1"
  let ?svc = "st_after (ChatService_reset E) (srv_svc (pr_server pr))"
  have p1: "p1 = pr\<lparr>pr_phase := LoopLeft, pr_logger := ?lg1\<rparr>"
    using assms(5,7) by (simp add: main_next_def)
  then have p2: "p2 = p1\<lparr>pr_phase := UsersReset, pr_server := (pr_server pr)\<lparr>srv_svc := ?svc\<rparr>\<rparr>"
    using assms(8) by (simp add: main_next_def on_server_def)
  with p1 have p3: "pr_phase p3 = LoggerDown" "srv_svc (pr_server p3) = ?svc" "pr_logger p3 = Shutdown L ?lg2"
    using assms(9) by (auto simp: main_next_def)
  have r: "has_room (Suc (Suc 0)) (pr_logger pr)" using assms(6) by (simp add: numeral_2_eq_2)
  note l1 = LOG_macro_line [OF r, of L INFO "main_line ''stopping'' (pr_ip pr) (pr_port pr)"]
  note l2 = LOG_macro_line [OF l1(2), of L INFO "main_line ''stopped'' (pr_ip pr) (pr_port pr)"]
  obtain a b where q: "lq_queue (lg_lockQueue ?lg2) = lq_queue (lg_lockQueue (pr_logger pr)) @
      [a @ logged_text (main_line ''stopping'' (pr_ip pr) (pr_port pr)),
       b @ logged_text (main_line ''stopped'' (pr_ip pr) (pr_port pr))]"
    using l1(1) l2(1) by auto
  have "written (pr_logger p3) = written (pr_logger pr) @ pending_note (pr_logger pr) @ map c_str (lq_queue (lg_lockQueue ?lg2))"
    using Shutdown_written [OF assms(3), of ?lg2] l2(2-4) l1(3,4) q p3(3) by (simp add: has_room_def)
  with q have "\<exists>a b. written (pr_logger p3) = written (pr_logger pr) @ pending_note (pr_logger pr) @
       map c_str (lq_queue (lg_lockQueue (pr_logger pr)) @
         [a @ logged_text (main_line ''stopping'' (pr_ip pr) (pr_port pr)),
          b @ logged_text (main_line ''stopped'' (pr_ip pr) (pr_port pr))])"
    by auto
  moreover have "LOG_macro L level txt (pr_logger p3) = pr_logger p3"
    unfolding p3(3) by (simp add: LOG_macro_def Log_def IsShutdown_def)
  ultimately show ?thesis
    using p3(1,2) ChatService_reset_offline [OF assms(1,2,4)] by simp
qed

text \<open>A process on given tables, with tasks in its pool.\<close>

definition mysql_process :: "database \<Rightarrow> task list \<Rightarrow> (mysql, nat) process" where
  "mysql_process db ts = \<lparr>pr_phase = InLoop,
     pr_server = \<lparr>srv_recvBuf = (\<lambda>_. None),
       srv_pool = \<lparr>tp_workers = replicate 4 Waiting, tp_tasks = ts, tp_stopped = False,
         tp_config = makeBusinessThreadPoolConfig\<rparr>,
       srv_svc = mysql_node db\<rparr>,
     pr_logger = Logger_init None 0, pr_ip = ''127.0.0.1'', pr_port = 6000\<rparr>"

lemma has_room_init: "has_room 2 (Logger_init None d)"
  by (simp add: has_room_def Logger_init_def LockQueue_def LoadQueueCapacity_def kDefaultLogQueueCapacity_def)

lemma main_next_three:
  assumes "pr_phase pr = InLoop"
  shows "\<exists>p1 p2 p3. main_next L E pr = Some p1 \<and> main_next L E p1 = Some p2 \<and> main_next L E p2 = Some p3"
  using assms by (simp add: main_next_def)

theorem stop_resets_and_flushes_witness:
  "\<exists>p1 p2 p3. main_next test_os MySql (mysql_process two_users []) = Some p1 \<and> main_next test_os MySql p1 = Some p2 \<and>
     main_next test_os MySql p2 = Some p3 \<and> online_users two_users = {7} \<and>
     nobody_online (fst (s_world (srv_svc (pr_server p3)))) \<and> length (written (pr_logger p3)) = 2"
proof -
  let ?pr = "mysql_process two_users []"
  have i: "users_ok (fst (s_world (srv_svc (pr_server ?pr))))" "pr_phase ?pr = InLoop" "has_room 2 (pr_logger ?pr)"
    using has_room_init two_users_bob by (simp_all add: mysql_process_def)
  obtain p1 p2 p3 where m: "main_next test_os MySql ?pr = Some p1" "main_next test_os MySql p1 = Some p2"
    "main_next test_os MySql p2 = Some p3" using main_next_three [OF i(2)] by blast
  have "written (pr_logger ?pr) = []" "pending_note (pr_logger ?pr) = []" "lq_queue (lg_lockQueue (pr_logger ?pr)) = []"
    by (simp_all add: mysql_process_def Logger_init_def written_def pending_note_def LockQueue_def)
  then show ?thesis
    using stop_resets_and_flushes [OF MySql_runs MySql_reliable test_os_works i m, of INFO "[]"] m two_users_bob(3) by auto
qed

subsection \<open>What is still queued when the users are reset\<close>

text \<open>One worker that takes and runs the tasks one after the other.\<close>

lemma one_worker_drains:
  assumes "tp_workers (srv_pool (pr_server pr)) = Waiting # ws" "tp_tasks (srv_pool (pr_server pr)) = ts"
    and "pr_phase pr \<noteq> PoolGone"
  shows "\<exists>pr'. process_run L E pr pr' \<and> pr_phase pr' = pr_phase pr \<and> pr_logger pr' = pr_logger pr \<and>
    srv_pool (pr_server pr') = (srv_pool (pr_server pr))\<lparr>tp_tasks := []\<rparr> \<and>
    srv_svc (pr_server pr') = fold (run_task E) ts (srv_svc (pr_server pr))"
  using assms
proof (induction ts arbitrary: pr)
  case Nil
  then have "srv_pool (pr_server pr) = (srv_pool (pr_server pr))\<lparr>tp_tasks := []\<rparr>" by simp
  then show ?case by (intro exI [of _ pr]) (auto intro: process_run.run_refl)
next
  case (Cons t ts)
  let ?srv = "pr_server pr"
  let ?p1 = "(srv_pool ?srv)\<lparr>tp_workers := Running t # ws, tp_tasks := ts\<rparr>"
  let ?srv1 = "?srv\<lparr>srv_pool := ?p1\<rparr>"
  let ?srv2 = "?srv1\<lparr>srv_pool := worker_done 0 ?p1, srv_svc := run_task E t (srv_svc ?srv)\<rparr>"
  have w: "worker_wait 0 (srv_pool ?srv) = TakesTask t ?p1"
    using Cons.prems by (simp add: worker_wait_def)
  have "srv_step E ?srv ?srv1"
    using srv_step.worker_takes [OF _ _ w, of E] Cons.prems(1) by simp
  then have 1: "process_step L E pr (pr\<lparr>pr_server := ?srv1\<rparr>)"
    by (rule process_step.serves [OF Cons.prems(3)])
  have "srv_step E ?srv1 ?srv2"
    using srv_step.worker_runs [of 0 ?srv1 t E] by simp
  then have 2: "process_step L E (pr\<lparr>pr_server := ?srv1\<rparr>) (pr\<lparr>pr_server := ?srv2\<rparr>)"
    using process_step.serves [of "pr\<lparr>pr_server := ?srv1\<rparr>" E ?srv2 L] Cons.prems(3) by simp
  have p2: "srv_pool ?srv2 = (srv_pool ?srv)\<lparr>tp_tasks := ts\<rparr>"
    using Cons.prems(1) by (simp add: worker_done_def)
  obtain pr' where "process_run L E (pr\<lparr>pr_server := ?srv2\<rparr>) pr'" "pr_phase pr' = pr_phase pr" "pr_logger pr' = pr_logger pr"
    "srv_pool (pr_server pr') = (srv_pool ?srv2)\<lparr>tp_tasks := []\<rparr>"
    "srv_svc (pr_server pr') = fold (run_task E) ts (srv_svc ?srv2)"
    using Cons.IH [of "pr\<lparr>pr_server := ?srv2\<rparr>"] Cons.prems(1,3) p2 by auto
  with 1 2 p2 show ?case
    by (intro exI [of _ pr']) (auto intro: process_run.run_step)
qed

lemma idle_workers_return:
  assumes "tp_stopped (srv_pool (pr_server pr))" "tp_tasks (srv_pool (pr_server pr)) = []"
    and "set (tp_workers (srv_pool (pr_server pr))) \<subseteq> {Waiting, Returned}"
  shows "\<exists>pr'. process_run L E pr pr' \<and> pr_phase pr' = pr_phase pr \<and> pr_logger pr' = pr_logger pr \<and>
    joined (srv_pool (pr_server pr')) \<and> srv_svc (pr_server pr') = srv_svc (pr_server pr)"
  using assms
proof (induction "remaining (srv_pool (pr_server pr))" arbitrary: pr rule: less_induct)
  case less
  let ?p = "srv_pool (pr_server pr)"
  show ?case
  proof (cases "joined ?p")
    case True
    then show ?thesis by (blast intro: process_run.run_refl)
  next
    case False
    then obtain i where i: "i < length (tp_workers ?p)" "tp_workers ?p ! i = Waiting"
      using less.prems(3) by (fastforce simp: joined_def in_set_conv_nth)
    let ?p1 = "?p\<lparr>tp_workers := (tp_workers ?p)[i := Returned]\<rparr>"
    let ?pr1 = "on_server (\<lambda>srv. srv\<lparr>srv_pool := ?p1\<rparr>) pr"
    have w: "worker_wait i ?p = WorkerReturns ?p1"
      using less.prems by (simp add: worker_wait_def)
    have s: "process_step L E pr ?pr1" by (rule process_step.worker_returns [OF i w])
    have "remaining ?p1 < remaining ?p"
      by (rule stopped_step_decreases(1) [OF tp_step.returns [OF i w] less.prems(1)])
    moreover have "set (tp_workers ?p1) \<subseteq> {Waiting, Returned}"
      using less.prems(3) set_update_subset_insert [of "tp_workers ?p" i Returned] by auto
    ultimately obtain pr' where "process_run L E ?pr1 pr'" "pr_phase pr' = pr_phase pr" "pr_logger pr' = pr_logger pr"
      "joined (srv_pool (pr_server pr'))" "srv_svc (pr_server pr') = srv_svc (pr_server pr)"
      using less.hyps [of ?pr1] less.prems by auto
    with s show ?thesis by (blast intro: process_run.run_step)
  qed
qed

text \<open>
  From the event loop to the end: \<open>main\<close> resets the users, shuts the logger down and only then destroys
  the pool, whose workers still run what is queued.
\<close>

lemma main_to_joining:
  assumes "pr_phase pr = InLoop" "\<not> tp_stopped (srv_pool (pr_server pr))"
  shows "\<exists>pr'. process_run L E pr pr' \<and> pr_phase pr' = JoiningPool \<and> lg_shutdown (pr_logger pr') \<and>
    srv_pool (pr_server pr') = (srv_pool (pr_server pr))\<lparr>tp_stopped := True\<rparr> \<and>
    srv_svc (pr_server pr') = st_after (ChatService_reset E) (srv_svc (pr_server pr))"
proof -
  obtain p1 p2 p3 where m: "main_next L E pr = Some p1" "main_next L E p1 = Some p2" "main_next L E p2 = Some p3"
    using main_next_three [OF assms(1)] by blast
  then have p3: "pr_phase p3 = LoggerDown" "srv_pool (pr_server p3) = srv_pool (pr_server pr)" "lg_shutdown (pr_logger p3)"
    "srv_svc (pr_server p3) = st_after (ChatService_reset E) (srv_svc (pr_server pr))"
    using assms(1) by (auto simp: main_next_def)
  let ?p4 = "on_server (\<lambda>srv. srv\<lparr>srv_pool := (srv_pool (pr_server pr))\<lparr>tp_stopped := True\<rparr>\<rparr>) (p3\<lparr>pr_phase := JoiningPool\<rparr>)"
  have "main_next L E p3 = Some ?p4"
    using p3(1,2) assms(2) by (simp add: main_next_def shutdown_begin_def)
  then have "process_run L E pr ?p4"
    using m by (meson process_run.run_step process_run_one process_step.main_moves)
  then show ?thesis using p3 by (intro exI [of _ ?p4]) simp
qed

lemma queued_tasks_run_after_reset:
  assumes "pr_phase pr = InLoop" "\<not> tp_stopped (srv_pool (pr_server pr))"
    and "tp_workers (srv_pool (pr_server pr)) = replicate (Suc n) Waiting"
  shows "\<exists>pr'. process_run L E pr pr' \<and> pr_phase pr' = PoolGone \<and> lg_shutdown (pr_logger pr') \<and>
    srv_svc (pr_server pr') = fold (run_task E) (tp_tasks (srv_pool (pr_server pr)))
      (st_after (ChatService_reset E) (srv_svc (pr_server pr)))"
proof -
  let ?ts = "tp_tasks (srv_pool (pr_server pr))"
  obtain p1 where p1: "process_run L E pr p1" "pr_phase p1 = JoiningPool" "lg_shutdown (pr_logger p1)"
    "srv_pool (pr_server p1) = (srv_pool (pr_server pr))\<lparr>tp_stopped := True\<rparr>"
    "srv_svc (pr_server p1) = st_after (ChatService_reset E) (srv_svc (pr_server pr))"
    using main_to_joining [OF assms(1,2)] by blast
  obtain p2 where p2: "process_run L E p1 p2" "pr_phase p2 = JoiningPool" "pr_logger p2 = pr_logger p1"
    "srv_pool (pr_server p2) = (srv_pool (pr_server p1))\<lparr>tp_tasks := []\<rparr>"
    "srv_svc (pr_server p2) = fold (run_task E) ?ts (srv_svc (pr_server p1))"
    using one_worker_drains [of p1 "replicate n Waiting" ?ts L E] p1 assms(3) by auto
  have "set (tp_workers (srv_pool (pr_server p2))) \<subseteq> {Waiting, Returned}"
    using p1(4) p2(4) assms(3) by (auto simp del: replicate_Suc)
  moreover have "tp_stopped (srv_pool (pr_server p2))" "tp_tasks (srv_pool (pr_server p2)) = []"
    using p1(4) p2(4) by simp_all
  ultimately obtain p3 where p3: "process_run L E p2 p3" "pr_phase p3 = JoiningPool" "pr_logger p3 = pr_logger p2"
    "joined (srv_pool (pr_server p3))" "srv_svc (pr_server p3) = srv_svc (pr_server p2)"
    using idle_workers_return [of p2 L E] p2(2) by auto
  let ?p4 = "p3\<lparr>pr_phase := PoolGone\<rparr>"
  have "main_next L E p3 = Some ?p4" using p3 by (simp add: main_next_def)
  then have "process_run L E pr ?p4"
    using p1(1) p2(1) p3(1) by (meson process_run_trans process_run_one process_step.main_moves)
  then show ?thesis using p1 p2 p3 by (intro exI [of _ ?p4]) simp
qed

text \<open>C36: a login that is still queued when the server stops leaves its user online for good. The reset
  comes before the pool is emptied, so a login task with the right password runs after it: at the end
  of the process the user is marked online, with no server left that would mark the user offline, and
  every later login is refused.\<close>

theorem queued_login_survives_reset:
  assumes "mysql_runs coll E tables" and "no_failures coll E tables"
    and "pr_phase pr = InLoop" and "\<not> tp_stopped (srv_pool (pr_server pr))"
    and "tp_workers (srv_pool (pr_server pr)) = replicate (Suc m) Waiting"
    and "tp_tasks (srv_pool (pr_server pr)) = [HandlerTask (msg_id LOGIN_MSG) c js]"
    and "string_field js ''name'' = Inr name" and "string_field js ''password'' = Inr pwd"
    and "users_ok (tables (s_world (srv_svc (pr_server pr))))"
    and "account coll name [[Some (show_int i), Some n, Some pwd, Some st]] (tables (s_world (srv_svc (pr_server pr))))"
    and "text_up_to 50 name" and "int32_range i" and "n \<noteq> []" and "no_nul n" and "no_nul pwd"
    and "st \<in> {''online'', ''offline''}"
  shows "\<exists>pr'. process_run L E pr pr' \<and> pr_phase pr' = PoolGone \<and> lg_shutdown (pr_logger pr') \<and>
    online_users (tables (s_world (srv_svc (pr_server pr')))) = {i}"
proof -
  note sql = sql_database.intro [OF assms(1)]
  note db = reliable_database.intro [OF sql reliable_database_axioms.intro [OF assms(2)]]
  let ?s = "srv_svc (pr_server pr)"
  let ?row = "\<lambda>st. account coll name [[Some (show_int i), Some n, Some pwd, Some st]]"
  obtain pr' where run: "process_run L E pr pr'" "pr_phase pr' = PoolGone" "lg_shutdown (pr_logger pr')"
    "srv_svc (pr_server pr') = st_after (login E c js) (st_after (ChatService_reset E) ?s)"
    using queued_tasks_run_after_reset [OF assms(3-5), of L E] by (auto simp: assms(6) getHandler_def msgHandlerMap_def)
  have keep: "?row ''offline'' db'" if "users_ok db" "?row st db" "sql_change coll db reset_users = Some db'" for db db'
    using reset_users_rows(2) [OF that(1,3,2)] assms(16) by (cases "st = ''online''") auto
  let ?P = "\<lambda>db. (presence {} db \<and> user_ids db = user_ids (tables (s_world ?s))) \<and> ?row ''offline'' db"
  have "triple (sql_database.stored_svc tables (\<lambda>db. (presence (online_users (tables (s_world ?s))) db \<and>
        user_ids db = user_ids (tables (s_world ?s))) \<and> ?row st db)) (ChatService_reset E)
      (\<lambda>_. sql_database.stored_svc tables (\<lambda>db. ?P db \<and> nobody_online db))"
    by (rule reliable_database.reset_presence [OF db], rule keep)
  from tripleD [OF this, of ?s] have r: "?P (tables (s_world (st_after (ChatService_reset E) ?s)))"
    using assms(9,10) by (simp add: sql_database.stored_svc_def [OF sql] presence_def)
  have "i \<in> user_ids (tables (s_world ?s))" by (rule account_row(1) [OF assms(10)])
  then have "presence {i} (tables (s_world (st_after (login E c js) (st_after (ChatService_reset E) ?s))))"
    using tripleD [OF reliable_database.login_presence [OF db assms(7,8,11-15), of "''offline''" "{}" "user_ids (tables (s_world ?s))" c],
        of "st_after (ChatService_reset E) ?s"] r
    by (simp add: sql_database.stored_svc_def [OF sql])
  with run show ?thesis by (auto simp: presence_def)
qed

theorem queued_login_survives_reset_witness:
  "let pr = mysql_process two_users [HandlerTask (msg_id LOGIN_MSG) 4 (login_json ''bob'' ''1234'')] in
     \<exists>pr'. process_run test_os MySql pr pr' \<and> pr_phase pr' = PoolGone \<and>
       online_users (fst (s_world (srv_svc (pr_server pr')))) = {8}"
proof -
  let ?pr = "mysql_process two_users [HandlerTask (msg_id LOGIN_MSG) 4 (login_json ''bob'' ''1234'')]"
  have p: "pr_phase ?pr = InLoop" "\<not> tp_stopped (srv_pool (pr_server ?pr))"
    "tp_workers (srv_pool (pr_server ?pr)) = replicate (Suc 3) Waiting"
    "tp_tasks (srv_pool (pr_server ?pr)) = [HandlerTask (msg_id LOGIN_MSG) 4 (login_json ''bob'' ''1234'')]"
    "fst (s_world (srv_svc (pr_server ?pr))) = two_users"
    by (simp_all add: mysql_process_def numeral_eq_Suc)
  have j: "string_field (login_json ''bob'' ''1234'') ''name'' = Inr ''bob''"
    "string_field (login_json ''bob'' ''1234'') ''password'' = Inr ''1234''"
    by (simp_all add: login_json_def)
  from queued_login_survives_reset [OF MySql_runs MySql_reliable p(1-4) j, unfolded p(5), OF two_users_bob(2,1,4), of test_os]
  show ?thesis by (simp add: int32_range_def Let_def) blast
qed

end
