(* ===== verification/Threads.thy ===== *)
theory Threads
  imports Sessions
begin

text \<open>
  The handlers of \<open>src/server/chatservice.cpp\<close> as threads. The four workers of the pool, the threads
  of the network library and the Redis listener run handlers at the same time, and no lock spans a
  handler: only each access of the table of users and each statement of the database is
  indivisible. Here a handler is a sequence of such actions, between which the others run; a call of
  a model class is one action, since it sends one statement (the query of the groups of a user sends
  several, which only read). Every thread is tied to the definition of its handler in \<open>ChatService.thy\<close>: run alone, it is that handler.
  What holds of the threads holds of every interleaving of handlers; the last section shows what
  does not.
\<close>

subsection \<open>Threads\<close>

text \<open>A thread has ended with a value, or its next action changes the state and says how it goes on.\<close>

datatype ('s, 'a) thread = Ret 'a | Act "'s \<Rightarrow> 's \<times> ('s, 'a) thread"

definition act :: "('s, 'x) state \<Rightarrow> ('x \<Rightarrow> ('s, 'a) thread) \<Rightarrow> ('s, 'a) thread" where
  "act m k = Act (\<lambda>s. case run_state m s of (x, s') \<Rightarrow> (s', k x))"

text \<open>The thread without interruption.\<close>

primrec alone :: "('s, 'a) thread \<Rightarrow> ('s, 'a) state" where
  "alone (Ret x) = return x"
| "alone (Act f) = State (\<lambda>s. case map_prod id alone (f s) of (s', m) \<Rightarrow> run_state m s')"

lemma alone_act [simp]: "alone (act m k) = State_Monad.bind m (\<lambda>x. alone (k x))"
  by (rule state_ext) (simp add: act_def split: prod.split)

text \<open>Control flow: a step that may throw, and a loop.\<close>

fun require_t :: "'e + 'x \<Rightarrow> ('x \<Rightarrow> ('s, 'e option) thread) \<Rightarrow> ('s, 'e option) thread" where
  "require_t (Inl e) k = Ret (Some e)"
| "require_t (Inr x) k = k x"

fun for_each_t :: "('x \<Rightarrow> ('s, 'a) thread \<Rightarrow> ('s, 'a) thread) \<Rightarrow> 'x list \<Rightarrow> ('s, 'a) thread \<Rightarrow> ('s, 'a) thread" where
  "for_each_t m [] k = k"
| "for_each_t m (x # xs) k = m x (for_each_t m xs k)"

lemma alone_require [simp]: "alone (require_t r k) = require r (\<lambda>x. alone (k x))"
  by (cases r) simp_all

lemma alone_for_each:
  assumes "\<And>x k. alone (t x k) = State_Monad.bind (m x) (\<lambda>_. alone k)"
  shows "alone (for_each_t t xs k) = State_Monad.bind (for_each m xs) (\<lambda>_. alone k)"
  by (induction xs) (simp_all add: assms)

lemma alone_if [simp]: "alone (if b then t else t') = (if b then alone t else alone t')"
  by simp

lemma alone_case_status [simp]:
  "alone (case q of Ok \<Rightarrow> a | NotFound \<Rightarrow> b | DbError \<Rightarrow> c) = (case q of Ok \<Rightarrow> alone a | NotFound \<Rightarrow> alone b | DbError \<Rightarrow> alone c)"
  by (cases q) simp_all

lemma bind_if_state:
  "State_Monad.bind (if b then m else m') k = (if b then State_Monad.bind m k else State_Monad.bind m' k)"
  by simp

subsection \<open>The handlers\<close>

type_synonym 'd svc_thread = "('d svc, exn option) thread"

definition sendJson_t :: "'d outside \<Rightarrow> conn \<Rightarrow> json \<Rightarrow> 'd svc_thread" where
  "sendJson_t E conn response = require_t (json_dump E response) (\<lambda>payload. act (sendPayload conn payload) (\<lambda>_. Ret None))"

definition markUserOffline_t :: "'d outside \<Rightarrow> int \<Rightarrow> 'd svc_thread \<Rightarrow> 'd svc_thread" where
  "markUserOffline_t E userid k = act (on_rd (Redis_unsubscribe E userid)) (\<lambda>_.
     act (on_db (UserModel_updateState E
       \<lparr>u_id = userid, u_name = [], u_password = [], u_state = ''offline''\<rparr>)) (\<lambda>_. k))"

definition deliverMessage_t :: "'d outside \<Rightarrow> int \<Rightarrow> string \<Rightarrow> 'd svc_thread \<Rightarrow> 'd svc_thread" where
  "deliverMessage_t E targetId payload k = act (gets (findLocalConnection targetId)) (\<lambda>connection.
     case connection of
       Some c \<Rightarrow> act (sendPayload c payload) (\<lambda>_. k)
     | None \<Rightarrow> act (on_db (UserModel_query_id E targetId)) (\<lambda>user.
         if u_state user = ''online'' then act (on_rd (Redis_publish E targetId payload)) (\<lambda>_. k)
         else act (on_db (insertOfflineMessageByRpc E targetId payload)) (\<lambda>_. k)))"

definition deliverDump_t :: "'d outside \<Rightarrow> int \<Rightarrow> json \<Rightarrow> 'd svc_thread" where
  "deliverDump_t E targetId js = require_t (json_dump E js) (\<lambda>payload. deliverMessage_t E targetId payload (Ret None))"

definition login_lists_t :: "'d outside \<Rightarrow> conn \<Rightarrow> user \<Rightarrow> json \<Rightarrow> 'd svc_thread" where
  "login_lists_t E conn user response = act (on_db (queryFriendsByRpc E (u_id user))) (\<lambda>friends.
     require_t (dump_list E (map friend_json friends)) (\<lambda>friendJsonList.
       act (on_db (GroupModel_queryGroup E (u_id user))) (\<lambda>groups.
         require_t (dump_groups E groups) (\<lambda>groupJsonList.
           sendJson_t E conn (add_list ''groups'' groupJsonList (add_list ''friends'' friendJsonList response))))))"

definition login_subscribe_t :: "'d outside \<Rightarrow> conn \<Rightarrow> user \<Rightarrow> 'd svc_thread" where
  "login_subscribe_t E conn user = act (on_rd (Redis_subscribe E (u_id user))) (\<lambda>_.
     act (on_db (queryOfflineMessagesByRpc E (u_id user))) (\<lambda>offlineMsgs.
       if offlineMsgs \<noteq> [] then act (on_db (removeOfflineMessagesByRpc E (u_id user))) (\<lambda>_.
         login_lists_t E conn user (add_list ''offlinemsg'' offlineMsgs (login_response user)))
       else login_lists_t E conn user (login_response user)))"

definition login_success_t :: "'d outside \<Rightarrow> conn \<Rightarrow> user \<Rightarrow> 'd svc_thread" where
  "login_success_t E conn user = act (on_db (UserModel_updateState E user)) (\<lambda>_.
     act (modify (userConnMap_update (insert_conn (u_id user) conn))) (\<lambda>_. login_subscribe_t E conn user))"

definition login_t :: "'d outside \<Rightarrow> conn \<Rightarrow> json \<Rightarrow> 'd svc_thread" where
  "login_t E conn js = require_t (string_field js ''name'') (\<lambda>name.
     require_t (string_field js ''password'') (\<lambda>password.
       act (on_db (UserModel_query_name E name)) (\<lambda>user.
         if u_name user = [] then
           sendJson_t E conn (response3 LOG_MSG_ACK 3 (''User does not exist. Please register first.'' @ [newline]))
         else if u_password user \<noteq> password then
           sendJson_t E conn (response3 LOG_MSG_ACK 2 (''Incorrect password. Please try again.'' @ [newline]))
         else if u_state user = ''online'' then
           sendJson_t E conn (response3 LOG_MSG_ACK 1 (''this account is using, input another!'' @ [newline]))
         else login_success_t E conn (user\<lparr>u_state := ''online''\<rparr>))))"

definition loginout_t :: "'d outside \<Rightarrow> conn \<Rightarrow> json \<Rightarrow> 'd svc_thread" where
  "loginout_t E conn js = require_t (int_field js ''userid'') (\<lambda>userid.
     act (modify (userConnMap_update (erase_conn userid))) (\<lambda>_. markUserOffline_t E userid (Ret None)))"

definition reg_t :: "'d outside \<Rightarrow> conn \<Rightarrow> json \<Rightarrow> 'd svc_thread" where
  "reg_t E conn js = require_t (string_field js ''name'') (\<lambda>name.
     require_t (string_field js ''password'') (\<lambda>password.
       act (on_db (UserModel_insert E (User\<lparr>u_name := name, u_password := password\<rparr>))) (\<lambda>r.
         if fst r then sendJson_t E conn (JObj [(''msgid'', JInt (msg_id REG_MSG_ACK)), (''errno'', JInt 0),
           (''id'', JInt (u_id (snd r)))])
         else sendJson_t E conn (JObj [(''msgid'', JInt (msg_id REG_MSG_ACK)), (''errno'', JInt 1)]))))"

text \<open>The search of the table and the removal of the entry are in one critical section.\<close>

definition close_entry :: "conn \<Rightarrow> ('d svc, (int \<times> conn) option) state" where
  "close_entry conn = do {
     entry \<leftarrow> gets (\<lambda>s. find (\<lambda>e. snd e = conn) (userConnMap s));
     _ \<leftarrow> (case entry of None \<Rightarrow> return () | Some e \<Rightarrow> modify (userConnMap_update (erase_conn (fst e))));
     return entry }"

definition clientCloseException_t :: "'d outside \<Rightarrow> conn \<Rightarrow> 'd svc_thread" where
  "clientCloseException_t E conn = act (close_entry conn) (\<lambda>entry.
     if (case entry of None \<Rightarrow> - 1 | Some e \<Rightarrow> fst e) \<noteq> - 1
     then markUserOffline_t E (case entry of None \<Rightarrow> - 1 | Some e \<Rightarrow> fst e) (Ret None) else Ret None)"

definition oneChat_t :: "'d outside \<Rightarrow> conn \<Rightarrow> json \<Rightarrow> 'd svc_thread" where
  "oneChat_t E conn js = require_t (int_field js ''userid'') (\<lambda>userid.
     require_t (int_field js ''to'') (\<lambda>toid.
       act (on_db (isFriendByRpc E userid toid)) (\<lambda>isFriend.
         if \<not> isFriend then
           sendJson_t E conn (JObj [(''errno'', JInt 1), (''msgid'', JInt (msg_id ONE_CHAT_MSG_ACK)),
             (''errmsg'', JStr ''You are not friends with this user. Message cannot be sent!'')])
         else deliverDump_t E toid js)))"

definition groupChat_t :: "'d outside \<Rightarrow> conn \<Rightarrow> json \<Rightarrow> 'd svc_thread" where
  "groupChat_t E conn js = require_t (int_field js ''userid'') (\<lambda>userid.
     require_t (int_field js ''groupid'') (\<lambda>groupid.
       act (on_db (GroupModel_queryGroupName E groupid)) (\<lambda>name.
         act (on_db (GroupModel_queryGroupUsers E userid groupid)) (\<lambda>useridVec.
           require_t (json_dump E (set_member js ''groupname'' (JStr name))) (\<lambda>payload.
             for_each_t (\<lambda>i. deliverMessage_t E i payload) useridVec (Ret None))))))"

definition redisMessage_t :: "'d outside \<Rightarrow> int \<Rightarrow> string \<Rightarrow> 'd svc_thread" where
  "redisMessage_t E userid msg = act (gets (findLocalConnection userid)) (\<lambda>connection.
     case connection of
       Some c \<Rightarrow> act (sendPayload c msg) (\<lambda>_. Ret None)
     | None \<Rightarrow> act (on_db (insertOfflineMessageByRpc E userid msg)) (\<lambda>_. Ret None))"

definition addFriend_t :: "'d outside \<Rightarrow> conn \<Rightarrow> json \<Rightarrow> 'd svc_thread" where
  "addFriend_t E conn js = require_t (int_field js ''userid'') (\<lambda>userid.
     require_t (int_field js ''friendid'') (\<lambda>friendid.
       if userid = friendid then sendJson_t E conn (response3 ADD_FRIEND_RESPONSE 1 ''You cannot add yourself!'')
       else act (on_db (isUserExistByRpc E friendid)) (\<lambda>exists.
         if \<not> exists then sendJson_t E conn (response3 ADD_FRIEND_RESPONSE 1 ''User does not exist!'')
         else act (on_db (isFriendByRpc E userid friendid)) (\<lambda>isFriend.
           if isFriend then
             sendJson_t E conn (response3 ADD_FRIEND_RESPONSE 2 ''This user is already your friend!'')
           else act (on_db (queryRequestStatusByRpc E userid friendid)) (\<lambda>r.
             case fst r of
               DbError \<Rightarrow> sendJson_t E conn (response3 ADD_FRIEND_RESPONSE 2 busy_text)
             | NotFound \<Rightarrow> act (on_db (addFriendRequestByRpc E userid friendid)) (\<lambda>ok.
                 if \<not> ok then sendJson_t E conn (response3 ADD_FRIEND_RESPONSE 5 busy_text)
                 else deliverDump_t E friendid js)
             | Ok \<Rightarrow>
                 if snd r = ''pending'' then
                   sendJson_t E conn (response3 ADD_FRIEND_RESPONSE 2 ''The request has been sent!'')
                 else if snd r = ''rejected'' then
                   act (on_db (updateRequestStatusByRpc E userid friendid ''pending'')) (\<lambda>ok.
                     if \<not> ok then sendJson_t E conn (response3 ADD_FRIEND_RESPONSE 5 busy_text)
                     else deliverDump_t E friendid js)
                 else Ret None)))))"

definition addFriendHandle_t :: "'d outside \<Rightarrow> conn \<Rightarrow> json \<Rightarrow> 'd svc_thread" where
  "addFriendHandle_t E conn js = require_t (int_field js ''userid'') (\<lambda>userid.
     require_t (int_field js ''friendid'') (\<lambda>friendid.
     require_t (string_field js ''action'') (\<lambda>action.
       act (on_db (isPendingRequestByRpc E userid friendid)) (\<lambda>r.
         case fst r of
           DbError \<Rightarrow> sendJson_t E conn (response3 ADD_FRIEND_RESPONSE 2 busy_text)
         | NotFound \<Rightarrow>
             sendJson_t E conn (response3 ADD_FRIEND_RESPONSE 4 ''The user has not sent a friend request to you!'')
         | Ok \<Rightarrow>
             if action = ''accept'' then
               act (on_db (updateRequestStatusByRpc E userid friendid ''accepted'')) (\<lambda>ok.
                 if \<not> ok then sendJson_t E conn (response3 ADD_FRIEND_RESPONSE 5 busy_text)
                 else act (on_db (insertFriendByRpc E userid friendid)) (\<lambda>_.
                   act (on_db (insertFriendByRpc E friendid userid)) (\<lambda>_.
                     deliverDump_t E userid (response3 ADD_FRIEND_RESPONSE 0
                       ''The user has accepted your friend request. You can now chat!''))))
             else act (on_db (updateRequestStatusByRpc E userid friendid ''rejected'')) (\<lambda>_.
               deliverDump_t E userid (response3 ADD_FRIEND_RESPONSE 3
                 ''The user has declined your friend request.''))))))"

definition createGroup_t :: "'d outside \<Rightarrow> conn \<Rightarrow> json \<Rightarrow> 'd svc_thread" where
  "createGroup_t E conn js = require_t (int_field js ''userid'') (\<lambda>userid.
     require_t (string_field js ''groupname'') (\<lambda>name.
     require_t (string_field js ''groupdesc'') (\<lambda>groupdesc.
       act (on_db (GroupModel_isGroupExist_name E name)) (\<lambda>r.
         case fst r of
           DbError \<Rightarrow> sendJson_t E conn (response3 CREATE_GROUP_MSG_ACK 2 busy_text)
         | NotFound \<Rightarrow> act (on_db (GroupModel_createGroup E (Group (- 1) name groupdesc))) (\<lambda>c.
             if fst c then act (on_db (GroupModel_addGroup E userid (g_id (snd c)) ''creator'')) (\<lambda>_.
               sendJson_t E conn (response3 CREATE_GROUP_MSG_ACK 0
                 (''Create group success! Your groupid is '' @ show_int (g_id (snd c)))))
             else sendJson_t E conn (response3 CREATE_GROUP_MSG_ACK 1 ''Create group failed!''))
         | Ok \<Rightarrow> sendJson_t E conn (response3 CREATE_GROUP_MSG_ACK 2 ''Group name exists!'')))))"

definition notify_owner_t :: "'d outside \<Rightarrow> conn \<Rightarrow> json \<Rightarrow> int \<Rightarrow> 'd svc_thread" where
  "notify_owner_t E conn js groupid = act (on_db (GroupModel_queryGroupOwnerId E groupid)) (\<lambda>ownerResult.
     case fst ownerResult of
       DbError \<Rightarrow> sendJson_t E conn (response3 ADD_GROUP_RESPONSE 3 busy_text)
     | NotFound \<Rightarrow> sendJson_t E conn (response3 ADD_GROUP_RESPONSE 1 ''The group owner does not exist.'')
     | Ok \<Rightarrow> deliverDump_t E (snd ownerResult) js)"

definition addGroup_t :: "'d outside \<Rightarrow> conn \<Rightarrow> json \<Rightarrow> 'd svc_thread" where
  "addGroup_t E conn js = require_t (int_field js ''userid'') (\<lambda>userid.
     require_t (int_field js ''groupid'') (\<lambda>groupid.
       act (on_db (GroupModel_isUserInGroup E userid groupid)) (\<lambda>inGroupResult.
         case fst inGroupResult of
           DbError \<Rightarrow> sendJson_t E conn (response3 ADD_GROUP_RESPONSE 2 busy_text)
         | Ok \<Rightarrow> sendJson_t E conn (response3 ADD_GROUP_RESPONSE 1 ''You are already in this group!'')
         | NotFound \<Rightarrow> act (on_db (GroupModel_isGroupExist_id E groupid)) (\<lambda>groupExistResult.
             case fst groupExistResult of
               DbError \<Rightarrow> sendJson_t E conn (response3 ADD_GROUP_RESPONSE 1 busy_text)
             | NotFound \<Rightarrow> sendJson_t E conn (response3 ADD_GROUP_RESPONSE 1 ''The group is not exist'')
             | Ok \<Rightarrow> act (on_db (GroupRequestModel_queryRequestStatus E userid groupid)) (\<lambda>r.
                 case fst r of
                   DbError \<Rightarrow> sendJson_t E conn (response3 ADD_GROUP_RESPONSE 1 busy_text)
                 | NotFound \<Rightarrow> act (on_db (GroupRequestModel_addGroupRequest E userid groupid)) (\<lambda>ok.
                     if \<not> ok then sendJson_t E conn (response3 ADD_GROUP_RESPONSE 3 busy_text)
                     else notify_owner_t E conn js groupid)
                 | Ok \<Rightarrow>
                     if snd r = ''pending'' then
                       sendJson_t E conn (response3 ADD_GROUP_RESPONSE 1
                         ''The request has been sent, please wait for approval!'')
                     else if snd r = ''rejected'' then
                       act (on_db (GroupRequestModel_updateRequestStatus E userid groupid ''pending'')) (\<lambda>ok.
                         if \<not> ok then sendJson_t E conn (response3 ADD_GROUP_RESPONSE 3 busy_text)
                         else notify_owner_t E conn js groupid)
                     else Ret None)))))"

definition addGroupHandle_t :: "'d outside \<Rightarrow> conn \<Rightarrow> json \<Rightarrow> 'd svc_thread" where
  "addGroupHandle_t E conn js = require_t (int_field js ''userid'') (\<lambda>userid.
     require_t (int_field js ''groupid'') (\<lambda>groupid.
       act (on_db (GroupRequestModel_isPendingRequest E userid groupid)) (\<lambda>pending.
         if pending then require_t (string_field js ''action'') (\<lambda>action.
           if action = ''accept'' then
             act (on_db (GroupRequestModel_updateRequestStatus E userid groupid ''accepted'')) (\<lambda>_.
               act (on_db (GroupModel_addGroup E userid groupid ''normal'')) (\<lambda>_.
                 deliverDump_t E userid (response3 ADD_GROUP_RESPONSE 0
                   ''Your request to join the group has been accepted. You can now chat!'')))
           else act (on_db (GroupRequestModel_updateRequestStatus E userid groupid ''rejected'')) (\<lambda>_.
             deliverDump_t E userid (response3 ADD_GROUP_RESPONSE 1
               ''Your request to join the group has been rejected. You can not chat!'')))
         else sendJson_t E conn (response3 ADD_GROUP_RESPONSE 2 ''You have no request to join the group!''))))"

definition getHandler_t :: "'d outside \<Rightarrow> int \<Rightarrow> conn \<Rightarrow> json \<Rightarrow> 'd svc_thread" where
  "getHandler_t E msgid = (case map_of [
     (msg_id LOGIN_MSG, login_t E), (msg_id LOGINOUT_MSG, loginout_t E), (msg_id REG_MSG, reg_t E),
     (msg_id ONE_CHAT_MSG, oneChat_t E), (msg_id ADD_FRIEND_REQUEST, addFriend_t E),
     (msg_id ADD_FRIEND_HANDLE, addFriendHandle_t E), (msg_id CREATE_GROUP_MSG, createGroup_t E),
     (msg_id ADD_GROUP_MSG, addGroup_t E), (msg_id ADD_GROUP_HANDLE, addGroupHandle_t E),
     (msg_id GROUP_CHAT_MSG, groupChat_t E)] msgid of
     None \<Rightarrow> (\<lambda>conn js. Ret None)
   | Some h \<Rightarrow> h)"

fun svc_thread :: "'d outside \<Rightarrow> svc_event \<Rightarrow> 'd svc_thread" where
  "svc_thread E (Message m c js) = getHandler_t E m c js"
| "svc_thread E (Closed c) = clientCloseException_t E c"
| "svc_thread E (FromRedis u p) = redisMessage_t E u p"

subsection \<open>Alone, a thread is its handler\<close>

lemma alone_sendJson: "alone (sendJson_t E c j) = sendJson E c j"
  by (simp add: sendJson_t_def sendJson_def)

lemma alone_markUserOffline: "alone (markUserOffline_t E u k) = State_Monad.bind (markUserOffline E u) (\<lambda>_. alone k)"
  by (simp add: markUserOffline_t_def markUserOffline_def)

lemma alone_deliverMessage: "alone (deliverMessage_t E i p k) = State_Monad.bind (deliverMessage E i p) (\<lambda>_. alone k)"
proof -
  have "alone (case x of None \<Rightarrow> act (on_db (UserModel_query_id E i)) (\<lambda>user.
         if u_state user = ''online'' then act (on_rd (Redis_publish E i p)) (\<lambda>_. k)
         else act (on_db (insertOfflineMessageByRpc E i p)) (\<lambda>_. k))
       | Some c \<Rightarrow> act (sendPayload c p) (\<lambda>_. k)) = State_Monad.bind (case x of
        Some c \<Rightarrow> sendPayload c p
      | None \<Rightarrow> do {
          user \<leftarrow> on_db (UserModel_query_id E i);
          if u_state user = ''online'' then do {
            _ \<leftarrow> on_rd (Redis_publish E i p); return () }
          else do {
            _ \<leftarrow> on_db (insertOfflineMessageByRpc E i p); return () } }) (\<lambda>_. alone k)" for x
    by (cases x) (auto intro!: arg_cong [where f = "State_Monad.bind _"] simp: bind_if_state)
  then show ?thesis by (simp add: deliverMessage_t_def deliverMessage_def)
qed

lemma alone_deliverDump: "alone (deliverDump_t E i j) = deliverDump E i j"
  by (simp add: deliverDump_t_def deliverDump_def alone_deliverMessage)

lemmas alone_parts = alone_sendJson alone_markUserOffline alone_deliverMessage alone_deliverDump

lemma alone_login_lists: "alone (login_lists_t E c u response) = do {
     friends \<leftarrow> on_db (queryFriendsByRpc E (u_id u));
     require (dump_list E (map friend_json friends)) (\<lambda>friendJsonList. do {
       groups \<leftarrow> on_db (GroupModel_queryGroup E (u_id u));
       require (dump_groups E groups) (\<lambda>groupJsonList.
         sendJson E c (add_list ''groups'' groupJsonList (add_list ''friends'' friendJsonList response))) }) }"
  by (simp add: login_lists_t_def alone_parts)

lemma alone_login: "alone (login_t E c js) = login E c js"
proof -
  have "alone (login_success_t E c u) = login_success E c u" for u
    by (simp add: login_success_t_def login_subscribe_t_def login_success_def alone_login_lists Let_def bind_if_state cong: if_cong)
  then show ?thesis by (simp add: login_t_def login_def alone_parts cong: if_cong)
qed

lemma alone_handlers:
  "alone (loginout_t E c js) = loginout E c js" "alone (reg_t E c js) = reg E c js"
  "alone (oneChat_t E c js) = oneChat E c js" "alone (addFriend_t E c js) = addFriend E c js"
  "alone (addFriendHandle_t E c js) = addFriendHandle E c js" "alone (createGroup_t E c js) = createGroup E c js"
  "alone (notify_owner_t E c js g) = notify_owner E c js g"
  by (simp_all add: loginout_t_def loginout_def reg_t_def reg_def oneChat_t_def oneChat_def addFriend_t_def addFriend_def
      addFriendHandle_t_def addFriendHandle_def createGroup_t_def createGroup_def notify_owner_t_def notify_owner_def alone_parts
      cong: QueryStatus.case_cong if_cong)

lemma alone_group_handlers:
  "alone (addGroup_t E c js) = addGroup E c js" "alone (addGroupHandle_t E c js) = addGroupHandle E c js"
  "alone (groupChat_t E c js) = groupChat E c js"
proof -
  show "alone (addGroup_t E c js) = addGroup E c js"
    by (simp add: addGroup_t_def addGroup_def alone_parts alone_handlers(7) cong: QueryStatus.case_cong if_cong)
  show "alone (addGroupHandle_t E c js) = addGroupHandle E c js"
    by (simp add: addGroupHandle_t_def addGroupHandle_def alone_parts bind_if_state cong: if_cong)
  show "alone (groupChat_t E c js) = groupChat E c js"
    by (simp add: groupChat_t_def groupChat_def alone_for_each [OF alone_deliverMessage] Let_def)
qed

lemma alone_getHandler: "alone (getHandler_t E m c js) = getHandler E m c js"
  by (simp add: getHandler_t_def getHandler_def msgHandlerMap_def alone_login alone_handlers alone_group_handlers)

lemma alone_svc_thread: "st_after (alone (svc_thread E ev)) s = svc_step E ev s"
proof (cases ev)
  case (Message m c js)
  then show ?thesis by (simp add: alone_getHandler)
next
  case (Closed c)
  then show ?thesis
    by (simp add: clientCloseException_t_def close_entry_def clientCloseException_def alone_markUserOffline Let_def
        split_beta split: option.split)
next
  case (FromRedis u p)
  then show ?thesis
    by (simp add: redisMessage_t_def handleRedisSubscribeMessage_def split_beta split: option.split)
qed

subsection \<open>A node with its threads\<close>

text \<open>
  The service, the threads that run, and the states of the service passed so far, which the program
  does not keep. An event begins a thread; a thread does its next action; the Redis listener makes a
  turn, and a message it has received begins a thread.
\<close>

record 'd node =
  nd_svc :: "'d svc"
  nd_threads :: "'d svc_thread list"
  nd_past :: "'d svc set"

definition node_at :: "'d svc \<Rightarrow> 'd node" where
  "node_at s = \<lparr>nd_svc = s, nd_threads = [], nd_past = {s}\<rparr>"

definition node_enters :: "'d svc \<Rightarrow> 'd svc_thread list \<Rightarrow> 'd node \<Rightarrow> 'd node" where
  "node_enters s ts n = \<lparr>nd_svc = s, nd_threads = ts, nd_past = insert s (nd_past n)\<rparr>"

definition threads_of_call :: "'d outside \<Rightarrow> (int \<times> string) option \<Rightarrow> 'd svc_thread list" where
  "threads_of_call E call = (case call of None \<Rightarrow> [] | Some (u, p) \<Rightarrow> [svc_thread E (FromRedis u p)])"

inductive node_step :: "'d outside \<Rightarrow> 'd node \<Rightarrow> 'd node \<Rightarrow> bool" for E where
  event: "node_step E n (n\<lparr>nd_threads := nd_threads n @ [svc_thread E ev]\<rparr>)"
| action: "i < length (nd_threads n) \<Longrightarrow> nd_threads n ! i = Act f \<Longrightarrow> f (nd_svc n) = (s', t) \<Longrightarrow>
    node_step E n (node_enters s' ((nd_threads n)[i := t]) n)"
| listen: "listener_turn E p (s_redis (nd_svc n), s_world (nd_svc n)) = Some ((r, d), call) \<Longrightarrow>
    node_step E n (node_enters ((nd_svc n)\<lparr>s_redis := r, s_world := d\<rparr>) (nd_threads n @ threads_of_call E call) n)"

inductive node_reach :: "'d outside \<Rightarrow> 'd node \<Rightarrow> 'd node \<Rightarrow> bool" for E n0 where
  start: "node_reach E n0 n0"
| more: "node_reach E n0 n \<Longrightarrow> node_step E n n' \<Longrightarrow> node_reach E n0 n'"

lemma node_reach_trans: "node_reach E n1 n2 \<Longrightarrow> node_reach E n0 n1 \<Longrightarrow> node_reach E n0 n2"
  by (induction rule: node_reach.induct) (auto intro: node_reach.more)

text \<open>One action of one thread, and one thread to its end while the others wait.\<close>

lemma reach_act:
  assumes "node_reach E n0 \<lparr>nd_svc = s, nd_threads = ts, nd_past = h\<rparr>" "i < length ts" "ts ! i = act m k"
  shows "\<exists>h. node_reach E n0 \<lparr>nd_svc = st_after m s, nd_threads = ts[i := k (val_of m s)], nd_past = h\<rparr>"
  using node_reach.more [OF assms(1) node_step.action [of i _ "\<lambda>s. case run_state m s of (x, s') \<Rightarrow> (s', k x)"]] assms(2,3)
  by (auto simp: act_def split_beta node_enters_def)

lemma reach_events:
  "\<exists>h. node_reach E (node_at s) \<lparr>nd_svc = s, nd_threads = map (svc_thread E) evs, nd_past = h\<rparr>"
proof (induction evs rule: rev_induct)
  case Nil
  then show ?case using node_reach.start [of E "node_at s"] by (auto simp: node_at_def)
next
  case (snoc ev evs)
  then obtain h where "node_reach E (node_at s) \<lparr>nd_svc = s, nd_threads = map (svc_thread E) evs, nd_past = h\<rparr>" by blast
  from node_reach.more [OF this node_step.event [of E _ ev]] show ?case by auto
qed

lemma reach_alone:
  assumes "node_reach E n0 n" "i < length (nd_threads n)"
  shows "\<exists>h. node_reach E n0 \<lparr>nd_svc = st_after (alone (nd_threads n ! i)) (nd_svc n),
    nd_threads = (nd_threads n)[i := Ret (val_of (alone (nd_threads n ! i)) (nd_svc n))], nd_past = h\<rparr>"
  using assms
proof (induction "nd_threads n ! i" arbitrary: n)
  case (Ret x)
  then have "(nd_threads n)[i := Ret x] = nd_threads n" by simp
  then have e: "\<lparr>nd_svc = nd_svc n, nd_threads = (nd_threads n)[i := Ret x], nd_past = nd_past n\<rparr> = n" by simp
  have "node_reach E n0 \<lparr>nd_svc = nd_svc n, nd_threads = (nd_threads n)[i := Ret x], nd_past = nd_past n\<rparr>"
    unfolding e by (rule Ret.prems(1))
  then show ?case unfolding Ret.hyps [symmetric] by (intro exI [of _ "nd_past n"]) simp
next
  case (Act f)
  obtain s' t where f: "f (nd_svc n) = (s', t)" by fastforce
  let ?n = "node_enters s' ((nd_threads n)[i := t]) n"
  have r: "node_reach E n0 ?n"
    using node_reach.more [OF Act.prems(1) node_step.action [OF Act.prems(2) Act.hyps(2) [symmetric] f]] .
  have t: "nd_threads ?n ! i = t" using Act.prems(2) by (simp add: node_enters_def)
  have "(s', t) \<in> range f" "nd_threads ?n ! i \<in> Basic_BNFs.snds (s', t)"
    using f by (simp_all add: t prod_set_simps) (metis rangeI)
  from Act.hyps(1) [OF this r] obtain h where
    "node_reach E n0 \<lparr>nd_svc = st_after (alone t) s', nd_threads = (nd_threads n)[i := Ret (val_of (alone t) s')], nd_past = h\<rparr>"
    using Act.prems(2) unfolding t by (auto simp: node_enters_def)
  then show ?case using f by (auto simp: Act.hyps(2) [symmetric])
qed

lemma reach_end:
  assumes "node_reach E n0 \<lparr>nd_svc = s, nd_threads = ts, nd_past = h\<rparr>" "i < length ts"
  shows "\<exists>h. node_reach E n0 \<lparr>nd_svc = st_after (alone (ts ! i)) s, nd_threads = ts[i := Ret (val_of (alone (ts ! i)) s)], nd_past = h\<rparr>"
  using reach_alone [OF assms(1), of i] assms(2) by simp

subsection \<open>What no interleaving breaks\<close>

text \<open>
  Rely and guarantee. \<open>G h s s'\<close> is what every action promises the other threads when it leads from
  \<open>s\<close>, with the states \<open>h\<close> passed before, to \<open>s'\<close>. \<open>safe G P t\<close>: from states with \<open>P\<close>, which the
  promises of the others do not destroy, the thread \<open>t\<close> keeps the promise to its end.
\<close>

definition stable :: "('s set \<Rightarrow> 's \<Rightarrow> 's \<Rightarrow> bool) \<Rightarrow> ('s set \<Rightarrow> 's \<Rightarrow> bool) \<Rightarrow> bool" where
  "stable G P \<longleftrightarrow> (\<forall>h s s'. P h s \<longrightarrow> G h s s' \<longrightarrow> P (insert s' h) s')"

inductive safe :: "('s set \<Rightarrow> 's \<Rightarrow> 's \<Rightarrow> bool) \<Rightarrow> ('s set \<Rightarrow> 's \<Rightarrow> bool) \<Rightarrow> ('s, 'a) thread \<Rightarrow> bool" for G where
  Ret: "stable G P \<Longrightarrow> safe G P (Ret x)"
| Act: "stable G P \<Longrightarrow> (\<And>h s s' t. P h s \<Longrightarrow> f s = (s', t) \<Longrightarrow> G h s s' \<and> (\<exists>P'. P' (insert s' h) s' \<and> safe G P' t)) \<Longrightarrow>
    safe G P (Act f)"

inductive_cases safe_ActE: "safe G P (Act f)"

lemma safe_stable: "safe G P t \<Longrightarrow> stable G P"
  by (induction rule: safe.induct)

text \<open>\<open>fine G h s t\<close>: the thread \<open>t\<close> is safe from where the run is now.\<close>

definition fine :: "('s set \<Rightarrow> 's \<Rightarrow> 's \<Rightarrow> bool) \<Rightarrow> 's set \<Rightarrow> 's \<Rightarrow> ('s, 'a) thread \<Rightarrow> bool" where
  "fine G h s t \<longleftrightarrow> (\<exists>P. P h s \<and> safe G P t)"

lemma fineI: "safe G P t \<Longrightarrow> P h s \<Longrightarrow> fine G h s t"
  unfolding fine_def by (rule exI [of _ P]) (rule conjI)

lemma fine_rely:
  assumes "fine G h s t" "G h s s'"
  shows "fine G (insert s' h) s' t"
proof -
  obtain P where P: "P h s" "safe G P t" using assms(1) unfolding fine_def by (elim exE conjE)
  have "P (insert s' h) s'" using safe_stable [OF P(2)] P(1) assms(2) by (simp add: stable_def)
  with P(2) show ?thesis by (rule fineI)
qed

lemma fine_action:
  assumes "fine G h s (Act f)" "f s = (s', t)"
  shows "G h s s'" and "fine G (insert s' h) s' t"
proof -
  obtain P where P: "P h s" "safe G P (Act f)" using assms(1) unfolding fine_def by (elim exE conjE)
  from P(2) have "G h s s' \<and> fine G (insert s' h) s' t"
  proof cases
    case Act
    from Act(2) [OF P(1) assms(2)] show ?thesis by (simp add: fine_def)
  qed
  then show "G h s s'" "fine G (insert s' h) s' t" by simp_all
qed

lemma safe_weaken:
  assumes "safe G P t" "stable G P'" "\<And>h s. P' h s \<Longrightarrow> P h s"
  shows "safe G P' t"
  using assms(1)
proof cases
  case (Ret x)
  then show ?thesis using assms(2) by (simp add: safe.Ret)
next
  case (Act f)
  show ?thesis unfolding Act(1) by (rule safe.Act [OF assms(2)]) (rule Act(3) [OF assms(3)])
qed

lemma safe_act:
  assumes "stable G P" and "\<And>h s. P h s \<Longrightarrow> G h s (st_after m s)"
    and "\<And>h s. P h s \<Longrightarrow> R (val_of m s) (insert (st_after m s) h) (st_after m s)" and "\<And>x. safe G (R x) (k x)"
  shows "safe G P (act m k)"
  unfolding act_def
proof (rule safe.Act [OF assms(1)])
  fix h s s' t
  assume p: "P h s" and "(case run_state m s of (x, s') \<Rightarrow> (s', k x)) = (s', t)"
  then have e: "s' = st_after m s" "t = k (val_of m s)" by (simp_all add: split_beta)
  have "R (val_of m s) (insert s' h) s' \<and> safe G (R (val_of m s)) t"
    unfolding e using assms(3) [OF p] assms(4) by simp
  then show "G h s s' \<and> (\<exists>P'. P' (insert s' h) s' \<and> safe G P' t)"
    unfolding e using assms(2) [OF p] by (intro conjI exI [of _ "R (val_of m s)"]) simp_all
qed

text \<open>Safe threads keep the invariant \<open>I\<close> in every interleaving.\<close>

lemma safe_node_step:
  assumes "stable G I" and "\<And>ev. safe G I (svc_thread E ev)"
    and listen: "\<And>h s p r d call. I h s \<Longrightarrow> listener_turn E p (s_redis s, s_world s) = Some ((r, d), call) \<Longrightarrow>
      G h s (s\<lparr>s_redis := r, s_world := d\<rparr>)"
    and step: "node_step E n n'" and I: "I (nd_past n) (nd_svc n)"
    and ok: "list_all (fine G (nd_past n) (nd_svc n)) (nd_threads n)"
  shows "I (nd_past n') (nd_svc n') \<and> list_all (fine G (nd_past n') (nd_svc n')) (nd_threads n')"
  using step
proof cases
  case (event ev)
  then show ?thesis using I ok fineI [OF assms(2) I, of ev] by simp
next
  case (action i f s' t)
  have "fine G (nd_past n) (nd_svc n) (Act f)" using ok action(2,3) by (metis list_all_length)
  note g = fine_action [OF this action(4)]
  have "I (insert s' (nd_past n)) s'" using g(1) I assms(1) by (simp add: stable_def)
  moreover have "list_all (fine G (insert s' (nd_past n)) s') (nd_threads n)"
    using ok by (rule list.pred_mono_strong) (rule fine_rely [where G = G, OF _ g(1)])
  ultimately show ?thesis using g(2) set_update_subset_insert [of "nd_threads n" i t]
    by (auto simp: action(1) node_enters_def list_all_iff)
next
  case (listen p r d call)
  let ?s = "(nd_svc n)\<lparr>s_redis := r, s_world := d\<rparr>"
  have g: "G (nd_past n) (nd_svc n) ?s" using I assms(3) listen(2) by simp
  then have i: "I (insert ?s (nd_past n)) ?s" using I assms(1) by (simp add: stable_def)
  moreover have "list_all (fine G (insert ?s (nd_past n)) ?s) (threads_of_call E call)"
    using fineI [OF assms(2), OF i] by (auto simp: threads_of_call_def simp del: svc_thread.simps split: option.splits)
  moreover have "list_all (fine G (insert ?s (nd_past n)) ?s) (nd_threads n)"
    using ok by (rule list.pred_mono_strong) (rule fine_rely [where G = G, OF _ g])
  ultimately show ?thesis by (simp add: listen(1) node_enters_def)
qed

lemma safe_node:
  assumes "stable G I" and "\<And>ev. safe G I (svc_thread E ev)"
    and "\<And>h s p r d call. I h s \<Longrightarrow> listener_turn E p (s_redis s, s_world s) = Some ((r, d), call) \<Longrightarrow>
      G h s (s\<lparr>s_redis := r, s_world := d\<rparr>)"
    and "node_reach E (node_at s0) n" and "I {s0} s0"
  shows "I (nd_past n) (nd_svc n) \<and> list_all (fine G (nd_past n) (nd_svc n)) (nd_threads n)"
  using assms(4)
proof (induction rule: node_reach.induct)
  case start
  then show ?case using assms(5) by (simp add: node_at_def)
next
  case (more n n')
  show ?case by (rule safe_node_step [OF assms(1-3) more.hyps(2)]) (use more.IH in simp_all)
qed

subsection \<open>A login and a logout that overlap\<close>

text \<open>What is left of a login once the user is in the table: it queues the subscription and leaves the table alone.\<close>

lemma login_subscribe_routing:
  fixes s :: "'d svc"
  assumes "r_running (s_redis s)"
  shows "userConnMap (st_after (alone (login_subscribe_t E c u)) s) = userConnMap s \<and>
    r_commandQueue (s_redis (st_after (alone (login_subscribe_t E c u)) s)) = r_commandQueue (s_redis s) @ [(Subscribe, u_id u)]"
proof -
  let ?P = "\<lambda>q (t :: 'd svc). userConnMap t = userConnMap s \<and> r_commandQueue (s_redis t) = q \<and> r_running (s_redis t)"
  let ?q = "r_commandQueue (s_redis s)"
  have "triple (?P ?q) (alone (login_subscribe_t E c u)) (\<lambda>_. ?P (?q @ [(Subscribe, u_id u)]))"
    unfolding login_subscribe_t_def alone_act
  proof (rule triple_bind [OF tripleI [where Q = "\<lambda>_. ?P (?q @ [(Subscribe, u_id u)])"] triple_keeps])
    fix t :: "'d svc" assume "?P ?q t"
    then show "?P (?q @ [(Subscribe, u_id u)]) (st_after (on_rd (Redis_subscribe E (u_id u))) t)"
      by (simp add: subscribe_queue)
  qed (simp add: alone_login_lists | intro keeps_rules sends_okD(2) [OF sends_ok_routing
        [where Q = "\<lambda>m r. m = userConnMap s \<and> r_commandQueue r = ?q @ [(Subscribe, u_id u)] \<and> r_running r"]]
      ignores_routing [where Q = "\<lambda>m r. m = userConnMap s \<and> r_commandQueue r = ?q @ [(Subscribe, u_id u)] \<and> r_running r"])+
  then have "?P (?q @ [(Subscribe, u_id u)]) (st_after (alone (login_subscribe_t E c u)) s)"
    by (rule tripleD) (simp add: assms)
  then show ?thesis by simp
qed

lemma logout_routing:
  assumes "r_running (s_redis s)" "int_field js ''userid'' = Inr u"
  shows "userConnMap (st_after (alone (loginout_t E c js)) s) = erase_conn u (userConnMap s)"
    and "r_commandQueue (s_redis (st_after (alone (loginout_t E c js)) s)) = r_commandQueue (s_redis s) @ [(Unsubscribe, u)]"
    and "r_running (s_redis (st_after (alone (loginout_t E c js)) s))"
  using assms by (simp_all add: alone_handlers(1) loginout_def routing_markUserOffline split_beta)

lemma getHandler_t_numbers:
  "getHandler_t E (msg_id LOGIN_MSG) = login_t E" "getHandler_t E (msg_id LOGINOUT_MSG) = loginout_t E"
  "getHandler_t E (msg_id ADD_FRIEND_REQUEST) = addFriend_t E" "getHandler_t E (msg_id ADD_FRIEND_HANDLE) = addFriendHandle_t E"
  by (simp_all add: getHandler_t_def)

lemma login_begins:
  assumes "string_field js ''name'' = Inr name" "string_field js ''password'' = Inr password"
  obtains k where "login_t E c js = act (on_db (UserModel_query_name E name)) k"
    and "\<And>user. login_errno user password = 0 \<Longrightarrow> k user = login_success_t E c (user\<lparr>u_state := ''online''\<rparr>)"
proof
  show "login_t E c js = act (on_db (UserModel_query_name E name)) (\<lambda>user.
         if u_name user = [] then
           sendJson_t E c (response3 LOG_MSG_ACK 3 (''User does not exist. Please register first.'' @ [newline]))
         else if u_password user \<noteq> password then
           sendJson_t E c (response3 LOG_MSG_ACK 2 (''Incorrect password. Please try again.'' @ [newline]))
         else if u_state user = ''online'' then
           sendJson_t E c (response3 LOG_MSG_ACK 1 (''this account is using, input another!'' @ [newline]))
         else login_success_t E c (user\<lparr>u_state := ''online''\<rparr>))"
    by (simp add: login_t_def assms)
qed (simp add: login_errno_def split: if_splits)

text \<open>A login and a logout that overlap leave a channel subscribed for nobody. When a client sends
  its login and at once a logout for the same user, two workers handle them. If the logout comes
  between the entry of the login into the table and its subscription, then, with both handlers at
  their end, the user is not in the table of the node, but the last routing command for his channel
  is the subscription: the node goes on receiving his messages from Redis.\<close>

theorem login_logout_race:
  assumes "r_running (s_redis s)" and "string_field js ''name'' = Inr name" and "string_field js ''password'' = Inr password"
    and "run_state (UserModel_query_name E name) (s_world s) = (user, d)" and "login_errno user password = 0"
    and "int_field js' ''userid'' = Inr (u_id user)"
  shows "\<exists>n x y. node_reach E (node_at s) n \<and> nd_threads n = [Ret x, Ret y] \<and>
    u_id user \<notin> fst ` set (userConnMap (nd_svc n)) \<and>
    commanded (r_commandQueue (s_redis (nd_svc n))) (u_id user) = Some Subscribe"
proof -
  let ?u = "user\<lparr>u_state := ''online''\<rparr>" and ?out = "loginout_t E c js'"
  let ?evs = "[Message (msg_id LOGIN_MSG) c js, Message (msg_id LOGINOUT_MSG) c js']"
  let ?reach = "\<lambda>s' t. \<exists>h. node_reach E (node_at s) \<lparr>nd_svc = s', nd_threads = [t, ?out], nd_past = h\<rparr>"
  have "map (svc_thread E) ?evs = [login_t E c js, ?out]" by (simp add: getHandler_t_numbers del: msg_id.simps)
  with reach_events [of E s ?evs] have r0: "?reach s (login_t E c js)" by metis
  have go: "?reach (st_after m s') (k (val_of m s'))" if "?reach s' (act m k)" for s' k and m :: "('a svc, 'x) state"
    using that reach_act [of E "node_at s" s' "[act m k, ?out]" _ 0 m k] by auto
  define s1 where "s1 = s\<lparr>s_world := d\<rparr>"
  define s2 where "s2 = st_after (on_db (UserModel_updateState E ?u)) s1"
  define s3 where "s3 = userConnMap_update (insert_conn (u_id user) c) s2"
  obtain k where k: "login_t E c js = act (on_db (UserModel_query_name E name)) k" "k user = login_success_t E c ?u"
    using login_begins [OF assms(2,3)] assms(5) by blast
  have r1: "?reach s1 (login_success_t E c ?u)"
    using go [OF r0 [unfolded k(1)]] by (simp add: s1_def assms(4) k(2))
  have r2: "?reach s2 (act (modify (userConnMap_update (insert_conn (u_id user) c))) (\<lambda>_. login_subscribe_t E c ?u))"
    unfolding s2_def by (rule go) (use r1 in \<open>simp add: login_success_t_def\<close>)
  obtain h3 where r3: "node_reach E (node_at s) \<lparr>nd_svc = s3, nd_threads = [login_subscribe_t E c ?u, ?out], nd_past = h3\<rparr>"
    using go [OF r2] by (auto simp: s3_def)
  define s4 where "s4 = st_after (alone ?out) s3"
  from reach_end [OF r3, of 1]
  obtain h4 y where r4: "node_reach E (node_at s) \<lparr>nd_svc = s4, nd_threads = [login_subscribe_t E c ?u, Ret y], nd_past = h4\<rparr>"
    by (auto simp: s4_def)
  from reach_end [OF r4, of 0]
  obtain h5 x where r5: "node_reach E (node_at s) \<lparr>nd_svc = st_after (alone (login_subscribe_t E c ?u)) s4,
      nd_threads = [Ret x, Ret y], nd_past = h5\<rparr>" by auto
  have "r_running (s_redis s3)" using assms(1) by (simp add: s3_def s2_def s1_def)
  note l4 = logout_routing [OF this assms(6), of E c, folded s4_def]
  note l5 = login_subscribe_routing [OF l4(3), of E c ?u]
  show ?thesis
    by (intro exI conjI, rule r5) (use l4 l5 in \<open>simp_all add: commanded_def\<close>)
qed

theorem login_logout_race_witness:
  "\<exists>n x y. node_reach scripted (node_at (started_node [[user_row 7 ''ann'' ''secret'' ''offline'']])) n \<and>
     nd_threads n = [Ret x, Ret y] \<and> 7 \<notin> fst ` set (userConnMap (nd_svc n)) \<and>
     commanded (r_commandQueue (s_redis (nd_svc n))) 7 = Some Subscribe"
proof -
  let ?s = "started_node [[user_row 7 ''ann'' ''secret'' ''offline'']]"
  let ?u = "\<lparr>u_id = 7, u_name = ''ann'', u_password = ''secret'', u_state = ''offline''\<rparr>"
  have q: "run_state (UserModel_query_name scripted ''ann'') (s_world ?s) = (?u, ([], [c_str (sql_user_by_name ''ann'')]))"
    using scripted_query_name [of "''ann''" "''secret''" "''offline''" 7 "''ann''" "[]" "[]"]
    by (simp add: started_node_def int32_range_def)
  have "\<exists>n x y. node_reach scripted (node_at ?s) n \<and> nd_threads n = [Ret x, Ret y] \<and>
      u_id ?u \<notin> fst ` set (userConnMap (nd_svc n)) \<and>
      commanded (r_commandQueue (s_redis (nd_svc n))) (u_id ?u) = Some Subscribe"
    by (rule login_logout_race [where js = "login_js ''ann'' ''secret''" and js' = "JObj [(''userid'', JInt 7)]" and d = "([], [c_str (sql_user_by_name ''ann'')])"])
      (use q in \<open>simp_all add: login_js_def login_errno_def started_node_def Redis_running_def int32_range_def\<close>)
  then show ?thesis by simp
qed

end
