(* ===== verification/FriendThreads.thy ===== *)
theory FriendThreads
  imports FriendFlow Threads
begin

text \<open>
  The friend workflow when handlers run at the same time. Whatever the interleaving and whatever
  fails, nobody is stored as a friend unless a request for it had been accepted before; but an
  answer is tested and carried out in separate steps, so two answers to one request can both be
  carried out.
\<close>

subsection \<open>What every action promises\<close>

text \<open>The requests that were accepted in one of the states passed.\<close>

definition accepted_in :: "('d \<Rightarrow> database) \<Rightarrow> 'd svc set \<Rightarrow> pair_key set" where
  "accepted_in tables h = {k. \<exists>s \<in> h. status_at ''FriendRequest'' (tables (s_world s)) k = Some ''accepted''}"

definition has_consent :: "pair_key set \<Rightarrow> pair_key \<Rightarrow> bool" where
  "has_consent C k \<longleftrightarrow> k \<in> C \<or> prod.swap k \<in> C"

lemma accepted_in_insert:
  "accepted_in tables (insert s h) = {k. fb_requests (friend_view (tables (s_world s))) k = Some ''accepted''} \<union> accepted_in tables h"
  by (auto simp: accepted_in_def friend_view_def)

lemma has_consent_mono: "has_consent C k \<Longrightarrow> C \<subseteq> D \<Longrightarrow> has_consent D k"
  by (auto simp: has_consent_def)

text \<open>
  The invariant, the promise of an action to the other threads, and what a thread knows: the pairs
  \<open>K\<close> have a request on record, the pairs \<open>C\<close> have been accepted.
\<close>

definition consented :: "('d \<Rightarrow> database) \<Rightarrow> 'd svc set \<Rightarrow> 'd svc \<Rightarrow> bool" where
  "consented tables h s \<longleftrightarrow> s \<in> h \<and> booked (\<lambda>b. \<forall>k \<in> fb_friends b. has_consent (accepted_in tables h) k) (tables (s_world s))"

definition friend_promise :: "('d \<Rightarrow> database) \<Rightarrow> 'd svc set \<Rightarrow> 'd svc \<Rightarrow> 'd svc \<Rightarrow> bool" where
  "friend_promise tables h s s' \<longleftrightarrow> consented tables h s \<longrightarrow> consented tables (insert s' h) s' \<and>
     dom (fb_requests (friend_view (tables (s_world s)))) \<subseteq> dom (fb_requests (friend_view (tables (s_world s'))))"

definition knowing :: "('d \<Rightarrow> database) \<Rightarrow> pair_key set \<Rightarrow> pair_key set \<Rightarrow> 'd svc set \<Rightarrow> 'd svc \<Rightarrow> bool" where
  "knowing tables K C h s \<longleftrightarrow> consented tables h s \<and> K \<subseteq> dom (fb_requests (friend_view (tables (s_world s)))) \<and>
     C \<subseteq> accepted_in tables h"

lemma knowing_stable: "stable (friend_promise tables) (knowing tables K C)"
  unfolding stable_def knowing_def friend_promise_def accepted_in_insert by blast

text \<open>What an action does to the book, as a relation of the book before, the value and the book after.\<close>

definition effect :: "('d \<Rightarrow> database) \<Rightarrow> ('d svc, 'x) state \<Rightarrow> (friend_book \<Rightarrow> 'x \<Rightarrow> friend_book \<Rightarrow> bool) \<Rightarrow> bool" where
  "effect tables m Q \<longleftrightarrow> (\<forall>s. friend_tables (tables (s_world s)) \<longrightarrow>
     (let db = tables (s_world s); db' = tables (s_world (st_after m s)) in
      friend_tables db' \<and> Q (friend_view db) (val_of m s) (friend_view db')))"

lemma safe_effect:
  assumes "effect tables m Q"
    and known: "\<And>b x b'. Q b x b' \<Longrightarrow> K \<subseteq> dom (fb_requests b) \<Longrightarrow>
      dom (fb_requests b) \<subseteq> dom (fb_requests b') \<and> (\<forall>k \<in> fb_friends b'. k \<in> fb_friends b \<or> has_consent C k) \<and>
      K' x \<subseteq> dom (fb_requests b') \<and> (\<forall>k \<in> C' x. k \<in> C \<or> fb_requests b' k = Some ''accepted'')"
    and go: "\<And>x. safe (friend_promise tables) (knowing tables (K' x) (C' x)) (t x)"
  shows "safe (friend_promise tables) (knowing tables K C) (act m t)"
proof (rule safe_act [where R = "\<lambda>x. knowing tables (K' x) (C' x)", OF knowing_stable _ _ go])
  fix h s assume k: "knowing tables K C h s"
  let ?s = "st_after m s" and ?b = "friend_view (tables (s_world s))"
  let ?b' = "friend_view (tables (s_world ?s))"
  have q: "friend_tables (tables (s_world ?s))" "Q ?b (val_of m s) ?b'"
    using assms(1) k by (simp_all add: effect_def knowing_def consented_def booked_def Let_def)
  note n = known [OF q(2)]
  have d: "K \<subseteq> dom (fb_requests ?b)" "C \<subseteq> accepted_in tables h" "s \<in> h"
    and f: "\<And>k. k \<in> fb_friends ?b \<Longrightarrow> has_consent (accepted_in tables h) k"
    using k by (auto simp: knowing_def consented_def booked_def)
  have m: "accepted_in tables h \<subseteq> accepted_in tables (insert ?s h)" by (auto simp: accepted_in_insert)
  have "has_consent (accepted_in tables (insert ?s h)) k" if "k \<in> fb_friends ?b'" for k
    using n [OF d(1)] that f d(2) m has_consent_mono by (metis (no_types, lifting) subset_trans)
  then have c: "consented tables (insert ?s h) ?s" using q(1) by (simp add: consented_def booked_def)
  then show "friend_promise tables h s ?s" using n [OF d(1)] by (simp add: friend_promise_def)
  show "knowing tables (K' (val_of m s)) (C' (val_of m s)) (insert ?s h) ?s"
    using c n [OF d(1)] d(2) by (auto simp: knowing_def accepted_in_insert)
qed

lemma book_statements [simp]:
  "dom (fb_requests (book_status k st b)) = dom (fb_requests b)" "fb_friends (book_status k st b) = fb_friends b"
  "dom (fb_requests (book_request k b)) = insert k (dom (fb_requests b))" "fb_friends (book_request k b) = fb_friends b"
  by (auto simp: book_status_def book_request_def split: if_splits)

text \<open>The threads of the workflow, by what they know.\<close>

definition sound :: "('d \<Rightarrow> database) \<Rightarrow> pair_key set \<Rightarrow> pair_key set \<Rightarrow> ('d svc, 'a) thread \<Rightarrow> bool" where
  "sound tables K C t \<longleftrightarrow> safe (friend_promise tables) (knowing tables K C) t"

lemma sound_Ret: "sound tables K C (Ret x)"
  unfolding sound_def by (rule safe.Ret [OF knowing_stable])

lemma sound_require: "(\<And>x. r = Inr x \<Longrightarrow> sound tables K C (t x)) \<Longrightarrow> sound tables K C (require_t r t)"
  by (cases r) (simp_all add: sound_Ret)

lemma sound_if: "(b \<Longrightarrow> sound tables K C t) \<Longrightarrow> (\<not> b \<Longrightarrow> sound tables K C t') \<Longrightarrow> sound tables K C (if b then t else t')"
  by simp

lemma sound_option: "(x = None \<Longrightarrow> sound tables K C t) \<Longrightarrow> (\<And>y. x = Some y \<Longrightarrow> sound tables K C (t' y)) \<Longrightarrow>
    sound tables K C (case x of None \<Rightarrow> t | Some y \<Rightarrow> t' y)"
  by (cases x) simp_all

lemma sound_status:
  "(q = Ok \<Longrightarrow> sound tables K C a) \<Longrightarrow> (q = NotFound \<Longrightarrow> sound tables K C b) \<Longrightarrow> (q = DbError \<Longrightarrow> sound tables K C c) \<Longrightarrow>
     sound tables K C (case q of Ok \<Rightarrow> a | NotFound \<Rightarrow> b | DbError \<Rightarrow> c)"
  by (cases q) auto

lemma sound_for_each: "(\<And>x k. sound tables K C k \<Longrightarrow> sound tables K C (m x k)) \<Longrightarrow> sound tables K C k \<Longrightarrow> sound tables K C (for_each_t m xs k)"
  by (induction xs) simp_all

context sql_database
begin

text \<open>An action that leaves the two tables alone.\<close>

definition neutral :: "('d svc, 'x) state \<Rightarrow> bool" where
  "neutral m \<longleftrightarrow> (\<forall>R. keeps (stored_svc (booked R)) m)"

lemma neutralI: "(\<And>R. keeps (stored_svc (booked R)) m) \<Longrightarrow> neutral m"
  by (simp add: neutral_def)

lemma sound_neutral: "neutral m \<Longrightarrow> (\<And>x. sound tables K C (t x)) \<Longrightarrow> sound tables K C (act m t)"
proof -
  assume n: "neutral m" and t: "\<And>x. sound tables K C (t x)"
  have "effect tables m (\<lambda>b x b'. b' = b)"
    unfolding effect_def
  proof (intro allI impI)
    fix s :: "'d svc" assume "friend_tables (tables (s_world s))"
    then have "stored_svc (booked ((=) (friend_view (tables (s_world s))))) s" by (simp add: stored_svc_def booked_def)
    then have "stored_svc (booked ((=) (friend_view (tables (s_world s))))) (st_after m s)"
      using n unfolding neutral_def by (blast dest: keepsD)
    then show "let db = tables (s_world s); db' = tables (s_world (st_after m s)) in friend_tables db' \<and> friend_view db' = friend_view db"
      by (simp add: stored_svc_def booked_def Let_def)
  qed
  then show ?thesis unfolding sound_def
    by (rule safe_effect [where K' = "\<lambda>_. K" and C' = "\<lambda>_. C"]) (use t in \<open>auto simp: sound_def\<close>)
qed

lemma neutral_node: "neutral (sendPayload c p)" "neutral (modify (userConnMap_update f))" "neutral (gets g)"
  "neutral (on_rd (Redis_subscribe E u))" "neutral (on_rd (Redis_unsubscribe E u))" "neutral (on_rd (Redis_publish E u p))"
  by (rule neutralI, rule keeps_stored_node keeps_stored_redis keeps_gets)+

lemma neutral_close: "neutral (close_entry c)"
  by (rule neutralI, unfold close_entry_def) (intro flow_rules keeps_stored_node)

lemma neutral_db: "(\<And>R. keeps (stored (booked R)) m) \<Longrightarrow> neutral (on_db m)"
  by (rule neutralI, rule keeps_stored_db)

lemma neutral_user:
  "neutral (on_db (UserModel_insert E u))" "neutral (on_db (UserModel_updateState E u))"
  "neutral (on_db (UserModel_query_name E n))" "neutral (on_db (UserModel_query_id E i))"
  by (rule neutral_db, rule keeps_user_model [OF about_booked]; simp)+

lemma neutral_group:
  "neutral (on_db (GroupModel_createGroup E g))" "neutral (on_db (GroupModel_addGroup E u i role))"
  "neutral (on_db (GroupModel_isGroupExist_name E n))" "neutral (on_db (GroupModel_isGroupExist_id E i))"
  "neutral (on_db (GroupModel_isUserInGroup E u i))" "neutral (on_db (GroupModel_queryGroupOwnerId E i))"
  "neutral (on_db (GroupModel_queryGroupName E i))" "neutral (on_db (GroupModel_queryGroupUsers E u i))"
  "neutral (on_db (GroupModel_queryGroup E u))"
  by (rule neutral_db, rule keeps_group_model [OF about_booked]; simp)+

lemma neutral_group_request:
  "neutral (on_db (GroupRequestModel_addGroupRequest E u i))"
  "neutral (on_db (GroupRequestModel_updateRequestStatus E u i st))"
  "neutral (on_db (GroupRequestModel_isPendingRequest E u i))"
  "neutral (on_db (GroupRequestModel_queryRequestStatus E u i))"
  by (rule neutral_db, rule keeps_group_request_model [OF about_booked]; simp)+

lemma neutral_rpc:
  "neutral (on_db (insertOfflineMessageByRpc E u m))" "neutral (on_db (removeOfflineMessagesByRpc E u))"
  "neutral (on_db (queryOfflineMessagesByRpc E u))" "neutral (on_db (isUserExistByRpc E f))"
  "neutral (on_db (isFriendByRpc E u f))" "neutral (on_db (queryFriendsByRpc E u))"
  "neutral (on_db (queryRequestStatusByRpc E u f))"
  by (rule neutral_db, (rule keeps_offline_rpc [OF about_booked] keeps_friend_rpc [OF about_booked]; simp))+

lemmas neutral_rules = neutral_node neutral_close neutral_user neutral_group neutral_group_request neutral_rpc

lemmas sound_rules = sound_Ret sound_require sound_if sound_option sound_status sound_neutral [OF neutral_node(1)]
  sound_neutral [OF neutral_node(2)] sound_neutral [OF neutral_node(3)] sound_neutral [OF neutral_node(4)]
  sound_neutral [OF neutral_node(5)] sound_neutral [OF neutral_node(6)] sound_neutral [OF neutral_close]

lemma sound_send: "sound tables K C (sendJson_t E c j)"
  unfolding sendJson_t_def by (intro sound_rules)

lemma sound_deliver: "sound tables K C k \<Longrightarrow> sound tables K C (deliverMessage_t E i p k)"
  unfolding deliverMessage_t_def by (intro sound_rules sound_neutral [OF neutral_user(4)] sound_neutral [OF neutral_rpc(1)])

lemma sound_deliverDump: "sound tables K C (deliverDump_t E i j)"
  unfolding deliverDump_t_def by (intro sound_rules sound_deliver)

lemma sound_mark: "sound tables K C k \<Longrightarrow> sound tables K C (markUserOffline_t E u k)"
  unfolding markUserOffline_t_def by (intro sound_rules sound_neutral [OF neutral_user(2)])

lemma sound_sessions: "sound tables K C (loginout_t E c js)" "sound tables K C (clientCloseException_t E c)"
  "sound tables K C (reg_t E c js)" "sound tables K C (login_t E c js)"
proof -
  show "sound tables K C (loginout_t E c js)" "sound tables K C (clientCloseException_t E c)" "sound tables K C (reg_t E c js)"
    unfolding loginout_t_def clientCloseException_t_def reg_t_def
    by (intro sound_rules sound_mark sound_send sound_neutral [OF neutral_user(1)])+
  show "sound tables K C (login_t E c js)"
    unfolding login_t_def login_success_t_def login_subscribe_t_def login_lists_t_def
    by (intro sound_rules sound_send sound_neutral [OF neutral_user(2)] sound_neutral [OF neutral_user(3)]
        sound_neutral [OF neutral_rpc(2)] sound_neutral [OF neutral_rpc(3)] sound_neutral [OF neutral_rpc(6)]
        sound_neutral [OF neutral_group(9)])
qed

lemma sound_chats: "sound tables K C (oneChat_t E c js)" "sound tables K C (groupChat_t E c js)"
  "sound tables K C (redisMessage_t E u p)"
  unfolding oneChat_t_def groupChat_t_def redisMessage_t_def
  by (intro sound_rules sound_for_each sound_send sound_deliver sound_deliverDump sound_neutral [OF neutral_rpc(5)]
      sound_neutral [OF neutral_rpc(1)] sound_neutral [OF neutral_group(7)] sound_neutral [OF neutral_group(8)]; assumption?)+

lemma sound_groups: "sound tables K C (createGroup_t E c js)" "sound tables K C (addGroup_t E c js)"
  "sound tables K C (addGroupHandle_t E c js)"
  unfolding createGroup_t_def addGroup_t_def addGroupHandle_t_def notify_owner_t_def
  by (intro sound_rules sound_send sound_deliverDump neutral_group neutral_group_request
      sound_neutral [OF neutral_group(1)] sound_neutral [OF neutral_group(2)] sound_neutral [OF neutral_group(3)]
      sound_neutral [OF neutral_group(4)] sound_neutral [OF neutral_group(5)] sound_neutral [OF neutral_group(6)]
      sound_neutral [OF neutral_group_request(1)] sound_neutral [OF neutral_group_request(2)]
      sound_neutral [OF neutral_group_request(3)] sound_neutral [OF neutral_group_request(4)])+

end

subsection \<open>The actions of the workflow\<close>

context sql_database
begin

lemma effect_triple:
  assumes "\<And>b. triple (stored (booked ((=) b))) m (\<lambda>x. stored (booked (Q b x)))"
  shows "effect tables (on_db m) Q"
  unfolding effect_def
proof (intro allI impI)
  fix s :: "'d svc" assume "friend_tables (tables (s_world s))"
  then have "stored (booked ((=) (friend_view (tables (s_world s))))) (s_world s)" by (simp add: stored_def booked_def)
  from tripleD [OF assms this]
  show "let db = tables (s_world s); db' = tables (s_world (st_after (on_db m) s)) in
      friend_tables db' \<and> Q (friend_view db) (val_of (on_db m) s) (friend_view db')"
    by (simp add: stored_def booked_def Let_def)
qed

lemma effect_request:
  assumes "int32_range u" "int32_range f"
  shows "effect tables (on_db (addFriendRequestByRpc E u f)) (\<lambda>b ok b'. b' = book_request (key u f) b \<or> b' = b)"
  by (rule effect_triple, rule triple_post [OF triple_addFriendRequest [OF assms, where R' = "(=) (book_request (key u f) _)"]])
    (auto simp: stored_def booked_def)

lemma effect_update:
  assumes "int32_range u" "int32_range f" "st \<in> set request_states"
  shows "effect tables (on_db (updateRequestStatusByRpc E u f st)) (\<lambda>b ok b'. b' = book_status (key u f) st b \<or> \<not> ok \<and> b' = b)"
  by (rule effect_triple, rule triple_post [OF triple_updateRequestStatus [OF assms, where R' = "(=) (book_status (key u f) st _)"]])
    (auto simp: stored_def booked_def)

lemma effect_friend:
  assumes "int32_range u" "int32_range f"
  shows "effect tables (on_db (insertFriendByRpc E u f)) (\<lambda>b x b'. b' = book_friend (key u f) b \<or> b' = b)"
proof (rule effect_triple)
  fix b
  have "keeps (stored (booked (\<lambda>b'. b' = book_friend (key u f) b \<or> b' = b))) (insertFriendByRpc E u f)"
    by (rule keeps_insertFriend [OF assms]) (auto simp: book_friend_def)
  then show "triple (stored (booked ((=) b))) (insertFriendByRpc E u f) (\<lambda>x. stored (booked (\<lambda>b'. b' = book_friend (key u f) b \<or> b' = b)))"
    by (intro triple_pre [OF triple_keeps]) (auto simp: stored_def booked_def)
qed

lemma effect_pending:
  assumes "int32_range u" "int32_range f"
  shows "effect tables (on_db (isPendingRequestByRpc E u f))
    (\<lambda>b r b'. b' = b \<and> (fst r = Ok \<longrightarrow> fb_requests b (key u f) \<noteq> None))"
  by (rule effect_triple, rule triple_post [OF triple_isPending [OF assms]])
    (auto simp: stored_def booked_def pending_answer_def split: if_splits)

lemma sound_addFriend: "sound tables K C (addFriend_t E c js)"
proof -
  have request: "sound tables K C (act (on_db (addFriendRequestByRpc E u f)) t)"
    if "int32_range u" "int32_range f" "\<And>x. sound tables K C (t x)" for u f t
    using that(3) unfolding sound_def
    by (intro safe_effect [OF effect_request [OF that(1,2)], where K' = "\<lambda>_. K" and C' = "\<lambda>_. C"]) (elim disjE; simp; blast)
  have again: "sound tables K C (act (on_db (updateRequestStatusByRpc E u f ''pending'')) t)"
    if "int32_range u" "int32_range f" "\<And>x. sound tables K C (t x)" for u f t
    using that(3) unfolding sound_def
    by (intro safe_effect [OF effect_update [OF that(1,2) pending_state], where K' = "\<lambda>_. K" and C' = "\<lambda>_. C"]) (elim disjE; simp)
  show ?thesis
    unfolding addFriend_t_def
    by (intro sound_rules sound_send sound_deliverDump request again sound_neutral [OF neutral_rpc(4)]
        sound_neutral [OF neutral_rpc(5)] sound_neutral [OF neutral_rpc(7)]) (auto dest: int_field_range)
qed

lemma sound_addFriendHandle: "sound tables {} {} (addFriendHandle_t E c js)"
proof -
  have insert: "sound tables K C (act (on_db (insertFriendByRpc E u f)) t)"
    if "int32_range u" "int32_range f" "has_consent C (key u f)" "\<And>x. sound tables K C (t x)" for u f t K C
    using that(4) unfolding sound_def
    by (intro safe_effect [OF effect_friend [OF that(1,2)], where K' = "\<lambda>_. K" and C' = "\<lambda>_. C"])
      (use that(3) in \<open>auto simp: book_friend_def\<close>)
  have update: "sound tables {key u f} {} (act (on_db (updateRequestStatusByRpc E u f st)) t)"
    if "int32_range u" "int32_range f" "st \<in> set request_states" "\<And>ok. sound tables {key u f} (if ok then {k. k = key u f \<and> st = ''accepted''} else {}) (t ok)" for u f st t
    using that(4) unfolding sound_def
    by (intro safe_effect [OF effect_update [OF that(1-3)], where K' = "\<lambda>_. {key u f}"
        and C' = "\<lambda>ok. if ok then {k. k = key u f \<and> st = ''accepted''} else {}"])
      (auto simp: book_status_def split: if_splits)
  have pending: "sound tables {} {} (act (on_db (isPendingRequestByRpc E u f)) t)"
    if "int32_range u" "int32_range f" "\<And>r. sound tables (if fst r = Ok then {key u f} else {}) {} (t r)" for u f t
    using that(3) unfolding sound_def
    by (intro safe_effect [OF effect_pending [OF that(1,2)], where K' = "\<lambda>r. if fst r = Ok then {key u f} else {}"
        and C' = "\<lambda>_. {}"]) (auto split: if_splits)
  have consent: "has_consent {k. k = key u f \<and> ''accepted'' = ''accepted''} (key u f)"
    "has_consent {k. k = key u f \<and> ''accepted'' = ''accepted''} (key f u)" for u f
    by (simp_all add: has_consent_def key_def)
  have accept: "sound tables {key u f} (if ok then {k. k = key u f \<and> ''accepted'' = ''accepted''} else {}) (if \<not> ok then sendJson_t E c j1
      else act (on_db (insertFriendByRpc E u f)) (\<lambda>_. act (on_db (insertFriendByRpc E f u)) (\<lambda>_. deliverDump_t E u j2)))"
    if "int32_range u" "int32_range f" for u f ok j1 j2
    using that consent by (cases ok) (auto intro!: sound_send insert sound_deliverDump simp del: Collect_conj_eq)
  show ?thesis
    unfolding addFriendHandle_t_def
  proof (intro sound_require pending)
    fix u f a and r :: bool_query_result
    assume "int_field js ''userid'' = Inr u" "int_field js ''friendid'' = Inr f"
    then have i: "int32_range u" "int32_range f" by (auto dest: int_field_range)
    then show "int32_range u" "int32_range f" .
    show "sound tables (if fst r = Ok then {key u f} else {}) {} (case fst r of
           DbError \<Rightarrow> sendJson_t E c (response3 ADD_FRIEND_RESPONSE 2 busy_text)
         | NotFound \<Rightarrow>
             sendJson_t E c (response3 ADD_FRIEND_RESPONSE 4 ''The user has not sent a friend request to you!'')
         | Ok \<Rightarrow>
             if a = ''accept'' then
               act (on_db (updateRequestStatusByRpc E u f ''accepted'')) (\<lambda>ok.
                 if \<not> ok then sendJson_t E c (response3 ADD_FRIEND_RESPONSE 5 busy_text)
                 else act (on_db (insertFriendByRpc E u f)) (\<lambda>_.
                   act (on_db (insertFriendByRpc E f u)) (\<lambda>_.
                     deliverDump_t E u (response3 ADD_FRIEND_RESPONSE 0
                       ''The user has accepted your friend request. You can now chat!''))))
             else act (on_db (updateRequestStatusByRpc E u f ''rejected'')) (\<lambda>_.
               deliverDump_t E u (response3 ADD_FRIEND_RESPONSE 3
                 ''The user has declined your friend request.'')))"
    proof (cases "fst r")
      case Ok
      then show ?thesis using i
        by (auto intro!: update accept sound_deliverDump simp: request_states_def simp del: Collect_conj_eq)
    qed (simp_all add: sound_send)
  qed
qed

lemma sound_event: "sound tables {} {} (svc_thread E ev)"
proof (cases ev)
  case (Message m c js)
  then show ?thesis
    by (simp add: getHandler_t_def sound_Ret sound_sessions sound_chats sound_groups sound_addFriend sound_addFriendHandle
        split: option.split)
next
  case (Closed c)
  then show ?thesis by (simp add: sound_sessions)
next
  case (FromRedis u p)
  then show ?thesis by (simp add: sound_chats)
qed

end

subsection \<open>Friendship needs acceptance, in every interleaving\<close>

text \<open>The two calls of hiredis only the listener makes leave the tables alone.\<close>

definition listener_keeps :: "'d outside \<Rightarrow> ('d \<Rightarrow> database) \<Rightarrow> bool" where
  "listener_keeps E tables \<longleftrightarrow> (\<forall>ws d. tables (snd (ext_redis_append E ws d)) = tables d) \<and>
     (\<forall>d. tables (snd (ext_redis_write E d)) = tables d)"

lemma write_all_tables:
  assumes "listener_keeps E tables" "write_all E d = Some (ok, d')"
  shows "tables d' = tables d"
proof -
  have "listener_keeps E tables \<longrightarrow> tables (snd r) = tables d" if "write_all E d = Some r" for r
  proof (rule write_all.raw_induct [where P = "\<lambda>E d r. listener_keeps E tables \<longrightarrow> tables (snd r) = tables d", OF _ that], rule impI)
    fix f :: "'a outside \<Rightarrow> 'a \<Rightarrow> (bool \<times> 'a) option" and E :: "'a outside" and d r
    assume f: "\<And>E d y. f E d = Some y \<Longrightarrow> listener_keeps E tables \<longrightarrow> tables (snd y) = tables d"
      and r: "(case ext_redis_write E d of (WriteError, d') \<Rightarrow> Some (False, d') | (WriteMore, d') \<Rightarrow> f E d'
        | (WriteDone, d') \<Rightarrow> Some (True, d')) = Some r" and k: "listener_keeps E tables"
    obtain w d1 where w: "ext_redis_write E d = (w, d1)" by fastforce
    have "tables d1 = tables d" using k unfolding listener_keeps_def by (metis w snd_conv)
    then show "tables (snd r) = tables d" using r w f [of E d1 r] k by (cases w) auto
  qed
  with assms show ?thesis by fastforce
qed

lemma send_tables:
  assumes "listener_keeps E tables"
  shows "sendSubscribeCommand E ch (r, d) = Some (ok, r', d') \<Longrightarrow> tables d' = tables d"
    and "sendUnsubscribeCommand E ch (r, d) = Some (ok, r', d') \<Longrightarrow> tables d' = tables d"
proof -
  have a: "tables (snd (ext_redis_append E ws d)) = tables d" for ws using assms by (simp add: listener_keeps_def)
  show "sendSubscribeCommand E ch (r, d) = Some (ok, r', d') \<Longrightarrow> tables d' = tables d"
    using a [of "[''SUBSCRIBE'', show_int ch]"]
    by (auto simp: sendSubscribeCommand_def dest!: write_all_tables [OF assms] split: if_splits prod.splits bool.splits)
  show "sendUnsubscribeCommand E ch (r, d) = Some (ok, r', d') \<Longrightarrow> tables d' = tables d"
    using a [of "[''UNSUBSCRIBE'', show_int ch]"]
    by (auto simp: sendUnsubscribeCommand_def dest!: write_all_tables [OF assms] split: if_splits prod.splits bool.splits)
qed

lemma handle_all_tables:
  assumes "listener_keeps E tables"
  shows "handle_all E cs (r, d) = Some (r', d') \<Longrightarrow> tables d' = tables d"
proof (induction cs arbitrary: r d)
  case (Cons c cs)
  then obtain r1 d1 where 1: "handleCommand E c (r, d) = Some (r1, d1)" and 2: "handle_all E cs (r1, d1) = Some (r', d')"
    by (auto simp: bind_eq_Some_conv)
  have "tables d1 = tables d"
    using 1 send_tables [OF assms] by (auto simp: handleCommand_def split: CommandType.splits)
  with Cons.IH [OF 2] show ?case by simp
qed simp

lemma listener_tables:
  assumes "listener_keeps E tables" "listener_turn E p (r, d) = Some ((r', d'), call)"
  shows "tables d' = tables d"
  using assms(2) handle_all_tables [OF assms(1), of _ _ d _ d']
  by (auto simp: listener_turn_def handlePendingCommands_def split: if_splits option.splits prod.splits)

text \<open>C6: friendship needs acceptance. In every interleaving of handlers, whatever the clients
  send, whatever statements and remote calls fail or lose their answers, and whenever the listener
  of Redis takes its turns: two users are stored as friends only if in one of the states the
  service has passed through a request of one of them for the other was accepted.\<close>

theorem friendship_was_accepted:
  assumes "mysql_runs coll E tables" and "listener_keeps E tables" and "booked all_agreed (tables (s_world s))"
    and "node_reach E (node_at s) n" and "entries ''Friend'' (tables (s_world (nd_svc n))) (key u f) \<noteq> None"
  shows "\<exists>s' \<in> nd_past n. status_at ''FriendRequest'' (tables (s_world s')) (key u f) = Some ''accepted'' \<or>
    status_at ''FriendRequest'' (tables (s_world s')) (key f u) = Some ''accepted''"
proof -
  note i = sql_database.intro [OF assms(1)]
  have k: "consented tables h s \<longleftrightarrow> knowing tables {} {} h s" for h s by (simp add: knowing_def)
  have "consented tables (nd_past n) (nd_svc n) \<and> list_all (fine (friend_promise tables) (nd_past n) (nd_svc n)) (nd_threads n)"
  proof (rule safe_node [where I = "consented tables", OF _ _ _ assms(4)])
    show "stable (friend_promise tables) (consented tables)" unfolding k by (rule knowing_stable)
    show "safe (friend_promise tables) (consented tables) (svc_thread E ev)" for ev
      unfolding k using sql_database.sound_event [OF i] by (simp add: sound_def)
    show "friend_promise tables h s (s\<lparr>s_redis := r, s_world := d\<rparr>)"
      if "listener_turn E p (s_redis s, s_world s) = Some ((r, d), call)" for h s p r d call
      using listener_tables [OF assms(2) that] has_consent_mono [of "accepted_in tables h"]
      by (auto simp: friend_promise_def consented_def booked_def accepted_in_insert)
    show "consented tables {s} s"
      using assms(3) by (auto simp: consented_def booked_def all_agreed_def agreed_def has_consent_def accepted_in_def friend_view_def)
  qed
  then show ?thesis using assms(5)
    by (auto simp: consented_def booked_def has_consent_def accepted_in_def friend_view_def domIff key_def dest!: bspec [of _ _ "key u f"])
qed

lemma MySql_listener: "listener_keeps MySql fst"
  by (simp add: listener_keeps_def MySql_def)

theorem friendship_was_accepted_witness:
  "\<exists>n. node_reach MySql (node_at (mysql_node asked_database)) n \<and> entries ''Friend'' (fst (s_world (nd_svc n))) (key 7 9) \<noteq> None \<and>
     (\<exists>s' \<in> nd_past n. status_at ''FriendRequest'' (fst (s_world s')) (key 7 9) = Some ''accepted'' \<or>
       status_at ''FriendRequest'' (fst (s_world s')) (key 9 7) = Some ''accepted'')"
proof -
  let ?s = "mysql_node asked_database" and ?ev = "Message 9 4 accept_js"
  obtain h where "node_reach MySql (node_at ?s) \<lparr>nd_svc = ?s, nd_threads = [svc_thread MySql ?ev], nd_past = h\<rparr>"
    using reach_events [of MySql ?s "[?ev]"] by auto
  from reach_end [OF this, of 0] obtain h' x where
    r: "node_reach MySql (node_at ?s) \<lparr>nd_svc = svc_step MySql ?ev ?s, nd_threads = [Ret x], nd_past = h'\<rparr>" (is "node_reach _ _ ?n")
    by (auto simp: alone_svc_thread simp del: svc_thread.simps svc_step.simps)
  have "key 7 9 \<in> fb_friends (friend_view (fst (s_world (svc_step MySql ?ev ?s))))"
    using mysql_reliable.event_refines [of ?s ?ev] by (simp add: accept_fields answer_spec_def book_friend_def)
  then have f: "entries ''Friend'' (fst (s_world (nd_svc ?n))) (key 7 9) \<noteq> None"
    by (simp add: friend_view_def domIff del: svc_step.simps)
  from friendship_was_accepted [OF MySql_runs MySql_listener _ r f] r f show ?thesis by (intro exI [of _ ?n]) simp
qed

subsection \<open>Two answers to one request\<close>

context reliable_database
begin

lemma two_answers:
  assumes "int_field js ''userid'' = Inr u" "int_field js ''friendid'' = Inr f" "string_field js ''action'' = Inr ''accept''"
    and "int_field js' ''userid'' = Inr u" "int_field js' ''friendid'' = Inr f" "string_field js' ''action'' = Inr a" "a \<noteq> ''accept''"
    and "stored_svc (exactly known b) s" "fb_requests b (key u f) = Some ''pending''"
  shows "\<exists>n x y. node_reach E (node_at s) n \<and> nd_threads n = [Ret x, Ret y] \<and>
    stored_svc (exactly known (book_status (key u f) ''rejected'' (answer_spec u f True b))) (nd_svc n)"
proof -
  have r: "int32_range u" "int32_range f" using assms by (auto dest: int_field_range)
  let ?accept = "addFriendHandle_t E c js" and ?m = "on_db (isPendingRequestByRpc E u f)"
  let ?rest = "act (on_db (updateRequestStatusByRpc E u f ''rejected'')) (\<lambda>_.
     deliverDump_t E u (response3 ADD_FRIEND_RESPONSE 3 ''The user has declined your friend request.''))"
  obtain k where k: "addFriendHandle_t E c' js' = act ?m k" "k (Ok, True) = ?rest"
    using assms(4-7) by (simp add: addFriendHandle_t_def)
  let ?evs = "[Message (msg_id ADD_FRIEND_HANDLE) c js, Message (msg_id ADD_FRIEND_HANDLE) c' js']"
  have "map (svc_thread E) ?evs = [?accept, act ?m k]" by (simp add: getHandler_t_numbers k(1) del: msg_id.simps)
  with reach_events [of E s ?evs] obtain h where r0: "node_reach E (node_at s) \<lparr>nd_svc = s, nd_threads = [?accept, act ?m k], nd_past = h\<rparr>" by metis
  define s1 where "s1 = st_after ?m s"
  have 1: "stored_svc (exactly known b) s1" "val_of ?m s = (Ok, True)"
    using tripleD [OF value_on_db [OF value_requests(2) [OF r]] assms(8)] assms(9)
    unfolding s1_def by (simp_all add: pending_answer_def)
  obtain h1 where "node_reach E (node_at s) \<lparr>nd_svc = s1, nd_threads = [?accept, ?rest], nd_past = h1\<rparr>"
    using reach_act [OF r0, of 1 ?m k] 1(2) k(2) by (auto simp: s1_def)
  from reach_end [OF this, of 0] obtain h2 x where
    r2: "node_reach E (node_at s) \<lparr>nd_svc = st_after (addFriendHandle E c js) s1, nd_threads = [Ret x, ?rest], nd_past = h2\<rparr>"
    by (auto simp: alone_handlers)
  define s2 where "s2 = st_after (addFriendHandle E c js) s1"
  have 2: "stored_svc (exactly known (answer_spec u f True b)) s2"
    using tripleD [OF answer_refines [OF assms(1-3)] 1(1)] by (simp add: s2_def)
  from reach_end [OF r2, of 1] obtain h3 y where
    r3: "node_reach E (node_at s) \<lparr>nd_svc = st_after (alone ?rest) s2, nd_threads = [Ret x, Ret y], nd_past = h3\<rparr>"
    by (auto simp: s2_def)
  have "triple (stored_svc (exactly known (answer_spec u f True b))) (alone ?rest)
      (\<lambda>_. stored_svc (exactly known (book_status (key u f) ''rejected'' (answer_spec u f True b))))"
    unfolding alone_act alone_deliverDump
    by (rule triple_value [OF value_on_db [OF value_updateRequestStatus [OF r]]])
      (simp_all add: request_states_def exactly_deliver)
  from tripleD [OF this 2] r3 show ?thesis by (intro exI conjI) (rule r3, simp_all)
qed

end

text \<open>C13: two answers to one request. When a user accepts a request on one connection and declines it
  on another, or two clients answer in his name, two workers can both find the request waiting. If
  the one accepts it and makes the friendship before the other carries on, then, with both handlers
  at their end, the two users are friends and the request is on record as rejected: the statement
  that declines does not look at the status it replaces.\<close>

theorem accept_and_decline_race:
  assumes "mysql_runs coll E tables" "no_failures coll E tables"
    and "friend_tables (tables (s_world s))" "status_at ''FriendRequest'' (tables (s_world s)) (key u f) = Some ''pending''"
    and "int_field js ''userid'' = Inr u" "int_field js ''friendid'' = Inr f" "string_field js ''action'' = Inr ''accept''"
    and "int_field js' ''userid'' = Inr u" "int_field js' ''friendid'' = Inr f" "string_field js' ''action'' = Inr a" "a \<noteq> ''accept''"
  shows "\<exists>n x y. node_reach E (node_at s) n \<and> nd_threads n = [Ret x, Ret y] \<and>
    (let db = tables (s_world (nd_svc n)) in entries ''Friend'' db (key u f) \<noteq> None \<and> entries ''Friend'' db (key f u) \<noteq> None \<and>
       status_at ''FriendRequest'' db = (status_at ''FriendRequest'' (tables (s_world s)))(key u f \<mapsto> ''rejected''))"
proof -
  note db = reliable_database.intro [OF sql_database.intro [OF assms(1)] reliable_database_axioms.intro [OF assms(2)]]
  note st = sql_database.stored_svc_def [OF sql_database.intro [OF assms(1)]]
  let ?b = "friend_view (tables (s_world s))"
  obtain n x y where n: "node_reach E (node_at s) n" "nd_threads n = [Ret x, Ret y]"
    and e: "friend_view (tables (s_world (nd_svc n))) = book_status (key u f) ''rejected'' (answer_spec u f True ?b)"
    using reliable_database.two_answers [OF db assms(5-11), of "known_users (tables (s_world s))" ?b s] assms(3,4)
    by (auto simp: st exactly_def friend_view_def)
  have v: "fb_requests (friend_view db') = status_at ''FriendRequest'' db'" "fb_friends (friend_view db') = dom (entries ''Friend'' db')" for db'
    by (simp_all add: friend_view_def)
  have "status_at ''FriendRequest'' (tables (s_world (nd_svc n))) = (status_at ''FriendRequest'' (tables (s_world s)))(key u f \<mapsto> ''rejected'')"
    using e assms(4) unfolding v [symmetric] by (simp add: answer_spec_def book_status_def book_friend_def fun_eq_iff)
  moreover have "key u f \<in> dom (entries ''Friend'' (tables (s_world (nd_svc n))))" "key f u \<in> dom (entries ''Friend'' (tables (s_world (nd_svc n))))"
    using assms(4) unfolding v [symmetric] e by (simp_all add: answer_spec_def book_status_def book_friend_def)
  ultimately show ?thesis using n by (intro exI conjI) (simp_all add: Let_def domIff)
qed

definition decline_js :: json where
  "decline_js = JObj [(''msgid'', JInt 9), (''userid'', JInt 7), (''friendid'', JInt 9), (''action'', JStr ''reject'')]"

theorem accept_and_decline_race_witness:
  "\<exists>n. node_reach MySql (node_at (mysql_node asked_database)) n \<and>
     entries ''Friend'' (fst (s_world (nd_svc n))) (key 7 9) \<noteq> None \<and>
     status_at ''FriendRequest'' (fst (s_world (nd_svc n))) (key 7 9) = Some ''rejected''"
proof -
  have "status_at ''FriendRequest'' (fst (s_world (mysql_node asked_database))) (key 7 9) = Some ''pending''"
    using asked_tables(3) by (simp add: friend_view_def)
  then have "\<exists>n x y. node_reach MySql (node_at (mysql_node asked_database)) n \<and> nd_threads n = [Ret x, Ret y] \<and>
    (let db = fst (s_world (nd_svc n)) in entries ''Friend'' db (key 7 9) \<noteq> None \<and> entries ''Friend'' db (key 9 7) \<noteq> None \<and>
       status_at ''FriendRequest'' db = (status_at ''FriendRequest'' (fst (s_world (mysql_node asked_database))))(key 7 9 \<mapsto> ''rejected''))"
    by (intro accept_and_decline_race [OF MySql_runs MySql_reliable, of _ _ _ accept_js decline_js "''reject''"])
      (simp_all add: accept_fields decline_js_def int32_range_def)
  then show ?thesis by (auto simp: Let_def)
qed

end
