(* ===== verification/ChatGate.thy ===== *)
theory ChatGate
  imports FriendFlow Delivery
begin

text \<open>
  The gate in front of a private chat (\<open>oneChat\<close> of \<open>src/server/chatservice.cpp\<close>) on the table of
  friends: what the question through the friend service can answer when anything may fail, and what
  a message between strangers does.
\<close>

context sql_database
begin

lemma triple_isFriend:
  assumes "int32_range u" "int32_range f"
  shows "triple (stored (booked R)) (isFriendByRpc E u f)
    (\<lambda>x. stored (booked (\<lambda>b. R b \<and> (x \<longrightarrow> key u f \<in> fb_friends b))))"
proof (rule triple_remote [OF run_isFriendByRpc])
  let ?st = "Select [''*''] (Table ''Friend'') [Eq ''userid'' (show_int u), Eq ''friendid'' (show_int f)]"
  show "triple (stored (booked R)) (FriendModel_isFriend E u f) (\<lambda>x. stored (booked (\<lambda>b. R b \<and> (x \<longrightarrow> key u f \<in> fb_friends b))))"
    unfolding FriendModel_isFriend_def
  proof (rule triple_bind [OF triple_query [OF sends_friend(1) [OF assms]]], simp add: is_select_def, rule triple_return)
    fix r d assume "stored (\<lambda>db. booked R db \<and> answers ?st r db) d"
    then have d: "friend_tables (tables d)" "R (friend_view (tables d))" "answers ?st r (tables d)"
      by (simp_all add: stored_def booked_def)
    have "key u f \<in> fb_friends (friend_view (tables d))" if "has_row r"
    proof -
      from d(3) that have "\<exists>xs. r = rows_result (Some xs) \<and> mset xs = mset (sql_rows coll (tables d) ?st)"
        by (auto simp: answers_def has_row_def)
      then have "sql_rows coll (tables d) ?st \<noteq> []" using that has_row_mset by blast
      then show ?thesis using friend_queries(2) [OF d(1), of coll u f] by simp
    qed
    with d(1,2) show "stored (booked (\<lambda>b. R b \<and> (has_row r \<longrightarrow> key u f \<in> fb_friends b))) d"
      by (simp add: stored_def booked_def)
  qed
qed (auto simp: booked_def)

text \<open>The question changes no table.\<close>

lemma isFriend_rows: "db_rows (tables (st_after (isFriendByRpc E u f) d)) = db_rows (tables d)"
proof -
  have "about UNIV (\<lambda>db. db_rows db = db_rows (tables d))" by (simp add: about_def) (metis ext)
  from keepsD [OF keeps_friend_rpc(5) [OF this], of d u f] show ?thesis by (simp add: stored_def)
qed

end

text \<open>C5: a private message between strangers goes nowhere. If the table of friends has no row for the
  sender and the receiver, then, whatever the client put into the message and whatever becomes of
  the connection to the database, the statement or the remote call, the handler does nothing but ask
  the friend service once and write at most one line, to the sender's own connection: no line to
  another connection, nothing published, no offline message and no other change of a table.\<close>

theorem strangers_cannot_chat:
  assumes "mysql_runs coll E tables" and "friend_tables (tables (s_world s))"
    and "int_field js ''userid'' = Inr u" and "int_field js ''to'' = Inr t"
    and "entries ''Friend'' (tables (s_world s)) (key u t) = None"
  shows "\<exists>reply. st_after (oneChat E c js) s =
        s\<lparr>s_world := st_after (isFriendByRpc E u t) (s_world s), s_sent := s_sent s @ reply\<rparr> \<and>
      length reply \<le> 1 \<and> (\<forall>(c', p) \<in> set reply. c' = c) \<and>
      db_rows (tables (s_world (st_after (oneChat E c js) s))) = db_rows (tables (s_world s))"
proof -
  note i = sql_database.intro [OF assms(1)]
  have r: "int32_range u" "int32_range t" using assms(3,4) by (auto dest: int_field_range)
  have "\<not> val_of (isFriendByRpc E u t) (s_world s)"
    using tripleD [OF sql_database.triple_isFriend [OF i r, of "(=) (friend_view (tables (s_world s)))"], of "s_world s"] assms(2,5)
    by (auto simp: sql_database.stored_def [OF i] booked_def friend_view_def domIff)
  then have run: "st_after (oneChat E c js) s = st_after (sendJson E c (JObj [(''errno'', JInt 1), (''msgid'', JInt (msg_id ONE_CHAT_MSG_ACK)),
      (''errmsg'', JStr ''You are not friends with this user. Message cannot be sent!'')]))
      (s\<lparr>s_world := st_after (isFriendByRpc E u t) (s_world s)\<rparr>)"
    using assms(3,4) by (simp add: oneChat_def)
  have "\<exists>reply. st_after (oneChat E c js) s =
        s\<lparr>s_world := st_after (isFriendByRpc E u t) (s_world s), s_sent := s_sent s @ reply\<rparr> \<and>
      length reply \<le> 1 \<and> (\<forall>(c', p) \<in> set reply. c' = c)"
    unfolding run run_sendJson
    by (cases "json_dump E (JObj [(''errno'', JInt 1), (''msgid'', JInt (msg_id ONE_CHAT_MSG_ACK)),
      (''errmsg'', JStr ''You are not friends with this user. Message cannot be sent!'')])")
      (simp add: exI [of _ "[]"], intro exI [of _ "[(c, _ @ [newline])]"], simp)
  then show ?thesis using sql_database.isFriend_rows [OF i] by auto
qed

text \<open>A user who has asked for another writes to him before the answer.\<close>

theorem strangers_cannot_chat_witness:
  "let s = (mysql_node asked_database)\<lparr>userConnMap := [(9, 5)]\<rparr>;
       js = JObj [(''userid'', JInt 7), (''to'', JInt 9), (''msg'', JStr ''hi'')];
       s' = st_after (oneChat MySql 4 js) s
   in set (map fst (s_sent s')) \<subseteq> {4} \<and> length (s_sent s') \<le> 1 \<and>
      db_rows (fst (s_world s')) ''OfflineMessage'' = []"
proof -
  let ?s = "(mysql_node asked_database)\<lparr>userConnMap := [(9, 5)]\<rparr>"
  let ?js = "JObj [(''userid'', JInt 7), (''to'', JInt 9), (''msg'', JStr ''hi'')]"
  have "entries ''Friend'' asked_database (key 7 9) = None" by (simp add: entries_def asked_database_def)
  then obtain reply where r: "st_after (oneChat MySql 4 ?js) ?s =
        ?s\<lparr>s_world := st_after (isFriendByRpc MySql 7 9) (s_world ?s), s_sent := s_sent ?s @ reply\<rparr>"
      "length reply \<le> 1" "\<forall>(c', p) \<in> set reply. c' = 4"
      "db_rows (fst (s_world (st_after (oneChat MySql 4 ?js) ?s))) = db_rows asked_database"
    using strangers_cannot_chat [OF MySql_runs, of ?s ?js 7 9 4] by (auto simp: int32_range_def)
  have "db_rows asked_database ''OfflineMessage'' = []" by (simp add: asked_database_def)
  moreover have "s_sent (st_after (oneChat MySql 4 ?js) ?s) = reply" by (simp only: r(1)) (simp add: mysql_node_def)
  ultimately show ?thesis using r(2-4) by (auto simp: Let_def simp del: run_state_bind)
qed

end
