(* ===== verification/OfflineThreads.thy ===== *)
theory OfflineThreads
  imports OfflineFlow UserFlow Threads
begin




end
