(* ===== verification/Spec2Isabelle.thy ===== *)
theory Spec2Isabelle
  imports LockQueue Logger PoolConfig ConnPool Handles ClientRun EndToEnd FriendFlow GroupRefines OfflineFlow Lifecycle Injection
    FriendThreads ChatGate OfflineThreads
begin

text \<open>
  A verification development of BridgeIM, an instant-messaging system in C++: a chat server of which
  several nodes can run, two RPC services it calls, and a terminal client. Paths below are those of
  the repository's own \<open>src\<close> and \<open>include\<close> directories.

  \<^bold>\<open>The program.\<close> Clients and servers exchange one JSON object per line over TCP. In a server the
  IO threads of the network library call \<open>ChatServer\<close>, which keeps a buffer per connection, cuts it
  into lines and enqueues one task per message in a \<open>ThreadPool\<close> of four workers. A worker runs the
  handler \<open>ChatService\<close> has registered for the message kind. Handlers read and write the database,
  directly through the model classes or through the two RPC services (friends, offline messages),
  keep the table of users connected to this node, write JSON to connections, and publish on Redis
  what is meant for users of other nodes. The \<open>Redis\<close> module has a listener thread that gets its
  commands through a queue and a pipe. Every database statement borrows a connection of
  \<open>ConnectionPool\<close>. All threads log through a bounded queue to one writing thread. The client has a
  thread that receives and a thread that reads commands.

  \<^bold>\<open>Theories, in the order of their imports, and what they model.\<close>
  \<^item> \<open>Prelude\<close>: 32-bit integers, decimal text, \<open>atoi\<close>, \<open>stoi\<close>, C strings, runs of the state monad,
    and the rules of invariants (\<open>keeps\<close>) and of postconditions (\<open>triple\<close>) for it.
  \<^item> \<open>Json\<close>, \<open>Outside\<close>: JSON values with the accesses the source uses; everything the program calls
    and the repository does not hold, as the fields of one record, a parameter of the model.
  \<^item> \<open>Queue_Interface\<close>, \<open>Line_Interface\<close>: the locales of the log queue and of the line readers.
  \<^item> \<open>Protocol\<close> (\<open>include/public.hpp\<close>): the message kinds.
  \<^item> \<open>ThreadPool\<close>, \<open>LockQueue\<close>, \<open>Logger\<close>, \<open>PoolConfig\<close>, \<open>ConnPool\<close> (\<open>common/concurrency\<close>,
    \<open>server/logger\<close>, \<open>server/lockqueue.h\<close>, \<open>common/db\<close>): one record per class, one function per
    critical section, and a step relation for the interleavings of the threads.
  \<^item> \<open>Database\<close>, \<open>Handles\<close> (\<open>common/db\<close>): statements, rows and cursor; the objects that own the
    handles of the database library, and when those are released: the life of a query result, and
    that of the whole connection pool with the handle of each connection.
  \<^item> \<open>Models\<close> (\<open>server/model\<close>): the entities, each operation with the SQL text it builds.
  \<^item> \<open>Services\<close> (\<open>services\<close>): the RPC services and the wrappers the server calls them through.
  \<^item> \<open>Redis\<close> (\<open>server/redis\<close>): the whole module, the listener's turns and the publishing side.
  \<^item> \<open>ChatService\<close>, \<open>ChatServer\<close>, \<open>Lifecycle\<close> (\<open>server/chatservice.cpp\<close>, \<open>chatserver.cpp\<close>,
    \<open>main.cpp\<close>): the handlers; buffers, framing and tasks; start and stop of the processes.
  \<^item> \<open>Client\<close>, \<open>ClientRun\<close> (\<open>client/main.cpp\<close>): the receiving thread, the commands, the menu and the
    turns of \<open>main\<close>; the connection set-up and the interleavings of the two threads.
  \<^item> \<open>Sessions\<close>, \<open>Delivery\<close>: what the handlers do to the session table and where a message goes;
    \<open>Injection\<close>: how a name with a quote in it makes a session.
  \<^item> \<open>Threads\<close>: every handler once more, as a thread (\<open>login_t\<close> for \<open>login\<close>, and so on) whose actions are
    its single accesses of the table of users, calls of the model classes and of the services, and
    sends, with a lemma that the thread run alone is the handler; nodes, in which any number of such
    threads and the Redis listener interleave (\<open>node_step\<close>); and the rely/guarantee rules for them.
  \<^item> \<open>SqlSyntax\<close>, \<open>SqlStore\<close>, \<open>Tables\<close> (\<open>docker/mysql/init\<close>): the statements read as the database
    reads them, the tables with their keys and what a statement does to them, and the views of the
    tables the program relies on.
  \<^item> \<open>Stored\<close>, \<open>Requests\<close>, \<open>WriteSets\<close>, \<open>FriendFlow\<close>, \<open>GroupFlow\<close>, \<open>GroupRefines\<close>, \<open>OfflineFlow\<close>,
    \<open>UserFlow\<close>, \<open>ChatGate\<close>: handlers over tables.
  \<^item> \<open>FriendThreads\<close>, \<open>OfflineThreads\<close>: threads over tables.
  \<^item> \<open>EndToEnd\<close> and this theory: server and client joined over the byte stream between them.

  \<^bold>\<open>State and effects.\<close> A C++ class is a record with the fields of the class. A function that can
  fail has a sum or an option as its value; exceptions are the constructors of \<open>exn\<close>. A handler is
  a computation of \<open>State_Monad\<close> over \<open>svc\<close>: the session table (\<open>userConnMap\<close>), the Redis module, the
  outside world (\<open>s_world\<close>) and the bytes handed to \<open>send\<close>, in order (\<open>s_sent\<close>). The server state
  (\<open>server\<close>) adds the receive buffers and the pool of tasks.

  \<^bold>\<open>What is assumed.\<close> The outside world \<open>E\<close> is arbitrary, unless a theorem names a contract:
  \<open>json_roundtrip\<close> and \<open>json_one_line\<close> (what \<open>dump\<close> wrote, \<open>parse\<close> reads; a dump is one line),
  \<open>mysql_runs\<close> (the database carries out a statement as documented, or refuses it and changes
  nothing), \<open>no_failures\<close> (it gets a connection, accepts what the schema accepts, and every remote
  call is answered), \<open>listener_keeps\<close> (the calls only the Redis listener makes leave the tables
  alone) and \<open>tracks_handles\<close> (the database library opens and closes the handles it is told to).
  \<open>mysql_runs\<close> is in part stronger than what MySQL documents; its text in \<open>SqlStore\<close> says where.
  \<open>scripted\<close> (\<open>Outside\<close>) and \<open>MySql\<close> (\<open>SqlStore\<close>) are worlds that satisfy them,
  and the witnesses run in them.

  \<^bold>\<open>Handlers at the same time.\<close> No lock spans a handler, and four workers run them. \<open>svc_step\<close> and
  \<open>srv_step\<close> (\<open>ChatService\<close>, \<open>ChatServer\<close>) take a handler as one step: the theorems over them, in
  \<open>Sessions\<close>, \<open>Delivery\<close>, \<open>ChatServer\<close>, \<open>Lifecycle\<close> and the theories of handlers over tables, are about
  handlers that do not overlap, or about one handler. What holds of all interleavings, and what is
  lost when handlers overlap, is in the theories over \<open>Threads\<close>: acceptance before friendship survives;
  the status of a request that is answered twice, a message stored during a login, and the routing
  of a user who logs in and out at once do not.

  \<^bold>\<open>What the lemmas show.\<close>
  \<^item> Messages: the cut of the stream into lines does not depend on how TCP cuts it, every line
    becomes one task in order, a shutdown runs every task once, strangers reach nobody, and what the
    server writes for a chat or a login is what the client shows.
  \<^item> Sessions: only a right password makes one; routing and subscriptions follow the table as long
    as handlers do not overlap.
  \<^item> Stored data: each statement with texts free of quotes and escapes fits the schema, and every
    event touches its own tables; friends have a request that was accepted, in every interleaving;
    ordinary members of a group asked to join; both workflows refine an abstract book when nothing
    fails; offline messages of safe texts come back as stored, once; presence is a set of users.
  \<^item> Processes: a server that is told to stop comes to its end with its work done; the client is in its
    menu only as the user of its last successful login, and waits only for answers it asked for.
  \<^item> Resources: a pool connection has one borrower, and its handle is closed at the end of the pool; a
    result set is freed exactly once; queues stay within their bounds; the logger accounts for every
    line; configurations are usable or refused.
  \<^item> Defects: where the code does not do what it means to, a theorem states what it does.

  \<^bold>\<open>Interfaces.\<close> \<open>drop_queue\<close> is interpreted by \<open>LockQueue\<close>; \<open>line_reader\<close> by the loops of the server
  and of the client; \<open>sql_database\<close> and \<open>reliable_database\<close> by every world under the two contracts and by
  \<open>MySql\<close>.

  \<^bold>\<open>Bounds and fuel.\<close> Loops that end are recursive functions with a measure (\<open>frame_loop\<close>: the length
  of the buffer; \<open>fetch_loop\<close>: the rows left; \<open>consumer_loop\<close>: the entries left). The loop of
  \<open>redisBufferWrite\<close> need not end and is a \<open>partial_function\<close>. No definition has fuel. The numbers of
  the source are kept: 4 workers, 10000 tasks, the capacity of the log queue, the buffers of the
  client of 15, 50 and 1024 bytes, and \<open>int\<close> as 32-bit values.

  \<^bold>\<open>Not modelled.\<close> The event loop of muduo, the internals of libmysqlclient, hiredis and mprpc and
  the protobuf encoding (third-party; their effects are fields of \<open>Outside\<close>); data races inside one
  critical section (each is one step); the log lines of the server's handlers, which change nothing
  else; the decorations and fixed texts of the client's terminal; the tests, examples, build and
  container files.
\<close>

subsection \<open>Logging in\<close>

text \<open>The client after a login response: the three lists of the response, as they are shown.\<close>

definition logged_in :: "user \<Rightarrow> user list \<Rightarrow> chat_group list \<Rightarrow> screen list \<Rightarrow> client \<Rightarrow> client" where
  "logged_in user friends grps shown c = (let me = (g_currentUser c)\<lparr>u_id := u_id user, u_name := u_name user\<rparr>;
     friends = g_currentUserFriendList c @ friends; grps = g_currentUserGroupList c @ grps
   in sem_post (c\<lparr>g_currentUser := me, g_currentUserFriendList := friends, g_currentUserGroupList := grps,
        g_isLoginSuccess := True, c_screen := c_screen c @ [S_UserInfo me friends grps] @ shown\<rparr>))"

text \<open>C3: logging in, end to end. What the services and the database answer during a successful login
  (\<open>login_data\<close>: offline messages, friends, groups with their members) is what the client that
  receives the server's one line, cut in any way, ends up with: it has its own id and name, its
  lists grow by exactly these friends and groups, everything but passwords intact and in order, the
  stored messages are shown in order, and the waiting thread is woken once.\<close>

theorem login_end_to_end:
  assumes "json_roundtrip E" and "json_one_line E"
    and "login_data E user s = (off, friends, grps)" and "dump_list E msgs = Inr off"
    and "int32_range (u_id user)" and "\<forall>u \<in> set friends. int32_range (u_id u)" and "\<forall>g \<in> set grps. ids_ok g"
    and "\<forall>m \<in> set msgs. flat_object m" and "read_each show_stored msgs = Inr shown"
    and "dump_list E (map friend_json friends) = Inr fl" and "dump_groups E grps = Inr gl"
    and "json_dump E (add_list ''groups'' gl (add_list ''friends'' fl (add_list ''offlinemsg'' off
           (login_response user)))) = Inr p"
    and "concat chunks = p @ [newline]" and "c_recvbuf c = []" and "\<not> c_terminated c"
  shows "s_sent (st_after (login_success E conn user) s) = s_sent s @ [(conn, concat chunks)] \<and>
    client_stream E chunks c = logged_in user (map as_seen friends) (map group_seen grps) (concat shown) c"
proof -
  let ?m = "login_reply user off fl gl"
  have p: "json_dump E ?m = Inr p" using assms(12) by (simp add: login_reply_def)
  have f: "read_each (read_friend_entry E) fl = Inr (map as_seen friends)"
    using assms(6) by (intro read_each_dump [OF assms(10)] read_friend_dump [OF assms(1)]) auto
  have g: "read_each (read_group_entry E) gl = Inr (map group_seen grps)"
    by (rule read_groups_dump [OF assms(1,7,11)])
  have o: "read_each (show_offline E) off = Inr shown"
    using read_each_dumps [OF assms(4), of "show_offline E" show_stored]
      show_offline_dump [OF assms(1)] assms(8,9) by simp
  have "handle_message E ?m c = Inr (logged_in user (map as_seen friends) (map group_seen grps) (concat shown) c)"
    using doLoginResponse_reply [OF assms(5) f g o, of c]
    by (simp add: handle_message_def login_reply_fields [OF assms(5)] logged_in_def Let_def)
  from client_stream_dump [OF assms(1,2) flat_login_reply [OF assms(5)] p this assms(13-15)]
    login_success_sends [OF assms(3,10,11) p] assms(13)
  show ?thesis by simp
qed

definition ann :: user where
  "ann = User\<lparr>u_id := 7, u_name := ''ann'', u_state := ''online''\<rparr>"

definition bob :: user where
  "bob = User\<lparr>u_id := 8, u_name := ''bob'', u_state := ''online''\<rparr>"

definition stored_chat :: json where
  "stored_chat = chat_request bob 7 ''hello'' ''now''"

definition club :: chat_group where
  "club = (Group 3 ''club'' ''chess'')\<lparr>g_users := [GroupUser\<lparr>u_id := 8, u_name := ''bob'', u_state := ''online'', gu_role := ''creator''\<rparr>]\<rparr>"

definition login_rows :: "row list list" where
  "login_rows = [[[Some (scripted_dump stored_chat)]], [[Some (show_int 8), Some ''bob'', Some ''online'']],
     [[Some (show_int 3), Some ''club'', Some ''chess'']],
     [[Some (show_int 8), Some ''bob'', Some ''online'', Some ''creator'']]]"

lemma scripted_dump_text [simp]: "c_str (scripted_dump j) = scripted_dump j"
  by (simp add: scripted_dump_def show_nat_chars is_digit_def)

lemma scripted_rpc [simp]: "remote scripted name impl failed d = run_state impl d"
  by (simp add: remote_def scripted_def)

lemma scripted_call_rpc [simp]: "run_state (call_rpc scripted name impl) d = (Some (val_of impl d), st_after impl d)"
  by (simp add: call_rpc_def split_beta) (simp add: scripted_def split_beta)

lemma scripted_subscribe: "snd (st_after (Redis_subscribe scripted u) (r, d)) = d"
  by (simp add: Redis_subscribe_def run_send_command run_wakeupListener scripted_def split_beta)

lemma reads_entries [simp]: "reads_row read_friend" "reads_row read_group" "reads_row read_member"
  by (simp_all add: reads_row_def read_friend_def read_group_def read_member_def QueryResult_getInt_def
      QueryResult_getString_def column_def at_row_def)

lemma reads_text [simp]: "reads_row (\<lambda>r. case column r i of None \<Rightarrow> [] | Some x \<Rightarrow> c_str x)"
  by (simp add: reads_row_def column_def at_row_def)

lemmas scripted_query_defs = scripted_sql_query queryOfflineMessagesByRpc_def OfflineService_query_def
  OfflineMsgModel_query_def removeOfflineMessagesByRpc_def OfflineService_remove_def OfflineMsgModel_remove_def
  queryFriendsByRpc_def FriendService_queryFriends_def FriendModel_query_def GroupModel_queryGroup_def
  fetch_loop_rows read_friend_def read_group_def read_member_def QueryResult_getInt_def QueryResult_getString_def

lemma scripted_login_data:
  "login_data scripted ann (started_node login_rows) = ([scripted_dump stored_chat], [bob], [club])"
  by (simp add: login_data_def login_rows_def started_node_def split_beta scripted_subscribe Let_def
    UserModel_updateState_def scripted_query_defs int32_range_def ann_def bob_def club_def User_def
    Group_def GroupUser_def)

theorem login_end_to_end_witness:
  "\<exists>p. s_sent (st_after (login_success scripted 4 ann) (started_node login_rows)) = [(4, p @ [newline])] \<and>
     client_stream scripted [take 5 (p @ [newline]), drop 5 (p @ [newline])] client_init =
       logged_in ann [bob] [club] [S_Chat ''now'' 8 ''bob'' ''hello''] client_init"
proof -
  let ?fl = "[scripted_dump (friend_json bob)]"
  let ?gl = "[scripted_dump (group_json club [scripted_dump (member_json (hd (g_users club)))])]"
  let ?reply = "add_list ''groups'' ?gl (add_list ''friends'' ?fl (add_list ''offlinemsg''
      [scripted_dump stored_chat] (login_response ann)))"
  obtain p where p: "json_dump scripted ?reply = Inr p" by (simp add: json_dump_def)
  have d: "json_dump scripted j = Inr (scripted_dump j)" for j
    by (simp add: json_dump_def)
  have 1: "dump_list scripted [stored_chat] = Inr [scripted_dump stored_chat]" by (simp add: d)
  have 2: "dump_list scripted (map friend_json [bob]) = Inr ?fl" by (simp add: d)
  have 3: "dump_groups scripted [club] = Inr ?gl" by (simp add: d group_json_def club_def)
  have 4: "read_each show_stored [stored_chat] = Inr [[S_Chat ''now'' 8 ''bob'' ''hello'']]"
    by (simp add: show_stored_def stored_chat_def chat_request_def bob_def show_private_chat_def int32_range_def)
  have 5: "flat_object stored_chat"
    by (simp add: stored_chat_def chat_request_def bob_def int32_range_def flat_objectI)
  have 6: "ids_ok club" "int32_range (u_id ann)" "int32_range (u_id bob)"
    by (simp_all add: ids_ok_def club_def Group_def ann_def bob_def int32_range_def)
  have 7: "map as_seen [bob] = [bob]" "map group_seen [club] = [club]"
    by (simp_all add: as_seen_def bob_def User_def group_seen_def club_def Group_def GroupUser_def)
  have cut: "concat [take 5 x, drop 5 x] = x" for x :: string by simp
  have r: "\<forall>u \<in> set [bob]. int32_range (u_id u)" "\<forall>g \<in> set [club]. ids_ok g" "\<forall>m \<in> set [stored_chat]. flat_object m"
    using 5 6 by simp_all
  have c: "c_recvbuf client_init = []" "\<not> c_terminated client_init" "s_sent (started_node login_rows) = []"
    by (simp_all add: client_init_def started_node_def)
  have "s_sent (st_after (login_success scripted 4 ann) (started_node login_rows)) = [] @ [(4, p @ [newline])] \<and>
     client_stream scripted [take 5 (p @ [newline]), drop 5 (p @ [newline])] client_init =
       logged_in ann [bob] [club] (concat [[S_Chat ''now'' 8 ''bob'' ''hello'']]) client_init"
    using login_end_to_end [OF scripted_json_roundtrip scripted_json_one_line scripted_login_data 1 6(2)
      r 4 2 3 p cut c(1,2), of 4] unfolding cut c(3) 7 .
  then show ?thesis by (intro exI [of _ p]) simp
qed

subsection \<open>Messages the client cannot take\<close>

text \<open>C34: the busy reply ends the client. When the server's pool refuses a message it answers with a
  line that has no \<open>msgid\<close>; the client reads \<open>js["msgid"].get<int>()\<close> of every line outside any
  handler of exceptions, so receiving this reply terminates the process of the user whose message
  was refused, whatever state it is in.\<close>

theorem busy_reply_ends_client:
  assumes "json_roundtrip E" and "json_one_line E"
    and "carries E line m js" and "enqueue (HandlerTask m conn js) (srv_pool srv) = Inl e"
    and "ext_json_dump E busy_response = Some busy"
    and "c_recvbuf c = []" and "\<not> c_terminated c"
  shows "s_sent (srv_svc (handle_lines E conn [line] srv)) = s_sent (srv_svc srv) @ [(conn, busy @ [newline])] \<and>
    c_terminated (client_stream E [busy @ [newline]] c)"
proof -
  have d: "json_dump E busy_response = Inr busy" using assms(5) by (simp add: json_dump_def)
  have n: "newline \<notin> set busy" using dump_line [OF assms(2) d] by simp
  have f: "flat_object busy_response" by (simp add: busy_response_def flat_objectI int32_range_def)
  have "handle_message E busy_response c' = Inl TypeError" for c'
    by (simp add: handle_message_def busy_response_def)
  then have t: "client_frame E busy c' = (True, c'\<lparr>c_terminated := True\<rparr>)" for c'
    using client_frame_dump [OF assms(1,2) f d] by simp
  have "find_char newline (busy @ [newline]) = Some (length busy)" using n by simp
  then have "c_terminated (client_stream E [busy @ [newline]] c)"
    using assms(6,7) by (simp add: client_stream_def client_receive_def client_loop.simps [of E "c\<lparr>c_recvbuf := busy @ [newline]\<rparr>"] t)
  moreover have "handle_lines E conn [line] srv =
      srv\<lparr>srv_svc := (srv_svc srv)\<lparr>s_sent := s_sent (srv_svc srv) @ [(conn, busy @ [newline])]\<rparr>\<rparr>"
    using assms(3-5) by (simp add: carries_def handle_frame_def send_busy_def)
  ultimately show ?thesis by simp
qed

theorem busy_reply_ends_client_witness:
  "let srv = (scripted_server [])\<lparr>srv_pool := (srv_pool (scripted_server []))\<lparr>tp_tasks := replicate 10000 (CloseTask 1)\<rparr>\<rparr>;
       srv' = handle_lines scripted 4 [scripted_dump (chat_js 7 8 ''hi'')] srv
   in s_sent (srv_svc srv') = [(4, scripted_dump busy_response @ [newline])] \<and>
      c_terminated (client_stream scripted [scripted_dump busy_response @ [newline]] client_init)"
proof -
  let ?srv = "(scripted_server [])\<lparr>srv_pool := (srv_pool (scripted_server []))\<lparr>tp_tasks := replicate 10000 (CloseTask 1)\<rparr>\<rparr>"
  have "enqueue (HandlerTask 6 4 (chat_js 7 8 ''hi'')) (srv_pool ?srv) = Inl TaskQueueFull"
    by (simp add: enqueue_def scripted_server_def makeBusinessThreadPoolConfig_def)
  from busy_reply_ends_client [OF scripted_json_roundtrip scripted_json_one_line carries_scripted this scripted_dump, of client_init]
  show ?thesis by (simp add: Let_def client_init_def scripted_server_def started_node_def)
qed

text \<open>A friend request that had to wait is never seen. The same message that an online client
  shows as a friend request is, when it comes back as a stored message of the login response, parsed
  and dropped: only the two kinds of chat messages are shown from that list. The server has deleted
  it by then (\<open>login_data\<close> removes what it read), so the request stays pending unseen.\<close>

theorem stored_friend_request_not_shown:
  assumes "json_roundtrip E" and "json_one_line E"
    and "int_field js ''msgid'' = Inr (msg_id ADD_FRIEND_REQUEST)" and "int_field js ''userid'' = Inr u"
    and "flat_object js" and "json_dump E js = Inr p" and "int32_range (u_id user)"
    and "concat chunks = p @ [newline]" and "c_recvbuf c = []" and "\<not> c_terminated c"
  shows "client_stream E chunks c = show_screen (S_FriendRequest u) c \<and>
    (\<exists>c'. doLoginResponse E (add_list ''offlinemsg'' [p] (login_response user)) c = Inr c' \<and>
       (\<exists>info. c_screen c' = c_screen c @ [info] \<and> (\<exists>me fs gs. info = S_UserInfo me fs gs)))"
proof -
  have "handle_message E js c = Inr (show_screen (S_FriendRequest u) c)"
    by (simp add: handle_message_def assms(3,4))
  then have 1: "client_stream E chunks c = show_screen (S_FriendRequest u) c"
    by (rule client_stream_dump [OF assms(1,2,5,6) _ assms(8-10)])
  have "show_offline E p = Inr []"
    using show_offline_dump [OF assms(1,5,6)] by (simp add: show_stored_def assms(3))
  then have "read_each (show_offline E) [p] = Inr [[]]" by simp
  from doLoginResponse_reply [OF assms(7) _ _ this, of "[]" "[]" "[]" "[]" c] 1
  show ?thesis by (simp add: login_reply_def)
qed

definition request_js :: json where
  "request_js = JObj [(''msgid'', JInt (msg_id ADD_FRIEND_REQUEST)), (''userid'', JInt 8), (''friendid'', JInt 7)]"

theorem stored_friend_request_not_shown_witness:
  "c_screen (client_stream scripted [scripted_dump request_js @ [newline]] client_init) = [S_FriendRequest 8] \<and>
   (\<exists>c'. doLoginResponse scripted (add_list ''offlinemsg'' [scripted_dump request_js] (login_response ann)) client_init = Inr c' \<and>
      length (c_screen c') = 1)"
proof -
  have f: "int_field request_js ''msgid'' = Inr (msg_id ADD_FRIEND_REQUEST)" "int_field request_js ''userid'' = Inr 8"
    "flat_object request_js" "json_dump scripted request_js = Inr (scripted_dump request_js)" "int32_range (u_id ann)"
    "c_recvbuf client_init = []" "\<not> c_terminated client_init" "c_screen client_init = []"
    "concat [scripted_dump request_js @ [newline]] = scripted_dump request_js @ [newline]"
    by (simp_all add: request_js_def int32_range_def json_dump_def ann_def flat_objectI client_init_def)
  show ?thesis
    using stored_friend_request_not_shown [OF scripted_json_roundtrip scripted_json_one_line f(1-5) f(9) f(6,7)] f(8)
    by (auto simp: show_screen_def)
qed

subsection \<open>A private chat\<close>

lemma run_chat:
  assumes "CHR '':'' \<notin> set to" and "atoi (c_str to) = b" and "ext_localtime E d = (now, d1)"
    and "json_dump E (chat_request (g_currentUser c) b msg (getCurrentTime now)) = Inr p"
    and "ext_send E (p @ [newline]) d1 = (int (length p + 1), d2)"
  shows "run_command E (''chat'' @ CHR '':'' # to @ CHR '':'' # msg) (c, d) = (c\<lparr>c_sent := c_sent c @ p @ [newline]\<rparr>, d2)"
proof -
  have "CHR '':'' \<notin> set ''chat''" by simp
  then have "find_char (CHR '':'') (''chat'' @ CHR '':'' # to @ CHR '':'' # msg) = Some 4"
    using find_char_append [of "CHR '':''" "''chat''" "to @ CHR '':'' # msg"] by simp
  then show ?thesis using assms
    by (simp add: run_command_def commandHandlerMap_def chat_def two_args_def send_request_def send_json_def
        json_dump_def Let_def split: option.splits)
qed

lemma chat_request_fields:
  assumes "int32_range (u_id me)" "int32_range b"
  shows "flat_object (chat_request me b msg t)"
    and "contains (chat_request me b msg t) ''msgid''"
    and "int_field (chat_request me b msg t) ''msgid'' = Inr (msg_id ONE_CHAT_MSG)"
    and "int_field (chat_request me b msg t) ''userid'' = Inr (u_id me)"
    and "int_field (chat_request me b msg t) ''to'' = Inr b"
    and "show_private_chat (chat_request me b msg t) = Inr (S_Chat t (u_id me) (u_name me) msg)"
  using assms by (auto simp: chat_request_def show_private_chat_def int32_range_def intro!: flat_objectI)

text \<open>C2: a private chat, end to end. One user types \<open>chat:<to>:<text>\<close>, the bytes his client writes
  reach the server cut in any way, a worker runs the queued task later, in any state of the node in
  which the friend service says the two are friends and the receiver is connected: exactly one line
  goes to the receiver's connection, and his client, however that line is cut, shows exactly the
  text with the sender's id and name and the sender's time, and changes nothing else.\<close>

theorem private_chat_end_to_end:
  assumes "json_roundtrip E" and "json_one_line E"
    and "int32_range (u_id (g_currentUser c))" and "CHR '':'' \<notin> set to" and "atoi (c_str to) = b"
    and "ext_localtime E d = (now, d1)"
    and "json_dump E (chat_request (g_currentUser c) b msg (getCurrentTime now)) = Inr p"
    and "ext_send E (p @ [newline]) d1 = (int (length p + 1), d2)"
    and "concat chunks = p @ [newline]" and "\<not> tp_stopped (srv_pool srv)"
    and "length (tp_tasks (srv_pool srv)) < max_queue_size (tp_config (srv_pool srv))"
    and "\<forall>j. ext_json_parse E p = Some j \<longrightarrow> ext_json_dump E j \<noteq> None"
    and "val_of (isFriendByRpc E (u_id (g_currentUser c)) b) (s_world s) = True"
    and "findLocalConnection b s = Some conn'"
  shows "c_sent (fst (run_command E (''chat'' @ CHR '':'' # to @ CHR '':'' # msg) (c, d))) = c_sent c @ concat chunks \<and>
    (\<exists>task q. tp_tasks (srv_pool (receive E conn chunks (set_buf conn [] srv))) = tp_tasks (srv_pool srv) @ [task] \<and>
       s_sent (run_task E task s) = s_sent s @ [(conn', q @ [newline])] \<and>
       (\<forall>chunks' c'. concat chunks' = q @ [newline] \<longrightarrow> c_recvbuf c' = [] \<longrightarrow> \<not> c_terminated c' \<longrightarrow>
          client_stream E chunks' c' =
            show_screen (S_Chat (getCurrentTime now) (u_id (g_currentUser c)) (u_name (g_currentUser c)) msg) c'))"
proof -
  let ?me = "g_currentUser c" and ?t = "getCurrentTime now"
  let ?m = "chat_request ?me b msg ?t"
  have b: "int32_range b" using assms(5) atoi_range [of "c_str to"] by simp
  note F = chat_request_fields [OF assms(3) b, of msg ?t]
  from json_roundtripE [OF assms(1) F(1) assms(7)]
  obtain j where j: "ext_json_parse E p = Some j" "flat_object j" "same_members ?m j" by blast
  note S = same_members_fields [OF j(3)]
  have carries: "carries E p (msg_id ONE_CHAT_MSG) j"
    using dump_line [OF assms(2,7)] by (simp add: carries_def j(1) S F(2,3))
  let ?task = "HandlerTask (msg_id ONE_CHAT_MSG) conn j"
  have 1: "tp_tasks (srv_pool (receive E conn chunks (set_buf conn [] srv))) = tp_tasks (srv_pool srv) @ [?task]"
    using receive_messages [of E "[p]" "[(msg_id ONE_CHAT_MSG, j)]" chunks srv conn] assms(9-11) carries
    by (simp add: stream_of_def)
  obtain q where q: "json_dump E j = Inr q"
    using assms(12) j(1) by (auto simp: json_dump_def)
  have 2: "s_sent (run_task E ?task s) = s_sent s @ [(conn', q @ [newline])]"
    using assms(13,14) q
    by (simp add: getHandler_def msgHandlerMap_def oneChat_def S F(4,5) deliverDump_def run_deliverMessage findLocalConnection_def split_beta)
  have h: "handle_message E j c' = Inr (show_screen (S_Chat ?t (u_id ?me) (u_name ?me) msg) c')" for c'
    unfolding handle_message_same [OF j(3)] using F(3,6) by (simp add: handle_message_def)
  show ?thesis
    using run_chat [OF assms(4-8)] 1 2 client_stream_dump [OF assms(1,2) j(2) q h] assms(9) by auto
qed

theorem private_chat_end_to_end_witness:
  "let p = scripted_dump (chat_request ann 8 ''hi: you'' ''2026-01-09 08:07:05'');
       r = run_command scripted ''chat:8:hi: you'' (client_init\<lparr>g_currentUser := ann\<rparr>, ([], []));
       srv = receive scripted 4 [take 3 (p @ [newline]), drop 3 (p @ [newline])] (set_buf 4 [] (scripted_server []));
       s = (started_node [[[Some ''x'']]])\<lparr>userConnMap := [(8, 5)]\<rparr>
   in c_sent (fst r) = p @ [newline] \<and>
      (\<exists>task q. tp_tasks (srv_pool srv) = [task] \<and> s_sent (run_task scripted task s) = [(5, q @ [newline])] \<and>
         c_screen (client_stream scripted [q @ [newline]] client_init) = [S_Chat ''2026-01-09 08:07:05'' 7 ''ann'' ''hi: you''])"
proof -
  let ?c = "client_init\<lparr>g_currentUser := ann\<rparr>" and ?now = "\<lparr>tm_year = 126, tm_mon = 0, tm_mday = 9, tm_hour = 8, tm_min = 7, tm_sec = 5\<rparr>"
  let ?s = "(started_node [[[Some ''x'']]])\<lparr>userConnMap := [(8, 5)]\<rparr>"
  have t: "getCurrentTime ?now = ''2026-01-09 08:07:05''"
    by code_simp
  obtain p where p: "json_dump scripted (chat_request (g_currentUser ?c) 8 ''hi: you'' (getCurrentTime ?now)) = Inr p"
      "p = scripted_dump (chat_request ann 8 ''hi: you'' ''2026-01-09 08:07:05'')"
    by (simp add: json_dump_def t)
  have w: "ext_localtime scripted ([], []) = (?now, ([], []))"
    "ext_send scripted (p @ [newline]) ([], []) = (int (length p + 1), ([], []))"
    by (simp_all add: scripted_def)
  have a: "int32_range (u_id (g_currentUser ?c))" "CHR '':'' \<notin> set ''8''" "atoi (c_str ''8'') = 8"
    by (simp add: ann_def int32_range_def, simp, code_simp)
  have s: "\<not> tp_stopped (srv_pool (scripted_server []))"
    "length (tp_tasks (srv_pool (scripted_server []))) < max_queue_size (tp_config (srv_pool (scripted_server [])))"
    by (simp_all add: scripted_server_def makeBusinessThreadPoolConfig_def)
  have f: "val_of (isFriendByRpc scripted (u_id (g_currentUser ?c)) 8) (s_world ?s) = True" "findLocalConnection 8 ?s = Some 5"
    by (simp_all add: run_isFriendByRpc FriendModel_isFriend_def has_row_def started_node_def scripted_sql_query findLocalConnection_def split_beta)
  have r: "\<forall>j. ext_json_parse scripted p = Some j \<longrightarrow> ext_json_dump scripted j \<noteq> None" by simp
  have cut: "concat [take 3 x, drop 3 x] = x" for x :: string by simp
  have "c_sent ?c = []" "c_recvbuf client_init = []" "\<not> c_terminated client_init" "s_sent ?s = []"
      "tp_tasks (srv_pool (scripted_server [])) = []" "c_screen client_init = []" "u_id ann = 7" "u_name ann = ''ann''"
    by (simp_all add: client_init_def started_node_def scripted_server_def ann_def)
  with private_chat_end_to_end [OF scripted_json_roundtrip scripted_json_one_line a w(1) p(1) w(2) cut s r f, of 4]
  show ?thesis unfolding cut p(2) Let_def t
    by (auto simp: show_screen_def)
qed

end
